(* ===== verification/Prelude.thy ===== *)
theory Prelude
  imports Complex_Main "HOL-Library.Word" "HOL-Library.AList" "HOL-Library.Multiset"
    "HOL-Library.Char_ord" "HOL-Library.List_Lexorder" "HOL-Library.Sublist"
begin

text \<open>
  Shared vocabulary of the development: the names of the machine types, the order on byte
  strings, the lemma collections the component theories fill, and generic facts on lists,
  association lists and words used by more than one component.

  Go strings and byte slices are sequences of bytes, so both are \<open>string\<close> (lists of 8-bit
  characters).  A Go \<open>int64\<close> is a 64-bit word whose arithmetic wraps and whose comparisons
  are signed (\<open>sint\<close>).  A Go map is an association list with distinct keys: its list order
  stands for the arbitrary order in which \<open>range\<close> visits it, and every theorem is about all
  such lists.
\<close>

type_synonym bytes = string
type_synonym int64 = "64 word"
type_synonym uint64 = "64 word"
type_synonym float64 = rat

named_theorems go_simps \<open>evaluation rules of the Go library model\<close>
named_theorems agg_inv \<open>preservation of the aggregator's invariant\<close>

subsection \<open>Association lists as Go maps\<close>

text \<open>\<open>m[k] = v\<close> and \<open>delete(m, k)\<close>; reading is \<open>map_of\<close>.\<close>

abbreviation put :: "'k \<Rightarrow> 'v \<Rightarrow> ('k \<times> 'v) list \<Rightarrow> ('k \<times> 'v) list" where
  "put \<equiv> AList.update"

abbreviation del :: "'k \<Rightarrow> ('k \<times> 'v) list \<Rightarrow> ('k \<times> 'v) list" where
  "del \<equiv> AList.delete"

definition keys :: "('k \<times> 'v) list \<Rightarrow> 'k set" where
  "keys m = fst ` set m"

definition wf_map :: "('k \<times> 'v) list \<Rightarrow> bool" where
  "wf_map m \<longleftrightarrow> distinct (map fst m)"

lemma map_of_put [simp]: "map_of (put k v m) = (map_of m)(k \<mapsto> v)"
  by (rule update_conv')

lemma map_of_del [simp]: "map_of (del k m) = (map_of m)(k := None)"
  by (rule delete_conv')

lemma wf_map_Nil [simp]: "wf_map []"
  by (simp add: wf_map_def)

lemma wf_map_put [intro]: "wf_map m \<Longrightarrow> wf_map (put k v m)"
  by (simp add: wf_map_def distinct_update)

lemma wf_map_del [intro]: "wf_map m \<Longrightarrow> wf_map (del k m)"
  by (simp add: wf_map_def distinct_delete)

lemma keys_iff: "k \<in> keys m \<longleftrightarrow> map_of m k \<noteq> None"
  by (simp add: keys_def map_of_eq_None_iff)

lemma keys_simps [simp]:
  "keys [] = {}" "keys ((k, v) # m) = insert k (keys m)"
  "keys (put k v m) = insert k (keys m)" "keys (del k m) = keys m - {k}"
proof -
  show "keys (put k v m) = insert k (keys m)" "keys (del k m) = keys m - {k}"
    by (auto simp: set_eq_iff keys_iff)
qed (simp_all add: keys_def)

lemma wf_map_Cons [simp]: "wf_map ((k, v) # m) \<longleftrightarrow> map_of m k = None \<and> wf_map m"
  by (simp add: wf_map_def map_of_eq_None_iff)

lemma wf_map_of_Some_iff: "wf_map m \<Longrightarrow> map_of m k = Some v \<longleftrightarrow> (k, v) \<in> set m"
  by (simp add: wf_map_def)

lemma map_of_SomeI: "wf_map m \<Longrightarrow> (k, v) \<in> set m \<Longrightarrow> map_of m k = Some v"
  by (simp add: wf_map_def)

subsection \<open>Signed 64-bit integers\<close>

definition smax :: "int64 \<Rightarrow> int64 \<Rightarrow> int64" where
  "smax a b = (if sint a < sint b then b else a)"

lemma sint_smax [simp]: "sint (smax a b) = max (sint a) (sint b)"
  by (simp add: smax_def)

lemma sint_inj: "sint (a :: 'a::len word) = sint b \<Longrightarrow> a = b"
  by (rule signed_word_eqI)

lemma smax_comm: "smax a b = smax b a"
  by (rule sint_inj) (simp add: max.commute)

lemma smax_assoc: "smax (smax a b) c = smax a (smax b c)"
  by (rule sint_inj) (simp add: max.assoc)

lemma smax_idem [simp]: "smax a a = a"
  by (simp add: smax_def)

lemma smax_absorb: "sint b \<le> sint a \<Longrightarrow> smax a b = a"
  by (simp add: smax_def)

lemma smax_0_left [simp]: "0 \<le> sint a \<Longrightarrow> smax 0 a = a"
  by (auto intro: sint_inj)

lemma smax_0_right [simp]: "0 \<le> sint a \<Longrightarrow> smax a 0 = a"
  by (auto intro: sint_inj)

subsection \<open>Lists\<close>

lemma takeWhile_eq_prefix: "(\<And>x. x \<in> set xs \<Longrightarrow> P x) \<Longrightarrow> \<not> P y \<Longrightarrow> takeWhile P (xs @ y # ys) = xs"
  by (induction xs) auto

lemma dropWhile_eq_suffix: "(\<And>x. x \<in> set xs \<Longrightarrow> P x) \<Longrightarrow> \<not> P y \<Longrightarrow> dropWhile P (xs @ y # ys) = y # ys"
  by (induction xs) auto

lemma foldl_invariant:
  assumes "P s" and "\<And>s x. x \<in> set xs \<Longrightarrow> P s \<Longrightarrow> P (f s x)"
  shows "P (foldl f s xs)"
  using assms by (induction xs arbitrary: s) auto

lemma sorted_filter_split:
  assumes "sorted (map f xs)"
  shows "takeWhile (\<lambda>x. f x < c) xs = filter (\<lambda>x. f x < c) xs"
    and "dropWhile (\<lambda>x. f x < c) xs = filter (\<lambda>x. \<not> f x < c) xs"
proof -
  have "takeWhile (\<lambda>x. f x < c) xs = filter (\<lambda>x. f x < c) xs \<and>
        dropWhile (\<lambda>x. f x < c) xs = filter (\<lambda>x. \<not> f x < c) xs"
    using assms
  proof (induction xs)
    case (Cons x xs)
    show ?case
    proof (cases "f x < c")
      case False
      with Cons.prems have "\<forall>y\<in>set xs. \<not> f y < c" by auto
      with False show ?thesis by (simp add: filter_id_conv filter_empty_conv)
    qed (use Cons in auto)
  qed simp
  then show "takeWhile (\<lambda>x. f x < c) xs = filter (\<lambda>x. f x < c) xs"
    and "dropWhile (\<lambda>x. f x < c) xs = filter (\<lambda>x. \<not> f x < c) xs" by auto
qed

subsection \<open>Grouping by key\<close>

text \<open>What a fold that keeps one value per key computes: for each key, the elements that have it,
  the first one giving the initial value and the others added to it in order.\<close>

definition grouped :: "('x \<Rightarrow> 'v) \<Rightarrow> ('x \<Rightarrow> 'v \<Rightarrow> 'v) \<Rightarrow> ('x \<Rightarrow> 'k) \<Rightarrow> 'x list \<Rightarrow> 'k \<Rightarrow> 'v option" where
  "grouped init add key xs k =
     (case filter (\<lambda>x. key x = k) xs of [] \<Rightarrow> None | y # ys \<Rightarrow> Some (fold add ys (init y)))"

lemma grouped_Nil [simp]: "grouped init add key [] k = None"
  by (simp add: grouped_def)

lemma grouped_snoc:
  "grouped init add key (xs @ [x]) k =
     (if key x = k then Some (case grouped init add key xs k of None \<Rightarrow> init x | Some v \<Rightarrow> add x v)
      else grouped init add key xs k)"
  by (simp add: grouped_def split: list.split)

lemma grouped_None: "grouped init add key xs k = None \<longleftrightarrow> (\<forall>x \<in> set xs. key x \<noteq> k)"
proof -
  have "grouped init add key xs k = None \<longleftrightarrow> filter (\<lambda>x. key x = k) xs = []"
    by (simp add: grouped_def split: list.split)
  then show ?thesis by (simp add: filter_empty_conv)
qed

text \<open>The interface of such a fold: a step over a state from which a value per key can be read.\<close>

locale keyed_fold =
  fixes key :: "'x \<Rightarrow> 'k"
    and init :: "'x \<Rightarrow> 'v"
    and add :: "'x \<Rightarrow> 'v \<Rightarrow> 'v"
    and ok :: "'s \<Rightarrow> bool"
    and start :: 's
    and step :: "'x \<Rightarrow> 's \<Rightarrow> 's"
    and get :: "'s \<Rightarrow> 'k \<Rightarrow> 'v option"
  assumes start_ok: "ok start" and start_get: "get start k = None"
    and step_ok: "ok s \<Longrightarrow> ok (step x s)"
    and step_get: "ok s \<Longrightarrow> get (step x s) k =
      (if key x = k then Some (case get s k of None \<Rightarrow> init x | Some v \<Rightarrow> add x v) else get s k)"
begin

lemma fold_correct: "ok (fold step xs start) \<and> get (fold step xs start) k = grouped init add key xs k"
proof (induction xs rule: rev_induct)
  case Nil
  show ?case by (simp add: start_ok start_get)
next
  case (snoc x xs)
  then show ?case by (simp add: step_ok step_get grouped_snoc)
qed

lemma group_ok: "ok (fold step xs start)"
  using fold_correct by blast

lemma grouped_get: "get (fold step xs start) k = grouped init add key xs k"
  using fold_correct by blast

end

end
