(* ===== verification/Go_Float.thy ===== *)
theory Go_Float
  imports Prelude
begin

text \<open>
  \<open>float64\<close> values are rationals (a finite float is one; JSON numbers and every value the
  program computes from them by \<open>*\<close>, \<open>+\<close> are).  \<open>fl\<close> rounds a real result to 53
  significant bits, ties to even.  The exponent range is not bounded: a float product that
  overflows is only ever converted to an integer, and the conversion of anything outside
  the \<open>int64\<close> range gives the same value as the conversion of an infinity.
\<close>

fun bitlen :: "nat \<Rightarrow> nat" where
  "bitlen n = (if n = 0 then 0 else Suc (bitlen (n div 2)))"

declare bitlen.simps [simp del]

definition half_even :: "rat \<Rightarrow> int" where
  "half_even y = (let f = \<lfloor>y\<rfloor>; r = y - of_int f in
     if r < 1/2 then f else if r > 1/2 then f + 1 else if even f then f else f + 1)"

definition scale2 :: "int \<Rightarrow> rat \<Rightarrow> rat" where
  "scale2 e x = (if e \<ge> 0 then x * 2 ^ nat e else x / 2 ^ nat (- e))"

definition fl_exp :: "rat \<Rightarrow> int" where
  "fl_exp x = (let (n, d) = quotient_of \<bar>x\<bar>;
      k = int (bitlen (nat n)) - int (bitlen (nat d)) - 53
    in if scale2 (- k) \<bar>x\<bar> \<ge> 2 ^ 53 then k + 1 else k)"

definition fl :: "rat \<Rightarrow> float64" where
  "fl x = (if x = 0 then 0
     else let r = scale2 (fl_exp x) (of_int (half_even (scale2 (- fl_exp x) \<bar>x\<bar>)))
          in if x < 0 then - r else r)"

definition trunc_rat :: "rat \<Rightarrow> int" where
  "trunc_rat x = (if x < 0 then - \<lfloor>- x\<rfloor> else \<lfloor>x\<rfloor>)"

text \<open>\<open>int64(x)\<close>: truncation, and on amd64 the most negative integer when the value does
  not fit.\<close>

definition f2i :: "float64 \<Rightarrow> int64" where
  "f2i x = (let t = trunc_rat x in
     if - (2 ^ 63) \<le> t \<and> t < 2 ^ 63 then word_of_int t else word_of_int (- (2 ^ 63)))"

text \<open>\<open>float64(n)\<close>, and the product of two floats.\<close>

definition i2f :: "int64 \<Rightarrow> float64" where
  "i2f n = fl (of_int (sint n))"

definition fmul :: "float64 \<Rightarrow> float64 \<Rightarrow> float64" where
  "fmul x y = fl (x * y)"

definition fadd :: "float64 \<Rightarrow> float64 \<Rightarrow> float64" where
  "fadd x y = fl (x + y)"

definition fsub :: "float64 \<Rightarrow> float64 \<Rightarrow> float64" where
  "fsub x y = fl (x - y)"

definition fdiv :: "float64 \<Rightarrow> float64 \<Rightarrow> float64" where
  "fdiv x y = fl (x / y)"

lemma half_even_int [simp]: "half_even (of_int n) = n"
  by (simp add: half_even_def)

lemma scale2_inv [simp]: "scale2 e (scale2 (- e) x) = x"
  by (simp add: scale2_def)

lemma bitlen_bounds: "0 < n \<Longrightarrow> 2 ^ (bitlen n - 1) \<le> n \<and> n < 2 ^ bitlen n \<and> 0 < bitlen n"
proof (induction n rule: bitlen.induct)
  case (1 n)
  have b: "bitlen n = Suc (bitlen (n div 2))" using "1.prems" by (subst bitlen.simps) simp
  show ?case
  proof (cases "n div 2 = 0")
    case True
    then have "n = 1" using "1.prems" by auto
    then show ?thesis using b by (simp add: bitlen.simps)
  next
    case False
    with "1.IH" "1.prems" have ih: "2 ^ (bitlen (n div 2) - 1) \<le> n div 2" "n div 2 < 2 ^ bitlen (n div 2)"
      "0 < bitlen (n div 2)" by auto
    then obtain j where j: "bitlen (n div 2) = Suc j" by (cases "bitlen (n div 2)") auto
    with ih b show ?thesis by auto
  qed
qed

text \<open>An integer of at most 53 bits is a float.\<close>

lemma fl_small_int:
  assumes "\<bar>n\<bar> < 2 ^ 53"
  shows "fl (of_int n) = of_int n"
proof (cases "n = 0")
  case False
  let ?a = "\<bar>n\<bar>" let ?b = "bitlen (nat ?a)"
  have q: "quotient_of \<bar>of_int n :: rat\<bar> = (?a, 1)"
    by (simp flip: of_int_abs)
  have bb: "2 ^ (?b - 1) \<le> nat ?a" "0 < ?b" using bitlen_bounds [of "nat ?a"] False by auto
  have "nat ?a < 2 ^ 53" using assms by (simp add: nat_less_iff)
  with bb(1) have "2 ^ (?b - 1) < (2 :: nat) ^ 53" by (rule le_less_trans)
  then have b53: "?b \<le> 53" using power_less_imp_less_exp [of "2 :: nat" "?b - 1" 53] by simp
  have one: "bitlen (Suc 0) = 1" by (simp add: bitlen.simps)
  have e: "fl_exp (of_int n) \<le> 0"
    using b53 by (simp add: fl_exp_def q one Let_def)
  then have "scale2 (- fl_exp (of_int n)) \<bar>of_int n\<bar> = of_int (?a * 2 ^ nat (- fl_exp (of_int n)))"
    by (simp add: scale2_def)
  then have "scale2 (fl_exp (of_int n)) (of_int (half_even (scale2 (- fl_exp (of_int n)) \<bar>of_int n\<bar>))) = \<bar>of_int n :: rat\<bar>"
    by (metis half_even_int scale2_inv)
  then show ?thesis using False by (simp add: fl_def Let_def)
qed (simp add: fl_def)

lemma f2i_int: "- (2 ^ 63) \<le> n \<Longrightarrow> n < 2 ^ 63 \<Longrightarrow> f2i (of_int n) = word_of_int n"
  by (simp add: f2i_def trunc_rat_def)

end
