(* ===== verification/Float_Facts.thy ===== *)
theory Float_Facts
  imports Go_Float
begin

text \<open>Evaluating the rounding of \<open>float64\<close> at a value, and a duration that is not what it seems.\<close>

text \<open>Rounding to the nearest integer, away from the halves.\<close>

lemma half_even_near:
  assumes "\<bar>y - of_int m\<bar> < 1/2"
  shows "half_even y = m"
proof (cases "of_int m \<le> y")
  case True
  then have "\<lfloor>y\<rfloor> = m" using assms by (intro floor_unique) auto
  then show ?thesis using assms True by (simp add: half_even_def Let_def)
next
  case False
  then have "\<lfloor>y\<rfloor> = m - 1" using assms by (intro floor_unique) auto
  then show ?thesis using assms False by (simp add: half_even_def Let_def)
qed

lemma fl_1001: "fl (1001 / 1000) = 4508103226997866 / 4503599627370496"
proof -
  have q: "quotient_of (1001 / 1000) = (1001, 1000)" by code_simp
  have b: "bitlen 1001 = 10" "bitlen 1000 = 10" by (simp_all add: bitlen.simps)
  have "fl_exp (1001 / 1000) = - 52" using q b by (simp add: fl_exp_def scale2_def Let_def)
  then show ?thesis
    using half_even_near [of "scale2 52 (1001 / 1000)" 4508103226997866] by (simp add: fl_def scale2_def Let_def)
qed

text \<open>Seconds to nanoseconds through a float: one nanosecond is lost.\<close>

lemma duration_1001: "f2i (fmul (fl (1001 / 1000)) 1000000000) = 1000999999"
proof -
  let ?x = "4508103226997866 / 4503599627370496 * 1000000000 :: rat"
  have q: "quotient_of ?x = (4402444557615103515625, 4398046511104)" by code_simp
  have b: "bitlen 4402444557615103515625 = 72" "bitlen 4398046511104 = 43" by (simp_all add: bitlen.simps)
  have e: "fl_exp ?x = - 23" using q b by (simp add: fl_exp_def scale2_def Let_def)
  have h: "half_even (scale2 23 ?x) = 8396996607999999"
    by (rule half_even_near) (simp add: scale2_def)
  have "fl ?x = 8396996607999999 / 8388608" using e h by (simp add: fl_def scale2_def Let_def)
  then have m: "fmul (fl (1001 / 1000)) 1000000000 = 8396996607999999 / 8388608" by (simp add: fmul_def fl_1001)
  have "trunc_rat (8396996607999999 / 8388608) = 1000999999"
    unfolding trunc_rat_def by (simp, rule floor_unique) auto
  then show ?thesis unfolding f2i_def m by simp
qed

end
