(* ===== verification/Go_Strings.thy ===== *)
theory Go_Strings
  imports Prelude
begin

text \<open>
  The parts of Go's standard library the program uses on byte strings and integers:
  \<open>strings\<close> (prefixes, suffixes, \<open>IndexByte\<close>, \<open>Split\<close>, \<open>Join\<close>, trimming,
  \<open>ReplaceAll\<close> of one byte), \<open>strconv\<close> (\<open>ParseInt\<close>, \<open>Atoi\<close>, \<open>FormatInt\<close>),
  and the conversions between \<open>float64\<close> and \<open>int64\<close>.  All functions compute.
\<close>

subsection \<open>Package strings\<close>

definition hasPrefix :: "string \<Rightarrow> string \<Rightarrow> bool" where
  "hasPrefix s p \<longleftrightarrow> take (length p) s = p"

definition hasSuffix :: "string \<Rightarrow> string \<Rightarrow> bool" where
  "hasSuffix s p \<longleftrightarrow> length p \<le> length s \<and> drop (length s - length p) s = p"

definition trimPrefix :: "string \<Rightarrow> string \<Rightarrow> string" where
  "trimPrefix s p = (if hasPrefix s p then drop (length p) s else s)"

definition trimSuffix :: "string \<Rightarrow> string \<Rightarrow> string" where
  "trimSuffix s p = (if hasSuffix s p then take (length s - length p) s else s)"

text \<open>\<open>strings.IndexByte\<close>; \<open>None\<close> is Go's -1.\<close>

fun indexByte :: "string \<Rightarrow> char \<Rightarrow> nat option" where
  "indexByte [] c = None"
| "indexByte (x # xs) c = (if x = c then Some 0 else map_option Suc (indexByte xs c))"

fun lastIndexByte :: "string \<Rightarrow> char \<Rightarrow> nat option" where
  "lastIndexByte [] c = None"
| "lastIndexByte (x # xs) c =
     (case lastIndexByte xs c of
        Some i \<Rightarrow> Some (Suc i)
      | None \<Rightarrow> if x = c then Some 0 else None)"

fun contains :: "string \<Rightarrow> string \<Rightarrow> bool" where
  "contains [] p = (p = [])"
| "contains (x # xs) p = (hasPrefix (x # xs) p \<or> contains xs p)"

text \<open>\<open>strings.Split(s, sep)\<close> for a one-byte separator: always at least one piece.\<close>

fun splitByte :: "char \<Rightarrow> string \<Rightarrow> string list" where
  "splitByte c [] = [[]]"
| "splitByte c (x # xs) =
     (if x = c then [] # splitByte c xs
      else case splitByte c xs of [] \<Rightarrow> [[x]] | p # ps \<Rightarrow> (x # p) # ps)"

fun joinWith :: "string \<Rightarrow> string list \<Rightarrow> string" where
  "joinWith sep [] = []"
| "joinWith sep [x] = x"
| "joinWith sep (x # y # zs) = x @ sep @ joinWith sep (y # zs)"

definition trimLeftSet :: "char list \<Rightarrow> string \<Rightarrow> string" where
  "trimLeftSet cs s = dropWhile (\<lambda>c. c \<in> set cs) s"

definition trimRightSet :: "char list \<Rightarrow> string \<Rightarrow> string" where
  "trimRightSet cs s = rev (dropWhile (\<lambda>c. c \<in> set cs) (rev s))"

definition replaceByte :: "char \<Rightarrow> string \<Rightarrow> string \<Rightarrow> string" where
  "replaceByte c r s = concat (map (\<lambda>x. if x = c then r else [x]) s)"

text \<open>
  \<open>strings.TrimSpace\<close> cuts from both ends the UTF-8 encodings of the code points with the
  Unicode property White_Space.  \<open>spaceHead\<close> is the length of such an encoding at the
  front of a byte list (0 if there is none), \<open>spaceLast\<close> of one at the front of the
  reversed list.
\<close>

definition byte_at :: "string \<Rightarrow> nat \<Rightarrow> nat" where
  "byte_at s i = (case drop i s of [] \<Rightarrow> 0 | c # _ \<Rightarrow> of_char c)"

definition space3 :: "nat \<Rightarrow> nat \<Rightarrow> nat \<Rightarrow> bool" where
  "space3 a b c \<longleftrightarrow> (a = 225 \<and> b = 154 \<and> c = 128)
     \<or> (a = 226 \<and> b = 128 \<and> (128 \<le> c \<and> c \<le> 138 \<or> c = 168 \<or> c = 169 \<or> c = 175))
     \<or> (a = 226 \<and> b = 129 \<and> c = 159) \<or> (a = 227 \<and> b = 128 \<and> c = 128)"

definition space1 :: "nat \<Rightarrow> bool" where
  "space1 a \<longleftrightarrow> 9 \<le> a \<and> a \<le> 13 \<or> a = 32"

definition spaceHead :: "string \<Rightarrow> nat" where
  "spaceHead s = (let a = byte_at s 0; b = byte_at s 1; c = byte_at s 2 in
     if space1 a then 1
     else if a = 194 \<and> (b = 133 \<or> b = 160) then 2
     else if space3 a b c then 3 else 0)"

definition spaceLast :: "string \<Rightarrow> nat" where
  "spaceLast r = (let c = byte_at r 0; b = byte_at r 1; a = byte_at r 2 in
     if space1 c then 1
     else if b = 194 \<and> (c = 133 \<or> c = 160) then 2
     else if space3 a b c then 3 else 0)"

function dropSpaces :: "(string \<Rightarrow> nat) \<Rightarrow> string \<Rightarrow> string" where
  "dropSpaces f s = (if s = [] \<or> f s = 0 then s else dropSpaces f (drop (f s) s))"
  by pat_completeness auto
termination
  by (relation "measure (\<lambda>(f, s). length s)") auto

declare dropSpaces.simps [simp del]

definition trimSpace :: "string \<Rightarrow> string" where
  "trimSpace s = rev (dropSpaces spaceLast (rev (dropSpaces spaceHead s)))"

subsection \<open>Package strconv\<close>

definition is_digit :: "char \<Rightarrow> bool" where
  "is_digit c \<longleftrightarrow> 48 \<le> (of_char c :: nat) \<and> (of_char c :: nat) \<le> 57"

definition digit_val :: "char \<Rightarrow> nat" where
  "digit_val c = of_char c - 48"

definition nat_of_digits :: "string \<Rightarrow> nat" where
  "nat_of_digits s = foldl (\<lambda>n c. 10 * n + digit_val c) 0 s"

datatype num_error = ErrSyntax | ErrRange

text \<open>\<open>strconv.ParseInt(s, 10, 64)\<close>: the value Go returns, and the error if there is one.
  An out-of-range input returns the nearest representable value beside the error.\<close>

definition parseInt :: "string \<Rightarrow> int \<times> num_error option" where
  "parseInt s =
     (let neg = (case s of c # _ \<Rightarrow> c = CHR ''-'' | [] \<Rightarrow> False);
          d = (case s of c # cs \<Rightarrow> if c = CHR ''-'' \<or> c = CHR ''+'' then cs else s | [] \<Rightarrow> [])
      in if d = [] \<or> \<not> list_all is_digit d then (0, Some ErrSyntax)
         else let un = int (nat_of_digits d) in
           if \<not> neg \<and> un \<ge> 2 ^ 63 then (2 ^ 63 - 1, Some ErrRange)
           else if neg \<and> un > 2 ^ 63 then (- (2 ^ 63), Some ErrRange)
           else (if neg then - un else un, None))"

text \<open>On the 64-bit platforms the program is built for, \<open>int\<close> is 64 bits wide and
  \<open>strconv.Atoi\<close> agrees with \<open>ParseInt\<close>.\<close>

definition atoi :: "string \<Rightarrow> int \<times> num_error option" where
  "atoi = parseInt"

definition digit_char :: "nat \<Rightarrow> char" where
  "digit_char d = char_of (48 + d)"

fun formatNat :: "nat \<Rightarrow> string" where
  "formatNat n = (if n < 10 then [digit_char n] else formatNat (n div 10) @ [digit_char (n mod 10)])"

declare formatNat.simps [simp del]

definition formatInt :: "int \<Rightarrow> string" where
  "formatInt i = (if i < 0 then CHR ''-'' # formatNat (nat (- i)) else formatNat (nat i))"

text \<open>\<open>fmt\<close>'s zero padding of a non-negative number to a width (verbs such as \<open>%04d\<close>).\<close>

definition padNat :: "nat \<Rightarrow> nat \<Rightarrow> string" where
  "padNat w n = (let s = formatNat n in replicate (w - length s) CHR ''0'' @ s)"

end
