(* ===== verification/Bucket.thy ===== *)
theory Bucket
  imports Go_Strings
begin

text \<open>
  The per-minute counters of the listener's aggregator (\<open>bodylog-listener-go/main.go\<close>):
  the \<open>bucket\<close> struct, its \<open>add\<close>, the update \<open>ingest\<close> makes for one request, the delta
  \<open>flushClosedMinutes\<close> writes, the composite key \<open>bkey\<close>, and the grouping fold the
  reload, \<open>/summary\<close> and \<open>mergeBucketsByPeer\<close> share.

  Counters are 64-bit words: additions wrap and \<open>RTMaxMs\<close>, \<open>FrtMaxMs\<close> compare signed, as in
  Go.  \<open>Minute\<close> is Unix seconds; no arithmetic on it can overflow, so it is an \<open>int\<close>.
\<close>

record bucket =
  Minute :: int
  Peer :: string
  Stream :: string
  Requests :: int64
  Status2xx :: int64
  Status4xx :: int64
  Status5xx :: int64
  PromptTok :: int64
  CachedTok :: int64
  ComplTok :: int64
  TotalTok :: int64
  ReqBytes :: int64
  RespBytes :: int64
  RTSumMs :: int64
  RTMaxMs :: int64
  FrtSumMs :: int64
  FrtMaxMs :: int64
  FrtN :: int64

text \<open>A fresh \<open>&bucket{Minute: m, Peer: p, Stream: s}\<close>; Go's zero value is \<open>zero_bucket\<close>.\<close>

definition new_bucket :: "int \<Rightarrow> string \<Rightarrow> string \<Rightarrow> bucket" where
  "new_bucket m p s = \<lparr>Minute = m, Peer = p, Stream = s, Requests = 0, Status2xx = 0,
     Status4xx = 0, Status5xx = 0, PromptTok = 0, CachedTok = 0, ComplTok = 0, TotalTok = 0,
     ReqBytes = 0, RespBytes = 0, RTSumMs = 0, RTMaxMs = 0, FrtSumMs = 0, FrtMaxMs = 0, FrtN = 0\<rparr>"

definition zero_bucket :: bucket where
  "zero_bucket = new_bucket 0 [] []"

definition bucket_add :: "bucket \<Rightarrow> bucket \<Rightarrow> bucket" where
  "bucket_add dst src = dst\<lparr>
     Requests := Requests dst + Requests src,
     Status2xx := Status2xx dst + Status2xx src,
     Status4xx := Status4xx dst + Status4xx src,
     Status5xx := Status5xx dst + Status5xx src,
     PromptTok := PromptTok dst + PromptTok src,
     CachedTok := CachedTok dst + CachedTok src,
     ComplTok := ComplTok dst + ComplTok src,
     TotalTok := TotalTok dst + TotalTok src,
     ReqBytes := ReqBytes dst + ReqBytes src,
     RespBytes := RespBytes dst + RespBytes src,
     RTSumMs := RTSumMs dst + RTSumMs src,
     RTMaxMs := (if sint (RTMaxMs src) > sint (RTMaxMs dst) then RTMaxMs src else RTMaxMs dst),
     FrtSumMs := FrtSumMs dst + FrtSumMs src,
     FrtN := FrtN dst + FrtN src,
     FrtMaxMs := (if sint (FrtMaxMs src) > sint (FrtMaxMs dst) then FrtMaxMs src else FrtMaxMs dst)\<rparr>"

text \<open>The line \<open>flushClosedMinutes\<close> writes for an archived bucket that changed.  The three
  \<open>Frt\<close> fields are not set in the composite literal, so they are 0.\<close>

definition bucket_delta :: "bucket \<Rightarrow> bucket \<Rightarrow> bucket" where
  "bucket_delta cur prev = \<lparr>Minute = Minute cur, Peer = Peer cur, Stream = Stream cur,
     Requests = Requests cur - Requests prev,
     Status2xx = Status2xx cur - Status2xx prev,
     Status4xx = Status4xx cur - Status4xx prev,
     Status5xx = Status5xx cur - Status5xx prev,
     PromptTok = PromptTok cur - PromptTok prev,
     CachedTok = CachedTok cur - CachedTok prev,
     ComplTok = ComplTok cur - ComplTok prev,
     TotalTok = TotalTok cur - TotalTok prev,
     ReqBytes = ReqBytes cur - ReqBytes prev,
     RespBytes = RespBytes cur - RespBytes prev,
     RTSumMs = RTSumMs cur - RTSumMs prev,
     RTMaxMs = RTMaxMs cur,
     FrtSumMs = 0, FrtMaxMs = 0, FrtN = 0\<rparr>"

text \<open>What \<open>ingest\<close> takes from one request, before it locks the aggregator.\<close>

record sample =
  s_minute :: int
  s_peer :: string
  s_stream :: string
  s_status :: int64
  s_prompt :: int64
  s_cached :: int64
  s_compl :: int64
  s_total :: int64
  s_reqBytes :: int64
  s_respBytes :: int64
  s_rtMs :: int64
  s_frtMs :: "int64 option"

text \<open>The counter updates at the end of \<open>ingest\<close>, one definition per statement group:
  the status class, the sums, the response time, the first-chunk time (\<open>None\<close> is
  \<open>!hasFrt\<close>).\<close>

definition bump_status :: "sample \<Rightarrow> bucket \<Rightarrow> bucket" where
  "bump_status s b =
     (if sint (s_status s) \<ge> 200 \<and> sint (s_status s) < 300 then b\<lparr>Status2xx := Status2xx b + 1\<rparr>
      else if sint (s_status s) \<ge> 400 \<and> sint (s_status s) < 500 then b\<lparr>Status4xx := Status4xx b + 1\<rparr>
      else if sint (s_status s) \<ge> 500 then b\<lparr>Status5xx := Status5xx b + 1\<rparr>
      else b)"

definition bump_sums :: "sample \<Rightarrow> bucket \<Rightarrow> bucket" where
  "bump_sums s b = b\<lparr>PromptTok := PromptTok b + s_prompt s, CachedTok := CachedTok b + s_cached s,
     ComplTok := ComplTok b + s_compl s, TotalTok := TotalTok b + s_total s,
     ReqBytes := ReqBytes b + s_reqBytes s, RespBytes := RespBytes b + s_respBytes s,
     RTSumMs := RTSumMs b + s_rtMs s\<rparr>"

definition bump_rt :: "sample \<Rightarrow> bucket \<Rightarrow> bucket" where
  "bump_rt s b = (if sint (s_rtMs s) > sint (RTMaxMs b) then b\<lparr>RTMaxMs := s_rtMs s\<rparr> else b)"

definition bump_frt :: "sample \<Rightarrow> bucket \<Rightarrow> bucket" where
  "bump_frt s b = (case s_frtMs s of
      None \<Rightarrow> b
    | Some f \<Rightarrow> b\<lparr>FrtSumMs := FrtSumMs b + f, FrtN := FrtN b + 1,
        FrtMaxMs := (if sint f > sint (FrtMaxMs b) then f else FrtMaxMs b)\<rparr>)"

definition bump :: "sample \<Rightarrow> bucket \<Rightarrow> bucket" where
  "bump s b = bump_frt s (bump_rt s (bump_sums s (bump_status s (b\<lparr>Requests := Requests b + 1\<rparr>))))"

text \<open>The composite key of the inner maps.\<close>

definition bkey :: "string \<Rightarrow> string \<Rightarrow> string" where
  "bkey peer stream = peer @ CHR 0x00 # stream"

definition stream_keys :: "string set" where
  "stream_keys = {[], ''true'', ''false''}"

subsection \<open>Reading counters by name\<close>

datatype counter = CRequests | C2xx | C4xx | C5xx | CPrompt | CCached | CCompl | CTotal
  | CReqBytes | CRespBytes | CRTSum | CFrtSum | CFrtN

primrec ctr :: "counter \<Rightarrow> bucket \<Rightarrow> int64" where
  "ctr CRequests b = Requests b"
| "ctr C2xx b = Status2xx b"
| "ctr C4xx b = Status4xx b"
| "ctr C5xx b = Status5xx b"
| "ctr CPrompt b = PromptTok b"
| "ctr CCached b = CachedTok b"
| "ctr CCompl b = ComplTok b"
| "ctr CTotal b = TotalTok b"
| "ctr CReqBytes b = ReqBytes b"
| "ctr CRespBytes b = RespBytes b"
| "ctr CRTSum b = RTSumMs b"
| "ctr CFrtSum b = FrtSumMs b"
| "ctr CFrtN b = FrtN b"

text \<open>The contribution of one request to each counter.\<close>

definition inc :: "sample \<Rightarrow> counter \<Rightarrow> int64" where
  "inc s c = ctr c (bump s zero_bucket)"

definition frt_counter :: "counter \<Rightarrow> bool" where
  "frt_counter c \<longleftrightarrow> c = CFrtSum \<or> c = CFrtN"

definition bucket_key :: "bucket \<Rightarrow> int \<times> string" where
  "bucket_key b = (Minute b, bkey (Peer b) (Stream b))"

definition sample_key :: "sample \<Rightarrow> int \<times> string" where
  "sample_key s = (s_minute s, bkey (s_peer s) (s_stream s))"

lemma ctr_new_bucket [simp]: "ctr c (new_bucket m p s) = 0"
  by (cases c) (simp_all add: new_bucket_def)

lemma ctr_zero_bucket [simp]: "ctr c zero_bucket = 0"
  by (simp add: zero_bucket_def)

lemma ctr_add [simp]: "ctr c (bucket_add d s) = ctr c d + ctr c s"
  by (cases c) (simp_all add: bucket_add_def)

lemma ctr_delta: "ctr c (bucket_delta cur prev) = (if frt_counter c then 0 else ctr c cur - ctr c prev)"
  by (cases c) (simp_all add: bucket_delta_def frt_counter_def)

lemma bump_parts:
  "ctr c (bump_status s b) = ctr c b + ctr c (bump_status s zero_bucket)"
  "ctr c (bump_sums s b) = ctr c b + ctr c (bump_sums s zero_bucket)"
  "ctr c (bump_rt s b) = ctr c b"
  "ctr c (bump_frt s b) = ctr c b + ctr c (bump_frt s zero_bucket)"
  "ctr c (b\<lparr>Requests := Requests b + 1\<rparr>) = ctr c b + (if c = CRequests then 1 else 0)"
  by (cases c; simp add: bump_status_def bump_sums_def bump_rt_def bump_frt_def zero_bucket_def
      new_bucket_def split: option.split)+

lemma ctr_bump: "ctr c (bump s b) = ctr c b + inc s c"
  by (simp add: inc_def bump_def bump_parts (5) bump_parts (3)
      bump_parts(1) [of c s "x\<lparr>Requests := y\<rparr>" for x y]
      bump_parts(2) [of c s "bump_status t x" for t x]
      bump_parts(4) [of c s "bump_rt t x" for t x])

lemma inc_requests [simp]: "inc s CRequests = 1"
  by (simp add: inc_def bump_def bump_status_def bump_sums_def bump_rt_def bump_frt_def
      zero_bucket_def new_bucket_def split: option.split)

lemma RTMax_add [simp]: "RTMaxMs (bucket_add d s) = smax (RTMaxMs d) (RTMaxMs s)"
  by (simp add: bucket_add_def smax_def)

lemma FrtMax_add [simp]: "FrtMaxMs (bucket_add d s) = smax (FrtMaxMs d) (FrtMaxMs s)"
  by (simp add: bucket_add_def smax_def)

lemma RTMax_bump [simp]: "RTMaxMs (bump s b) = smax (RTMaxMs b) (s_rtMs s)"
  by (simp add: bump_def bump_status_def bump_sums_def bump_rt_def bump_frt_def smax_def
      split: option.split)

lemma RTMax_delta [simp]: "RTMaxMs (bucket_delta cur prev) = RTMaxMs cur"
  by (simp add: bucket_delta_def)

lemma id_add [simp]: "Minute (bucket_add d s) = Minute d" "Peer (bucket_add d s) = Peer d"
    "Stream (bucket_add d s) = Stream d"
  by (simp_all add: bucket_add_def)

lemma id_bump [simp]: "Minute (bump s b) = Minute b" "Peer (bump s b) = Peer b"
    "Stream (bump s b) = Stream b"
  by (simp_all add: bump_def bump_status_def bump_sums_def bump_rt_def bump_frt_def
      split: option.split)

lemma id_delta [simp]: "Minute (bucket_delta c l) = Minute c" "Peer (bucket_delta c l) = Peer c"
    "Stream (bucket_delta c l) = Stream c"
  by (simp_all add: bucket_delta_def)

lemma id_new [simp]: "Minute (new_bucket m p s) = m" "Peer (new_bucket m p s) = p"
    "Stream (new_bucket m p s) = s"
  by (simp_all add: new_bucket_def)

lemma bucket_key_simps [simp]:
  "bucket_key (bucket_add d s) = bucket_key d" "bucket_key (bump x b) = bucket_key b"
  "bucket_key (bucket_delta b l) = bucket_key b"
  by (simp_all add: bucket_key_def)

lemma bucket_key_new [simp]: "bucket_key (new_bucket m p s) = (m, bkey p s)"
  by (simp add: bucket_key_def)

lemma Requests_ctr: "Requests b = ctr CRequests b"
  by simp

text \<open>The separator cannot be confused with the peer's own bytes: a stream key holds no NUL,
  so the last NUL of the composite key is the separator, whatever the peer contains.\<close>

lemma bkey_inj:
  assumes "bkey p s = bkey p' s'" and "CHR 0x00 \<notin> set s" and "CHR 0x00 \<notin> set s'"
  shows "p = p' \<and> s = s'"
proof -
  have eq: "rev s @ CHR 0x00 # rev p = rev s' @ CHR 0x00 # rev p'"
    using arg_cong [OF assms(1), of rev] by (simp add: bkey_def)
  have tw: "takeWhile (\<lambda>c. c \<noteq> CHR 0x00) (rev t @ CHR 0x00 # q) = rev t"
    if "CHR 0x00 \<notin> set t" for t q :: string
    by (rule takeWhile_eq_prefix) (use that in auto)
  from arg_cong [OF eq, of "takeWhile (\<lambda>c. c \<noteq> CHR 0x00)"] have "s = s'"
    by (simp add: tw assms(2,3))
  with eq show ?thesis by simp
qed

lemma stream_keys_no_nul: "s \<in> stream_keys \<Longrightarrow> CHR 0x00 \<notin> set s"
  by (auto simp: stream_keys_def)

subsection \<open>Grouping buckets\<close>

text \<open>What every grouping fold of the listener computes: for each key, the sum of the buckets
  that have it, starting from the first one.\<close>

definition merged_from :: "(bucket \<Rightarrow> bucket) \<Rightarrow> (bucket \<Rightarrow> 'k) \<Rightarrow> bucket list \<Rightarrow> 'k \<Rightarrow> bucket option" where
  "merged_from init key bks k =
     (case filter (\<lambda>b. key b = k) bks of [] \<Rightarrow> None | b # bs \<Rightarrow> Some (foldl bucket_add (init b) bs))"

abbreviation merged :: "(bucket \<Rightarrow> 'k) \<Rightarrow> bucket list \<Rightarrow> 'k \<Rightarrow> bucket option" where
  "merged \<equiv> merged_from (\<lambda>b. b)"

lemma merged_Nil [simp]: "merged_from init key [] k = None"
  by (simp add: merged_from_def)

lemma merged_snoc:
  "merged_from init key (bks @ [b]) k =
     (if key b = k then Some (case merged_from init key bks k of None \<Rightarrow> init b | Some e \<Rightarrow> bucket_add e b)
      else merged_from init key bks k)"
  by (simp add: merged_from_def split: list.split)

lemma merged_None: "merged_from init key bks k = None \<longleftrightarrow> (\<forall>b \<in> set bks. key b \<noteq> k)"
proof -
  have "merged_from init key bks k = None \<longleftrightarrow> filter (\<lambda>b. key b = k) bks = []"
    by (simp add: merged_from_def split: list.split)
  then show ?thesis by (simp add: filter_empty_conv)
qed

lemma ctr_foldl_add: "ctr c (foldl bucket_add b bs) = ctr c b + sum_list (map (ctr c) bs)"
  by (induction bs arbitrary: b) (simp_all add: add.assoc)

lemma ctr_merged:
  "merged_from init key bks k = Some m \<Longrightarrow> (\<And>b. ctr c (init b) = ctr c b) \<Longrightarrow>
     ctr c m = sum_list (map (ctr c) (filter (\<lambda>b. key b = k) bks))"
  by (auto simp: merged_from_def ctr_foldl_add split: list.splits)

lemma RTMax_foldl_add: "sint (RTMaxMs (foldl bucket_add b bs)) = Max ((\<lambda>b. sint (RTMaxMs b)) ` set (b # bs))"
proof (induction bs arbitrary: b)
  case (Cons x xs)
  then show ?case by (cases xs) (simp_all add: max.assoc)
qed simp

lemma merged_grouped: "merged_from init key bks k = grouped init (\<lambda>b e. bucket_add e b) key bks k"
  by (simp add: merged_from_def grouped_def foldl_conv_fold split: list.split)

text \<open>
  The interface of the three groupings (reload, the peers of a summary, its breakdown): a keyed
  fold whose values are buckets and whose addition is \<open>bucket_add\<close>.
\<close>

locale grouping = keyed_fold key init "\<lambda>b e. bucket_add e b" ok start step get
  for key :: "bucket \<Rightarrow> 'k" and init :: "bucket \<Rightarrow> bucket" and ok :: "'s \<Rightarrow> bool" and start :: 's
    and step :: "bucket \<Rightarrow> 's \<Rightarrow> 's" and get :: "'s \<Rightarrow> 'k \<Rightarrow> bucket option"
begin

lemma group_get: "get (fold step bks start) k = merged_from init key bks k"
  by (simp add: grouped_get merged_grouped)

lemma group_none: "get (fold step bks start) k = None \<longleftrightarrow> (\<forall>b \<in> set bks. key b \<noteq> k)"
  by (simp add: group_get merged_None)

lemma group_sum:
  "(\<And>b. ctr c (init b) = ctr c b) \<Longrightarrow>
     (case get (fold step bks start) k of None \<Rightarrow> 0 | Some m \<Rightarrow> ctr c m) =
     sum_list (map (ctr c) (filter (\<lambda>b. key b = k) bks))"
  using merged_None [of init key bks k]
  by (cases "merged_from init key bks k") (simp_all add: group_get ctr_merged)

end

end
