(* ===== verification/Go_Time.thy ===== *)
theory Go_Time
  imports Go_Strings
begin

text \<open>
  The part of Go's package \<open>time\<close> the program uses: civil dates, the layout of the log
  timestamps (\<open>tsLayout\<close>), and date formatting.  An instant is a number of nanoseconds since
  1970-01-01T00:00:00Z with the offset of its zone in seconds; \<open>int\<close> suffices, because the
  years of the program's timestamps are far from the limits of \<open>time.Time\<close>.
\<close>

subsection \<open>Civil dates\<close>

definition isLeap :: "int \<Rightarrow> bool" where
  "isLeap y \<longleftrightarrow> y mod 4 = 0 \<and> (y mod 100 \<noteq> 0 \<or> y mod 400 = 0)"

definition monthLens :: "int \<Rightarrow> int list" where
  "monthLens y = [31, if isLeap y then 29 else 28, 31, 30, 31, 30, 31, 31, 30, 31, 30, 31]"

definition daysIn :: "int \<Rightarrow> int \<Rightarrow> int" where
  "daysIn m y = monthLens y ! nat (m - 1)"

text \<open>Days from 1970-01-01 to the first of January of a year: 719162 days separate it from
  0001-01-01.\<close>

definition daysToYear :: "int \<Rightarrow> int" where
  "daysToYear y = (let p = y - 1 in 365 * p + p div 4 - p div 100 + p div 400) - 719162"

definition days_of_civil :: "int \<Rightarrow> int \<Rightarrow> int \<Rightarrow> int" where
  "days_of_civil y m d = daysToYear y + sum_list (take (nat (m - 1)) (monthLens y)) + (d - 1)"

text \<open>The inverse: cut off 400-, 100-, 4- and 1-year cycles, then months.\<close>

definition year_of_days :: "int \<Rightarrow> int \<times> int" where
  "year_of_days n =
     (let a = n + 719162;
          n400 = a div 146097; a1 = a mod 146097;
          n100 = min 3 (a1 div 36524); a2 = a1 - n100 * 36524;
          n4 = a2 div 1461; a3 = a2 mod 1461;
          n1 = min 3 (a3 div 365); a4 = a3 - n1 * 365
      in (400 * n400 + 100 * n100 + 4 * n4 + n1 + 1, a4))"

fun month_of_yday :: "int list \<Rightarrow> int \<Rightarrow> int \<Rightarrow> int \<times> int" where
  "month_of_yday [] m d = (m, d + 1)"
| "month_of_yday (l # ls) m d = (if d < l then (m, d + 1) else month_of_yday ls (m + 1) (d - l))"

definition civil_of_days :: "int \<Rightarrow> int \<times> int \<times> int" where
  "civil_of_days n = (case year_of_days n of (y, yday) \<Rightarrow> (y, month_of_yday (monthLens y) 1 yday))"

lemma year_of_days_correct:
  assumes "year_of_days n = (y, yday)"
  shows "n = daysToYear y + yday" and "0 \<le> yday" and "yday < 365 + (if isLeap y then 1 else 0)"
proof -
  define a where "a = n + 719162"
  define n400 where "n400 = a div 146097"
  define a1 where "a1 = a mod 146097"
  define n100 where "n100 = min 3 (a1 div 36524)"
  define a2 where "a2 = a1 - n100 * 36524"
  define n4 where "n4 = a2 div 1461"
  define a3 where "a3 = a2 mod 1461"
  define n1 where "n1 = min 3 (a3 div 365)"
  note defs = a_def n400_def a1_def n100_def a2_def n4_def a3_def n1_def
  have "year_of_days n = (400 * n400 + 100 * n100 + 4 * n4 + n1 + 1, a3 - n1 * 365)"
    unfolding year_of_days_def Let_def defs by (rule refl)
  then have y: "y = 400 * n400 + 100 * n100 + 4 * n4 + n1 + 1" "yday = a3 - n1 * 365"
    using assms by simp_all
  have 1: "a = 146097 * n400 + a1" "0 \<le> a1" "a1 < 146097" unfolding n400_def a1_def by auto
  have 2: "0 \<le> n100" "n100 \<le> 3" "0 \<le> a2" "a2 < 36525" "n100 < 3 \<Longrightarrow> a2 < 36524"
    using 1(2,3) unfolding n100_def a2_def by (auto simp: min_def)
  have 3: "a2 = 1461 * n4 + a3" "0 \<le> a3" "a3 < 1461" "0 \<le> n4" "n4 \<le> 24"
    using 2(3,4) unfolding n4_def a3_def by auto
  have 4: "0 \<le> n1" "n1 \<le> 3" "0 \<le> a3 - n1 * 365" "a3 - n1 * 365 < 366" "n1 < 3 \<Longrightarrow> a3 - n1 * 365 < 365"
    using 3(2,3) unfolding n1_def by (auto simp: min_def)
  have p: "y - 1 = 400 * n400 + 100 * n100 + 4 * n4 + n1" using y by simp
  have q4: "(y - 1) div 4 = 100 * n400 + 25 * n100 + n4" by (rule int_div_pos_eq [where r = n1]) (use p 4 in auto)
  have q100: "(y - 1) div 100 = 4 * n400 + n100" by (rule int_div_pos_eq [where r = "4 * n4 + n1"]) (use p 3(4,5) 4(1,2) in auto)
  have q400: "(y - 1) div 400 = n400" by (rule int_div_pos_eq [where r = "100 * n100 + 4 * n4 + n1"]) (use p 2(1,2) 3(4,5) 4(1,2) in auto)
  have "a2 = a1 - n100 * 36524" by (simp add: a2_def)
  then show "n = daysToYear y + yday"
    unfolding daysToYear_def Let_def q4 q100 q400 y(2) using 1(1) 3(1) a_def p by simp
  show "0 \<le> yday" using 4(3) y(2) by simp
  have leap: "isLeap y" if "n1 = 3" "n100 = 3 \<or> n4 < 24"
  proof -
    have "y = 4 * (100 * n400 + 25 * n100 + n4 + 1)" using y(1) that(1) by simp
    then have m4: "y mod 4 = 0" by simp
    have "y mod 100 \<noteq> 0 \<or> y mod 400 = 0"
    proof (cases "n4 = 24")
      case True
      then have "y = 400 * (n400 + 1)" using that y(1) by simp
      then show ?thesis by simp
    next
      case False
      have "y = 100 * (4 * n400 + n100) + (4 * n4 + 4)" using y(1) that(1) by simp
      moreover have "0 \<le> 4 * n4 + 4" "4 * n4 + 4 < 100" using False 3(4,5) by auto
      ultimately have "y mod 100 = 4 * n4 + 4" by (rule int_mod_pos_eq)
      then show ?thesis using 3(4) by simp
    qed
    with m4 show ?thesis by (simp add: isLeap_def)
  qed
  show "yday < 365 + (if isLeap y then 1 else 0)"
  proof (cases "a3 - n1 * 365 = 365")
    case True
    then have n1: "n1 = 3" using 4 by fastforce
    have "n100 = 3 \<or> n4 < 24"
    proof (rule ccontr)
      assume "\<not> ?thesis"
      then have "n100 < 3" "n4 = 24" using 2(2) 3(5) by auto
      then show False using 2(5) 3(1) True n1 by simp
    qed
    then show ?thesis using leap [OF n1] 4(4) y(2) by simp
  qed (use 4(4) y(2) in auto)
qed

lemma month_of_yday_correct:
  assumes "0 \<le> d" and "d < sum_list ls" and "month_of_yday ls m d = (m', d')"
  shows "\<exists>i < length ls. m' = m + int i \<and> 1 \<le> d' \<and> d' \<le> ls ! i \<and> d = sum_list (take i ls) + (d' - 1)"
  using assms
proof (induction ls m d rule: month_of_yday.induct)
  case (2 l ls m d)
  show ?case
  proof (cases "d < l")
    case True
    then show ?thesis using 2 by (intro exI [of _ 0]) auto
  next
    case False
    with 2 obtain i where "i < length ls" "m' = m + 1 + int i" "1 \<le> d'" "d' \<le> ls ! i"
      "d - l = sum_list (take i ls) + (d' - 1)" by auto
    then show ?thesis by (intro exI [of _ "Suc i"]) auto
  qed
qed simp

text \<open>A civil date computed from a day number is a valid one and denotes that day.\<close>

lemma civil_of_days_correct:
  assumes "civil_of_days n = (y, m, d)"
  shows "days_of_civil y m d = n" and "1 \<le> m" and "m \<le> 12" and "1 \<le> d" and "d \<le> daysIn m y" and "d \<le> 31"
proof -
  obtain yday where y: "year_of_days n = (y, yday)" and md: "month_of_yday (monthLens y) 1 yday = (m, d)"
    using assms by (auto simp: civil_of_days_def split: prod.splits)
  note c = year_of_days_correct [OF y]
  have "yday < sum_list (monthLens y)" using c(3) by (simp add: monthLens_def split: if_splits)
  from month_of_yday_correct [OF c(2) this md] obtain i where i: "i < 12" "m = 1 + int i" "1 \<le> d"
    "d \<le> monthLens y ! i" "yday = sum_list (take i (monthLens y)) + (d - 1)"
    by (auto simp: monthLens_def)
  then show "days_of_civil y m d = n" "1 \<le> m" "m \<le> 12" "1 \<le> d" "d \<le> daysIn m y"
    using c(1) by (auto simp: days_of_civil_def daysIn_def)
  have "monthLens y ! i \<in> set (monthLens y)" using i(1) by (intro nth_mem) (simp add: monthLens_def)
  then show "d \<le> 31" using i(4) by (auto simp: monthLens_def split: if_splits)
qed

subsection \<open>Instants, tsLayout\<close>

text \<open>\<open>ns\<close> is the instant, \<open>zone\<close> the offset of its location in seconds.\<close>

record gotime =
  ns :: int
  zone :: int

definition unixSec :: "gotime \<Rightarrow> int" where
  "unixSec t = ns t div 1000000000"

definition addDur :: "gotime \<Rightarrow> int \<Rightarrow> gotime" where
  "addDur t d = t\<lparr>ns := ns t + d\<rparr>"

text \<open>Digits of the formats: \<open>appendInt(x, width)\<close>.\<close>

definition appendInt :: "int \<Rightarrow> nat \<Rightarrow> string" where
  "appendInt x w = (if x < 0 then CHR ''-'' # padNat w (nat (- x)) else padNat w (nat x))"

definition formatDay :: "int \<Rightarrow> string" where
  "formatDay days = (case civil_of_days days of (y, m, d) \<Rightarrow>
     appendInt y 4 @ ''-'' @ padNat 2 (nat m) @ ''-'' @ padNat 2 (nat d))"

text \<open>\<open>t.Format("2006-01-02")\<close> and \<open>t.Format(tsLayout)\<close>, tsLayout being
  \<open>2006-01-02T15:04:05.000-07:00\<close>.\<close>

definition formatDate :: "gotime \<Rightarrow> string" where
  "formatDate t = formatDay ((unixSec t + zone t) div 86400)"

definition formatTs :: "gotime \<Rightarrow> string" where
  "formatTs t =
     (let s = unixSec t + zone t; sod = s mod 86400; az = nat \<bar>zone t\<bar> div 60 in
      formatDay (s div 86400) @ ''T'' @ padNat 2 (nat (sod div 3600)) @ '':'' @
      padNat 2 (nat (sod mod 3600 div 60)) @ '':'' @ padNat 2 (nat (sod mod 60)) @ ''.'' @
      padNat 3 (nat (ns t mod 1000000000 div 1000000)) @
      (if zone t \<le> - 60 then ''-'' else ''+'') @ padNat 2 (az div 60) @ '':'' @ padNat 2 (az mod 60))"

text \<open>The pieces of \<open>time.Parse\<close> for this layout, each consuming a prefix: \<open>atoi\<close> of a fixed
  number of bytes, \<open>getnum\<close>, a literal.\<close>

definition getnum :: "bool \<Rightarrow> string \<Rightarrow> (int \<times> string) option" where
  "getnum fixed s = (case s of
      a # b # r \<Rightarrow> if \<not> is_digit a then None
        else if \<not> is_digit b then (if fixed then None else Some (int (digit_val a), b # r))
        else Some (int (10 * digit_val a + digit_val b), r)
    | [a] \<Rightarrow> if is_digit a \<and> \<not> fixed then Some (int (digit_val a), []) else None
    | [] \<Rightarrow> None)"

definition getyear :: "string \<Rightarrow> (int \<times> string) option" where
  "getyear s = (if length s < 4 \<or> \<not> list_all is_digit (take 4 s) then None
     else Some (int (nat_of_digits (take 4 s)), drop 4 s))"

text \<open>\<open>.000\<close>: a period or comma and three bytes read by an \<open>atoi\<close> that admits a sign; a
  negative number is out of range.\<close>

definition getmillis :: "string \<Rightarrow> (int \<times> string) option" where
  "getmillis s = (if length s < 4 \<or> hd s \<notin> {CHR ''.'', CHR '',''} then None
     else case parseInt (take 3 (tl s)) of
            (v, None) \<Rightarrow> if v < 0 then None else Some (v, drop 4 s)
          | (v, Some e) \<Rightarrow> None)"

definition getzone :: "string \<Rightarrow> (int \<times> string) option" where
  "getzone s = (if length s < 6 \<or> s ! 3 \<noteq> CHR '':'' then None
     else case (getnum True (take 2 (tl s)), getnum True (take 2 (drop 4 s))) of
        (Some (h, _), Some (m, _)) \<Rightarrow>
          if h > 24 \<or> m > 60 then None
          else if s ! 0 = CHR ''+'' then Some ((h * 60 + m) * 60, drop 6 s)
          else if s ! 0 = CHR ''-'' then Some (- ((h * 60 + m) * 60), drop 6 s)
          else None
      | _ \<Rightarrow> None)"

definition lit :: "char \<Rightarrow> string \<Rightarrow> string option" where
  "lit c s = (case s of x # r \<Rightarrow> if x = c then Some r else None | [] \<Rightarrow> None)"

text \<open>\<open>time.Parse(tsLayout, s)\<close>.\<close>

definition parseTs :: "string \<Rightarrow> gotime option" where
  "parseTs s =
     Option.bind (getyear s) (\<lambda>(y, s). Option.bind (lit CHR ''-'' s) (\<lambda>s.
     Option.bind (getnum True s) (\<lambda>(mo, s). if mo < 1 \<or> mo > 12 then None else
     Option.bind (lit CHR ''-'' s) (\<lambda>s. Option.bind (getnum True s) (\<lambda>(d, s).
     Option.bind (lit CHR ''T'' s) (\<lambda>s. Option.bind (getnum False s) (\<lambda>(h, s). if h \<ge> 24 then None else
     Option.bind (lit CHR '':'' s) (\<lambda>s. Option.bind (getnum True s) (\<lambda>(mi, s). if mi \<ge> 60 then None else
     Option.bind (lit CHR '':'' s) (\<lambda>s. Option.bind (getnum True s) (\<lambda>(se, s). if se \<ge> 60 then None else
     Option.bind (getmillis s) (\<lambda>(ms, s). Option.bind (getzone s) (\<lambda>(z, s).
       if s \<noteq> [] \<or> d < 1 \<or> d > daysIn mo y then None
       else Some \<lparr>ns = ((days_of_civil y mo d * 86400 + h * 3600 + mi * 60 + se - z) * 1000 + ms) * 1000000,
                  zone = z\<rparr>)))))))))))))"

subsection \<open>Round trip\<close>

lemma digit_char_simps [simp]:
  "d < 10 \<Longrightarrow> is_digit (digit_char d)" "d < 10 \<Longrightarrow> digit_val (digit_char d) = d"
  by (simp_all add: is_digit_def digit_val_def digit_char_def)

lemma zero_char: "CHR ''0'' = digit_char 0"
  by (simp add: digit_char_def char_of_def bit_0)

text \<open>The digits of a number, fixed width.\<close>

fun digits :: "nat \<Rightarrow> nat \<Rightarrow> string" where
  "digits 0 n = []"
| "digits (Suc w) n = digits w (n div 10) @ [digit_char (n mod 10)]"

lemma digits_zero: "digits w 0 = replicate w CHR ''0''"
  by (induction w) (simp_all add: zero_char replicate_append_same)

lemma length_digits [simp]: "length (digits w n) = w"
  by (induction w arbitrary: n) simp_all

lemma digits_digits [simp]: "list_all is_digit (digits w n)"
  by (induction w arbitrary: n) simp_all

lemma nat_of_digits_snoc [simp]: "nat_of_digits (s @ [c]) = 10 * nat_of_digits s + digit_val c"
  by (simp add: nat_of_digits_def)

lemma nat_of_digits_digits [simp]: "n < 10 ^ w \<Longrightarrow> nat_of_digits (digits w n) = n"
proof (induction w arbitrary: n)
  case (Suc w)
  have "n div 10 < 10 ^ w" using Suc.prems by (simp add: div_less_iff_less_mult mult.commute)
  with Suc.IH show ?case by simp
qed (simp add: nat_of_digits_def)

lemma padNat_digits: "0 < w \<Longrightarrow> n < 10 ^ w \<Longrightarrow> padNat w n = digits w n"
proof (induction w arbitrary: n)
  case (Suc w)
  show ?case
  proof (cases "n < 10")
    case True
    then show ?thesis by (simp add: padNat_def formatNat.simps [of n] digits_zero)
  next
    case False
    have lt: "n div 10 < 10 ^ w" using Suc.prems by (simp add: div_less_iff_less_mult mult.commute)
    with False have "0 < w" by (cases w) auto
    with lt have "padNat w (n div 10) = digits w (n div 10)" by (rule Suc.IH [rotated])
    then show ?thesis using False by (simp add: padNat_def formatNat.simps [of n] Let_def)
  qed
qed simp

lemma digits2: "digits 2 n = [digit_char (n div 10 mod 10), digit_char (n mod 10)]"
  by (simp add: numeral_2_eq_2)

lemma getnum_digits [simp]: "n < 100 \<Longrightarrow> getnum fixed (digits 2 n @ s) = Some (int n, s)"
  using nat_of_digits_digits [of n 2] by (simp add: digits2 getnum_def nat_of_digits_def)

lemma getnum_digits' [simp]: "n < 100 \<Longrightarrow> getnum fixed (digits 2 n) = Some (int n, [])"
  using getnum_digits [of n fixed "[]"] by simp

lemma getyear_digits [simp]: "n < 10000 \<Longrightarrow> getyear (digits 4 n @ s) = Some (int n, s)"
  by (simp add: getyear_def)

lemma not_sign: "is_digit c \<Longrightarrow> c \<noteq> CHR ''-'' \<and> c \<noteq> CHR ''+''"
  by (auto simp: is_digit_def)

lemma parseInt_digits: "0 < w \<Longrightarrow> n < 10 ^ w \<Longrightarrow> n < 2 ^ 63 \<Longrightarrow> parseInt (digits w n) = (int n, None)"
proof -
  assume w: "0 < w" "n < 10 ^ w" "n < 2 ^ 63"
  obtain c cs where c: "digits w n = c # cs" using length_digits [of w n] w(1) by (cases "digits w n") auto
  have "is_digit c" "list_all is_digit cs" using digits_digits [of w n] by (simp_all add: c)
  moreover have "nat_of_digits (c # cs) = n" using w(2) nat_of_digits_digits [of n w] by (simp add: c)
  moreover have "int n < 2 ^ 63" using w(3) by (metis of_nat_less_iff of_nat_numeral of_nat_power)
  ultimately show ?thesis using not_sign [of c] by (simp add: parseInt_def c Let_def)
qed

lemma getmillis_digits [simp]: "n < 1000 \<Longrightarrow> getmillis (CHR ''.'' # digits 3 n @ s) = Some (int n, s)"
  using parseInt_digits [of 3 n] by (simp add: getmillis_def)

lemma getzone_digits:
  assumes "h \<le> 24" "m \<le> 60" "sg = CHR ''+'' \<or> sg = CHR ''-''"
  shows "getzone (sg # digits 2 h @ CHR '':'' # digits 2 m) =
    Some (if sg = CHR ''+'' then (int h * 60 + int m) * 60 else - ((int h * 60 + int m) * 60), [])"
proof -
  obtain a b where a: "digits 2 h = [a, b]" using digits2 by blast
  have "getnum True [a, b] = Some (int h, [])" using getnum_digits' [of h True] assms(1) by (simp add: a)
  moreover have "getnum True (digits 2 m) = Some (int m, [])" using assms(2) by simp
  ultimately show ?thesis
    using assms by (auto simp: getzone_def a nth_append numeral_3_eq_3)
qed

lemma lit_simp [simp]: "lit c (c # s) = Some s"
  by (simp add: lit_def)

text \<open>A second of the day and an offset, as the formats write them.\<close>

lemma clock_split: "(S :: int) = S div 86400 * 86400 + S mod 86400 div 3600 * 3600 + S mod 86400 mod 3600 div 60 * 60 + S mod 86400 mod 60"
proof -
  have "S mod 86400 mod 3600 = S mod 86400 mod 3600 div 60 * 60 + S mod 86400 mod 3600 mod 60" by simp
  moreover have "S mod 86400 mod 3600 mod 60 = S mod 86400 mod 60" by (simp add: mod_mod_cancel)
  moreover have "S mod 86400 = S mod 86400 div 3600 * 3600 + S mod 86400 mod 3600" by simp
  moreover have "S = S div 86400 * 86400 + S mod 86400" by simp
  ultimately show ?thesis by linarith
qed

lemma zone_minutes:
  assumes "z mod 60 = (0 :: int)"
  shows "int (nat \<bar>z\<bar> div 60) * 60 = \<bar>z\<bar>"
proof -
  obtain k where "z = 60 * k" using assms by (auto simp: mod_eq_0_iff_dvd elim: dvdE)
  then have "nat \<bar>z\<bar> mod 60 = 0" by (simp add: nat_abs_mult_distrib)
  then have "nat \<bar>z\<bar> div 60 * 60 = nat \<bar>z\<bar>" by (simp add: mod_eq_0_iff_dvd)
  then show ?thesis by linarith
qed

lemma zone_hours: "z mod 60 = (0 :: int) \<Longrightarrow> \<bar>z\<bar> < 25 * 3600 \<Longrightarrow> nat \<bar>z\<bar> div 60 div 60 \<le> 24"
  using zone_minutes [of z] by linarith

lemma getzone_zone:
  assumes "z mod 60 = 0" "\<bar>z\<bar> < 25 * 3600"
  shows "getzone ((if z \<le> - 60 then CHR ''-'' else CHR ''+'') # digits 2 (nat \<bar>z\<bar> div 60 div 60) @ CHR '':'' # digits 2 (nat \<bar>z\<bar> div 60 mod 60)) = Some (z, [])"
proof -
  let ?az = "nat \<bar>z\<bar> div 60"
  have "int (?az div 60) * 60 + int (?az mod 60) = int ?az"
    by (metis div_mod_decomp of_nat_add of_nat_mult of_nat_numeral)
  then show ?thesis
    using getzone_digits [OF zone_hours [OF assms], of "?az mod 60" "if z \<le> - 60 then CHR ''-'' else CHR ''+''"]
      zone_minutes [OF assms(1)] assms(1) by (auto split: if_splits)
qed

lemma parse_formatTs:
  assumes "0 \<le> fst (civil_of_days ((unixSec t + zone t) div 86400))"
    "fst (civil_of_days ((unixSec t + zone t) div 86400)) < 10000"
    and z: "zone t mod 60 = 0" "\<bar>zone t\<bar> < 25 * 3600"
  shows "parseTs (formatTs t) = Some (t\<lparr>ns := ns t - ns t mod 1000000\<rparr>)"
proof -
  define S where "S = unixSec t + zone t"
  obtain y mo d where c: "civil_of_days (S div 86400) = (y, mo, d)" by (rule prod_cases3)
  note cd = civil_of_days_correct [OF c]
  define ms where "ms = ns t mod 1000000000 div 1000000"
  define h where "h = S mod 86400 div 3600"
  define mi where "mi = S mod 86400 mod 3600 div 60"
  define se where "se = S mod 86400 mod 60"
  have y: "0 \<le> y" "y < 10000" using assms(1,2) by (simp_all add: c flip: S_def)
  have h: "0 \<le> h" "h < 24" and mi: "0 \<le> mi" "mi < 60" and se: "0 \<le> se" "se < 60"
    unfolding h_def mi_def se_def by auto
  have ms: "0 \<le> ms" "ms < 1000" unfolding ms_def by auto
  have sod: "S = S div 86400 * 86400 + h * 3600 + mi * 60 + se" unfolding h_def mi_def se_def by (rule clock_split)
  define az where "az = nat \<bar>zone t\<bar> div 60"
  define sg where "sg = (if zone t \<le> - 60 then CHR ''-'' else CHR ''+'')"
  have az24: "az div 60 \<le> 24" using zone_hours [OF z] by (simp add: az_def)
  have fmt: "formatTs t = digits 4 (nat y) @ CHR ''-'' # digits 2 (nat mo) @ CHR ''-'' # digits 2 (nat d) @
      CHR ''T'' # digits 2 (nat h) @ CHR '':'' # digits 2 (nat mi) @ CHR '':'' # digits 2 (nat se) @
      CHR ''.'' # digits 3 (nat ms) @ sg # digits 2 (az div 60) @ CHR '':'' # digits 2 (az mod 60)"
    using y cd(2-6) h mi se ms az24
    by (simp add: formatTs_def formatDay_def c Let_def appendInt_def padNat_digits sg_def
        nat_less_iff flip: S_def h_def mi_def se_def ms_def az_def)
  have ns: "((days_of_civil y mo d * 86400 + h * 3600 + mi * 60 + se - zone t) * 1000 + ms) * 1000000 = ns t - ns t mod 1000000"
  proof -
    have "days_of_civil y mo d * 86400 + h * 3600 + mi * 60 + se - zone t = ns t div 1000000000"
      using sod cd(1) by (simp add: S_def unixSec_def)
    moreover have "ns t - ns t mod 1000000 = (ns t div 1000000) * 1000000" by (simp add: minus_mod_eq_div_mult)
    moreover have "ns t div 1000000 = ns t div 1000000000 * 1000 + ms"
    proof -
      have "ns t = (ns t div 1000000000 * 1000) * 1000000 + ns t mod 1000000000" by simp
      then have "ns t div 1000000 = ((ns t div 1000000000 * 1000) * 1000000 + ns t mod 1000000000) div 1000000" by simp
      also have "\<dots> = ns t div 1000000000 * 1000 + ms" unfolding ms_def by (rule div_mult_self3) simp
      finally show ?thesis .
    qed
    ultimately show ?thesis by simp
  qed
  have zp: "getzone (sg # digits 2 (az div 60) @ CHR '':'' # digits 2 (az mod 60)) = Some (zone t, [])"
    unfolding az_def sg_def by (rule getzone_zone [OF z])
  show ?thesis
    unfolding fmt parseTs_def
    using y cd(2-6) h mi se ms by (simp add: nat_less_iff zp) (use ns in \<open>cases t; simp add: algebra_simps\<close>)
qed

end
