(* ===== verification/Go_Encoding.thy ===== *)
theory Go_Encoding
  imports Go_Strings
begin

text \<open>
  Encodings of Go's standard library the program uses on bytes and numbers: big-endian
  integers (\<open>encoding/binary\<close>), base64 (\<open>encoding/base64\<close>: \<open>StdEncoding\<close> for bodies that are
  not UTF-8, \<open>RawURLEncoding\<close> for the page cursor), UTF-8 validity (\<open>unicode/utf8\<close>) and
  \<open>float64\<close> values with their conversions to \<open>int64\<close>.
\<close>

abbreviation byte :: "char \<Rightarrow> nat" where
  "byte c \<equiv> of_char c"

lemma byte_lt: "byte c < 256"
  by (rule nat_of_char_less_256)

lemma char_of_byte [simp]: "char_of (byte c) = c"
  by simp

subsection \<open>Big-endian unsigned integers\<close>

definition be_uint :: "bytes \<Rightarrow> nat" where
  "be_uint b = foldl (\<lambda>n c. 256 * n + byte c) 0 b"

fun be_put :: "nat \<Rightarrow> nat \<Rightarrow> bytes" where
  "be_put 0 v = []"
| "be_put (Suc n) v = be_put n (v div 256) @ [char_of (v mod 256)]"

lemma be_uint_snoc: "be_uint (xs @ [c]) = 256 * be_uint xs + byte c"
  by (simp add: be_uint_def)

lemma length_be_put [simp]: "length (be_put n v) = n"
  by (induction n arbitrary: v) auto

lemma be_put_eq_Nil [simp]: "be_put n v = [] \<longleftrightarrow> n = 0"
  by (metis length_be_put length_0_conv)

lemma be_uint_put: "v < 256 ^ n \<Longrightarrow> be_uint (be_put n v) = v"
proof (induction n arbitrary: v)
  case (Suc n)
  then have "v div 256 < 256 ^ n" by (simp add: less_mult_imp_div_less mult.commute)
  with Suc show ?case by (simp add: be_uint_snoc of_char_of)
qed (simp add: be_uint_def)

lemma be_uint_bound: "be_uint b < 256 ^ length b"
proof (induction b rule: rev_induct)
  case (snoc c b)
  have "256 * be_uint b + byte c < 256 * (be_uint b + 1)" by simp
  also have "\<dots> \<le> 256 * 256 ^ length b" using snoc by (intro mult_left_mono) auto
  finally show ?case by (simp add: be_uint_snoc)
qed (simp add: be_uint_def)

subsection \<open>Base64\<close>

definition std_digit :: "nat \<Rightarrow> char" where
  "std_digit k = (if k < 26 then char_of (65 + k) else if k < 52 then char_of (71 + k)
     else if k < 62 then char_of (k - 4) else if k = 62 then CHR ''+'' else CHR ''/'')"

definition url_digit :: "nat \<Rightarrow> char" where
  "url_digit k = (if k < 26 then char_of (65 + k) else if k < 52 then char_of (71 + k)
     else if k < 62 then char_of (k - 4) else if k = 62 then CHR ''-'' else CHR ''_'')"

definition url_value :: "char \<Rightarrow> nat option" where
  "url_value c = (let b = byte c in
     if 65 \<le> b \<and> b \<le> 90 then Some (b - 65)
     else if 97 \<le> b \<and> b \<le> 122 then Some (b - 71)
     else if 48 \<le> b \<and> b \<le> 57 then Some (b + 4)
     else if b = 45 then Some 62 else if b = 95 then Some 63 else None)"

text \<open>\<open>EncodeToString\<close>: \<open>d\<close> is the alphabet, \<open>pad\<close> the padding after a short last group.\<close>

fun b64encode :: "(nat \<Rightarrow> char) \<Rightarrow> string \<Rightarrow> bytes \<Rightarrow> string" where
  "b64encode d pad [] = []"
| "b64encode d pad [a] = [d (byte a div 4), d (byte a mod 4 * 16)] @ pad @ pad"
| "b64encode d pad [a, b] =
     [d (byte a div 4), d (byte a mod 4 * 16 + byte b div 16), d (byte b mod 16 * 4)] @ pad"
| "b64encode d pad (a # b # c # r) =
     [d (byte a div 4), d (byte a mod 4 * 16 + byte b div 16),
      d (byte b mod 16 * 4 + byte c div 64), d (byte c mod 64)] @ b64encode d pad r"

definition stdEncode :: "bytes \<Rightarrow> string" where
  "stdEncode = b64encode std_digit [CHR ''='']"

definition rawURLEncode :: "bytes \<Rightarrow> string" where
  "rawURLEncode = b64encode url_digit []"

text \<open>
  \<open>RawURLEncoding.DecodeString\<close>: carriage returns and newlines are skipped wherever they
  stand, any other character outside the alphabet (padding included) is an error, and so is
  a last group of one digit.  The encoding is not \<open>Strict\<close>, so the unused bits of a short
  last group are ignored.
\<close>

fun those_values :: "string \<Rightarrow> nat list option" where
  "those_values [] = Some []"
| "those_values (c # cs) =
     (if c = CHR 0x0A \<or> c = CHR 0x0D then those_values cs
      else case url_value c of None \<Rightarrow> None
           | Some v \<Rightarrow> (case those_values cs of None \<Rightarrow> None | Some vs \<Rightarrow> Some (v # vs)))"

fun quanta :: "nat list \<Rightarrow> bytes option" where
  "quanta [] = Some []"
| "quanta [w] = None"
| "quanta [w, x] = Some [char_of (w * 4 + x div 16)]"
| "quanta [w, x, y] = Some [char_of (w * 4 + x div 16), char_of (x mod 16 * 16 + y div 4)]"
| "quanta (w # x # y # z # r) =
     (case quanta r of None \<Rightarrow> None
      | Some t \<Rightarrow> Some (char_of (w * 4 + x div 16) # char_of (x mod 16 * 16 + y div 4)
                         # char_of (y mod 4 * 64 + z) # t))"

definition rawURLDecode :: "string \<Rightarrow> bytes option" where
  "rawURLDecode s = (case those_values s of None \<Rightarrow> None | Some vs \<Rightarrow> quanta vs)"

lemma url_value_digit: "k < 64 \<Longrightarrow> url_value (url_digit k) = Some k"
  by (auto simp: url_digit_def url_value_def of_char_of Let_def)

lemma url_digit_not_newline: "k < 64 \<Longrightarrow> url_digit k \<noteq> CHR 0x0A \<and> url_digit k \<noteq> CHR 0x0D"
  using url_value_digit [of k] by (auto simp: url_value_def Let_def split: if_splits)

declare those_values.simps(2) [simp del]

lemma those_values_digit:
  "k < 64 \<Longrightarrow> those_values (url_digit k # s) =
     (case those_values s of None \<Rightarrow> None | Some vs \<Rightarrow> Some (k # vs))"
  using url_digit_not_newline [of k] by (simp add: url_value_digit those_values.simps(2))

text \<open>The four six-bit digits of three bytes, and the three bytes read back from them.\<close>

lemma sextet_bounds:
  fixes a b c :: nat
  shows "a < 256 \<Longrightarrow> a div 4 < 64" and "a mod 4 * 16 < 64"
    and "b < 256 \<Longrightarrow> a mod 4 * 16 + b div 16 < 64"
    and "b mod 16 * 4 < 64" and "c < 256 \<Longrightarrow> b mod 16 * 4 + c div 64 < 64" and "c mod 64 < 64"
proof -
  have q: "b div 16 < 16" if "b < 256" for b :: nat using that by (simp add: less_mult_imp_div_less)
  have r: "c div 64 < 4" if "c < 256" for c :: nat using that by (simp add: less_mult_imp_div_less)
  have m: "a mod 4 < 4" "b mod 16 < 16" by simp_all
  show "a < 256 \<Longrightarrow> a div 4 < 64" and "c mod 64 < 64" by (simp_all add: less_mult_imp_div_less)
  show "a mod 4 * 16 < 64" and "b mod 16 * 4 < 64" using m by linarith+
  show "b < 256 \<Longrightarrow> a mod 4 * 16 + b div 16 < 64" using m q [of b] by linarith
  show "c < 256 \<Longrightarrow> b mod 16 * 4 + c div 64 < 64" using m r [of c] by linarith
qed

lemma sextet_bytes:
  fixes b c :: nat
  shows "b < 256 \<Longrightarrow> b div 16 div 16 = 0" and "b < 256 \<Longrightarrow> b div 16 mod 16 = b div 16"
    and "c < 256 \<Longrightarrow> c div 64 div 4 = 0" and "c < 256 \<Longrightarrow> c div 64 mod 4 = c div 64"
  by (simp_all add: less_mult_imp_div_less)

lemma rawURL_quanta:
  "\<exists>vs. those_values (b64encode url_digit [] b) = Some vs \<and> quanta vs = Some b"
  by (induction "url_digit" "[] :: string" b rule: b64encode.induct)
    (auto simp: those_values_digit sextet_bounds sextet_bytes)

lemma rawURL_roundtrip: "rawURLDecode (rawURLEncode b) = Some b"
  using rawURL_quanta [of b] by (auto simp: rawURLDecode_def rawURLEncode_def)

subsection \<open>UTF-8 validity\<close>

definition cont_byte :: "nat \<Rightarrow> bool" where
  "cont_byte b \<longleftrightarrow> 128 \<le> b \<and> b \<le> 191"

text \<open>\<open>utf8.Valid\<close>: no surrogates, no overlong forms, nothing above U+10FFFF.\<close>

fun utf8_valid :: "nat list \<Rightarrow> bool" where
  "utf8_valid [] = True"
| "utf8_valid (a # r) =
     (if a < 128 then utf8_valid r
      else if 194 \<le> a \<and> a \<le> 223 then
        (case r of b # r1 \<Rightarrow> cont_byte b \<and> utf8_valid r1 | _ \<Rightarrow> False)
      else if 224 \<le> a \<and> a \<le> 239 then
        (case r of b # c # r1 \<Rightarrow>
           (if a = 224 then 160 \<le> b \<and> b \<le> 191 else if a = 237 then 128 \<le> b \<and> b \<le> 159 else cont_byte b)
           \<and> cont_byte c \<and> utf8_valid r1
         | _ \<Rightarrow> False)
      else if 240 \<le> a \<and> a \<le> 244 then
        (case r of b # c # d # r1 \<Rightarrow>
           (if a = 240 then 144 \<le> b \<and> b \<le> 191 else if a = 244 then 128 \<le> b \<and> b \<le> 143 else cont_byte b)
           \<and> cont_byte c \<and> cont_byte d \<and> utf8_valid r1
         | _ \<Rightarrow> False)
      else False)"

definition utf8Valid :: "bytes \<Rightarrow> bool" where
  "utf8Valid s = utf8_valid (map byte s)"

end
