(* ===== verification/Values.thy ===== *)
theory Values
  imports Bucket Go_Float Go_Time Go_Encoding
begin

text \<open>
  Decoded log entries (\<open>map[string]any\<close>) and what the listener reads from one:
  \<open>entryEndTime\<close>, \<open>parseEntryMinute\<close>, \<open>normalizePeer\<close>, \<open>extractUsage\<close>, \<open>extractStream\<close>, the
  cached variants, the sample \<open>ingest\<close> takes and the \<open>detailRecord\<close> of \<open>extractDetail\<close>
  (\<open>bodylog-listener-go/main.go\<close>).
\<close>

record usageTokens =
  ut_prompt :: int64
  ut_cached :: int64
  ut_compl :: int64
  ut_total :: int64
  ut_reasoning :: int64

text \<open>The dynamic types an \<open>any\<close> of the program can have: those of \<open>encoding/json\<close>, the
  integers of the DuckDB driver and of literals, and the two types \<open>processFrame\<close> stores under
  \<open>__stream\<close> and \<open>__usage\<close>.  \<open>json.Number\<close> is never produced, since no decoder calls
  \<open>UseNumber\<close>.\<close>

datatype gval = VNil | VBool bool | VNum float64 | VInt int64 | VStr string
  | VArr "gval list" | VObj "(string \<times> gval) list" | VBoolPtr "bool option" | VUsage usageTokens

type_synonym obj = "(string \<times> gval) list"

text \<open>\<open>m[k]\<close>: the nil interface when the key is missing.\<close>

definition field :: "obj \<Rightarrow> string \<Rightarrow> gval" where
  "field m k = (case map_of m k of Some v \<Rightarrow> v | None \<Rightarrow> VNil)"

lemma field_put [simp]: "field (put k v m) k' = (if k' = k then v else field m k')"
  by (simp add: field_def)

lemma field_Nil [simp]: "field [] k = VNil"
  by (simp add: field_def)

lemma field_Cons [simp]: "field ((k, v) # m) k' = (if k' = k then v else field m k')"
  by (simp add: field_def)

text \<open>Type assertions.\<close>

definition as_str :: "gval \<Rightarrow> string option" where
  "as_str v = (case v of VStr s \<Rightarrow> Some s | _ \<Rightarrow> None)"

definition as_num :: "gval \<Rightarrow> float64 option" where
  "as_num v = (case v of VNum x \<Rightarrow> Some x | _ \<Rightarrow> None)"

definition as_obj :: "gval \<Rightarrow> obj option" where
  "as_obj v = (case v of VObj m \<Rightarrow> Some m | _ \<Rightarrow> None)"

definition as_arr :: "gval \<Rightarrow> gval list option" where
  "as_arr v = (case v of VArr l \<Rightarrow> Some l | _ \<Rightarrow> None)"

definition getInt64 :: "gval \<Rightarrow> int64" where
  "getInt64 v = (case v of VNum x \<Rightarrow> f2i x | VInt n \<Rightarrow> n | _ \<Rightarrow> 0)"

definition getString :: "gval \<Rightarrow> string" where
  "getString v = (case v of VStr s \<Rightarrow> s | _ \<Rightarrow> [])"

definition getFloat :: "gval \<Rightarrow> float64" where
  "getFloat v = (case v of VNum x \<Rightarrow> x | _ \<Rightarrow> 0)"

lemma as_simps [simp]:
  "as_str (VStr s) = Some s" "as_str VNil = None" "as_num (VNum x) = Some x" "as_num VNil = None"
  "as_obj (VObj m) = Some m" "as_obj VNil = None" "as_arr (VArr l) = Some l" "as_arr VNil = None"
  "getString (VStr s) = s" "getString VNil = []" "getInt64 VNil = 0" "getInt64 (VNum x) = f2i x"
  "getInt64 (VInt n) = n" "getFloat (VNum x) = x" "getFloat VNil = 0"
  by (simp_all add: as_str_def as_num_def as_obj_def as_arr_def getString_def getInt64_def getFloat_def)

subsection \<open>Times\<close>

definition entryEndTime :: "obj \<Rightarrow> gotime option" where
  "entryEndTime m =
    (case as_str (field m ''ts'') of
       None \<Rightarrow> None
     | Some ts \<Rightarrow>
         if ts = [] then None
         else (case parseTs ts of
                 None \<Rightarrow> None
               | Some t \<Rightarrow>
                   (case as_num (field m ''rt'') of
                      Some rt \<Rightarrow> if rt > 0 then Some (addDur t (sint (f2i (fmul rt 1000000000)))) else Some t
                    | None \<Rightarrow> Some t)))"

text \<open>Go's \<open>%\<close> has the sign of the dividend.\<close>

definition minuteOf :: "int \<Rightarrow> int" where
  "minuteOf u = u - (if u \<ge> 0 then u mod 60 else - ((- u) mod 60))"

definition parseEntryMinute :: "int \<Rightarrow> obj \<Rightarrow> int" where
  "parseEntryMinute now m =
    (case as_str (field m ''ts_end'') of
       Some tsEnd \<Rightarrow>
         if tsEnd \<noteq> [] then (case parseTs tsEnd of Some t \<Rightarrow> minuteOf (unixSec t) | None \<Rightarrow> minuteOf now)
         else minuteOf now
     | None \<Rightarrow> minuteOf now)"

subsection \<open>Backend, usage, stream\<close>

definition normalizePeer :: "obj \<Rightarrow> string" where
  "normalizePeer m =
    (let peer = getString (field m ''peer''); fwd = getString (field m ''forwarded_to'');
         peer1 = (if fwd \<noteq> [] then
                    (let f1 = trimPrefix fwd ''https://''; f2 = trimPrefix f1 ''http://'';
                         f3 = (case indexByte f2 CHR ''/'' of Some i \<Rightarrow> take i f2 | None \<Rightarrow> f2)
                     in if f3 \<noteq> [] then f3 else peer)
                  else peer)
     in if peer1 = [] then ''(none)'' else peer1)"

definition zero_usage :: usageTokens where
  "zero_usage = \<lparr>ut_prompt = 0, ut_cached = 0, ut_compl = 0, ut_total = 0, ut_reasoning = 0\<rparr>"

definition extractUsage :: "obj \<Rightarrow> usageTokens" where
  "extractUsage m =
    (case as_obj (field m ''resp_meta'') of
       None \<Rightarrow> zero_usage
     | Some rm \<Rightarrow>
        (case as_obj (field rm ''usage'') of
           None \<Rightarrow> zero_usage
         | Some us \<Rightarrow>
            (let p0 = getInt64 (field us ''prompt_tokens'');
                 c0 = getInt64 (field us ''completion_tokens'');
                 t0 = getInt64 (field us ''total_tokens'');
                 p = (if p0 = 0 then getInt64 (field us ''input_tokens'') else p0);
                 c = (if c0 = 0 then getInt64 (field us ''output_tokens'') else c0);
                 t = (if t0 = 0 then p + c else t0);
                 ca = (case as_obj (field us ''prompt_tokens_details'') of
                         Some d \<Rightarrow> getInt64 (field d ''cached_tokens'') | None \<Rightarrow> 0);
                 r0 = (case as_obj (field us ''completion_tokens_details'') of
                         Some d \<Rightarrow> getInt64 (field d ''reasoning_tokens'') | None \<Rightarrow> 0);
                 r = (if r0 = 0 then getInt64 (field us ''reasoning_tokens'') else r0)
             in \<lparr>ut_prompt = p, ut_cached = ca, ut_compl = c, ut_total = t, ut_reasoning = r\<rparr>)))"

definition cachedUsage :: "obj \<Rightarrow> usageTokens" where
  "cachedUsage m = (case field m ''__usage'' of VUsage u \<Rightarrow> u | _ \<Rightarrow> extractUsage m)"

definition cachedPeer :: "obj \<Rightarrow> string" where
  "cachedPeer m = (case as_str (field m ''__peer'') of Some p \<Rightarrow> p | None \<Rightarrow> normalizePeer m)"

text \<open>\<open>streamRe\<close>: \<open>[{,]\s*"stream"\s*:\s*(true|false)\<close>, leftmost match.  No part of the
  pattern can match the same byte as the part after it, so matching needs no backtracking.\<close>

definition reSpace :: "string \<Rightarrow> string" where
  "reSpace s = dropWhile (\<lambda>c. c \<in> {CHR 0x09, CHR 0x0A, CHR 0x0C, CHR 0x0D, CHR '' ''}) s"

definition after :: "string \<Rightarrow> string \<Rightarrow> string option" where
  "after p s = (if hasPrefix s p then Some (drop (length p) s) else None)"

definition streamHere :: "string \<Rightarrow> bool option" where
  "streamHere s = (case s of
      [] \<Rightarrow> None
    | c # r \<Rightarrow> if c \<noteq> CHR ''{'' \<and> c \<noteq> CHR '','' then None
        else Option.bind (after (CHR 0x22 # ''stream'' @ [CHR 0x22]) (reSpace r)) (\<lambda>r.
             Option.bind (after '':'' (reSpace r)) (\<lambda>r.
             if hasPrefix (reSpace r) ''true'' then Some True
             else if hasPrefix (reSpace r) ''false'' then Some False
             else None)))"

fun streamRe :: "string \<Rightarrow> bool option" where
  "streamRe [] = None"
| "streamRe (c # s) = (case streamHere (c # s) of Some b \<Rightarrow> Some b | None \<Rightarrow> streamRe s)"

definition extractStream :: "obj \<Rightarrow> bool option" where
  "extractStream m =
    (if field m ''req_body_b64'' = VBool True then None
     else (let body = getString (field m ''req_body'') in if body = [] then None else streamRe body))"

definition streamOf :: "obj \<Rightarrow> bool option" where
  "streamOf m = (case map_of m ''__stream'' of
      Some v \<Rightarrow> (case v of VBoolPtr b \<Rightarrow> b | _ \<Rightarrow> None)
    | None \<Rightarrow> extractStream m)"

definition streamKeyOf :: "bool option \<Rightarrow> string" where
  "streamKeyOf sp = (case sp of None \<Rightarrow> [] | Some b \<Rightarrow> if b then ''true'' else ''false'')"

lemma streamKeyOf_keys: "streamKeyOf sp \<in> stream_keys"
  by (simp add: streamKeyOf_def stream_keys_def split: option.split)

lemma streamKeyOf_inj: "streamKeyOf a = streamKeyOf b \<longleftrightarrow> a = b"
  by (auto simp: streamKeyOf_def split: option.splits if_splits)

subsection \<open>The sample of ingest, the detail record\<close>

definition millis :: "float64 \<Rightarrow> int64" where
  "millis v = f2i (fmul v 1000)"

definition sample_of :: "int \<Rightarrow> obj \<Rightarrow> sample" where
  "sample_of now m =
    (let u = cachedUsage m in
     \<lparr>s_minute = parseEntryMinute now m,
      s_peer = cachedPeer m,
      s_stream = streamKeyOf (streamOf m),
      s_status = getInt64 (field m ''status''),
      s_prompt = ut_prompt u, s_cached = ut_cached u, s_compl = ut_compl u, s_total = ut_total u,
      s_reqBytes = of_nat (length (getString (field m ''req_body''))),
      s_respBytes = of_nat (length (getString (field m ''resp_body''))),
      s_rtMs = (case as_num (field m ''rt'') of Some v \<Rightarrow> millis v | None \<Rightarrow> 0),
      s_frtMs = (case as_num (field m ''first_chunk_t'') of
                   Some v \<Rightarrow> if v > 0 then Some (millis v) else None | None \<Rightarrow> None)\<rparr>)"

record detailRecord =
  d_ts :: string
  d_ts_end :: string
  d_request_id :: string
  d_source_addr :: string
  d_uri :: string
  d_method :: string
  d_stream :: "bool option"
  d_status :: int64
  d_peer :: string
  d_forwarded_to :: string
  d_backend :: string
  d_mode :: string
  d_session_src :: string
  d_model :: string
  d_finish_reason :: string
  d_frt :: float64
  d_lct :: float64
  d_rt :: float64
  d_chunk_count :: int64
  d_req_bytes :: int64
  d_resp_bytes :: int64
  d_prompt_tokens :: int64
  d_completion_tokens :: int64
  d_cached_tokens :: int64
  d_total_tokens :: int64
  d_reasoning_tokens :: int64

definition extractDetail :: "obj \<Rightarrow> detailRecord" where
  "extractDetail m =
    (let u = cachedUsage m; str = (\<lambda>k. getString (field m k));
         rm = as_obj (field m ''resp_meta''); rb = getInt64 (field m ''resp_bytes'') in
     \<lparr>d_ts = str ''ts'', d_ts_end = str ''ts_end'', d_request_id = str ''request_id'',
      d_source_addr = str ''source_addr'', d_uri = str ''uri'', d_method = str ''method'',
      d_stream = streamOf m, d_status = getInt64 (field m ''status''), d_peer = str ''peer'',
      d_forwarded_to = str ''forwarded_to'', d_backend = cachedPeer m, d_mode = str ''mode'',
      d_session_src = str ''session_src'',
      d_model = (case rm of Some r \<Rightarrow> getString (field r ''model'') | None \<Rightarrow> []),
      d_finish_reason = (case rm of Some r \<Rightarrow> getString (field r ''finish_reason'') | None \<Rightarrow> []),
      d_frt = getFloat (field m ''first_chunk_t''), d_lct = getFloat (field m ''last_chunk_t''),
      d_rt = getFloat (field m ''rt''), d_chunk_count = getInt64 (field m ''chunk_count''),
      d_req_bytes = of_nat (length (str ''req_body'')),
      d_resp_bytes = (if rb = 0 then of_nat (length (str ''resp_body'')) else rb),
      d_prompt_tokens = ut_prompt u, d_completion_tokens = ut_compl u, d_cached_tokens = ut_cached u,
      d_total_tokens = ut_total u, d_reasoning_tokens = ut_reasoning u\<rparr>)"

end
