(* ===== verification/Extract.thy ===== *)
theory Extract
  imports Values
begin

text \<open>
  From a raw frame to a log entry (\<open>bodylog-listener-go/main.go\<close>): the extraction of content
  and metadata from a response (\<open>extractFromObj\<close>, \<open>extractResp\<close>), the reassembly of streamed
  tool calls, \<open>buildRespMeta\<close> and \<open>assembleEntry\<close>.  The decoder and encoder of
  \<open>encoding/json\<close> are parameters: \<open>unmarshal s\<close> is \<open>None\<close> on an error, \<open>Some None\<close> for the
  JSON text null (which leaves the map nil) and \<open>Some (Some m)\<close> for an object.
\<close>

record respFields =
  rf_parts :: "string list"
  rf_reasoning :: "string list"
  rf_id :: string
  rf_finishReason :: string
  rf_model :: string
  rf_usage :: gval
  rf_toolCalls :: "gval list"
  rf_stopReason :: string
  rf_errorObj :: gval

definition empty_rf :: respFields where
  "empty_rf = \<lparr>rf_parts = [], rf_reasoning = [], rf_id = [], rf_finishReason = [], rf_model = [],
     rf_usage = VNil, rf_toolCalls = [], rf_stopReason = [], rf_errorObj = VNil\<rparr>"

text \<open>\<open>if s, ok := v.(string); ok { ... append ... }\<close>, and the variant that skips the empty string.\<close>

definition add_part :: "gval \<Rightarrow> respFields \<Rightarrow> respFields" where
  "add_part v rf = (case as_str v of Some s \<Rightarrow> rf\<lparr>rf_parts := rf_parts rf @ [s]\<rparr> | None \<Rightarrow> rf)"

definition add_reasoning :: "gval \<Rightarrow> respFields \<Rightarrow> respFields" where
  "add_reasoning v rf = (case as_str v of Some s \<Rightarrow> rf\<lparr>rf_reasoning := rf_reasoning rf @ [s]\<rparr> | None \<Rightarrow> rf)"

definition nonempty_str :: "gval \<Rightarrow> string option" where
  "nonempty_str v = (case as_str v of Some s \<Rightarrow> if s \<noteq> [] then Some s else None | None \<Rightarrow> None)"

subsection \<open>extractFromObj\<close>

text \<open>\<open>choices[].delta\<close> and \<open>choices[].message\<close> are read the same way.\<close>

definition extract_msg :: "obj \<Rightarrow> respFields \<Rightarrow> respFields" where
  "extract_msg d rf =
    (let r1 = add_part (field d ''content'') rf;
         r2 = add_reasoning (field d ''reasoning'') r1;
         r3 = add_reasoning (field d ''reasoning_content'') r2
     in case as_arr (field d ''tool_calls'') of
          Some tc \<Rightarrow> r3\<lparr>rf_toolCalls := rf_toolCalls r3 @ tc\<rparr> | None \<Rightarrow> r3)"

definition extract_choice :: "gval \<Rightarrow> respFields \<Rightarrow> respFields" where
  "extract_choice c rf =
    (case as_obj c of
       None \<Rightarrow> rf
     | Some cm \<Rightarrow>
        (let r1 = add_part (field cm ''text'') rf;
             r2 = (case as_obj (field cm ''delta'') of Some d \<Rightarrow> extract_msg d r1 | None \<Rightarrow> r1);
             r3 = (case as_obj (field cm ''message'') of Some d \<Rightarrow> extract_msg d r2 | None \<Rightarrow> r2)
         in case nonempty_str (field cm ''finish_reason'') of
              Some fr \<Rightarrow> r3\<lparr>rf_finishReason := fr\<rparr> | None \<Rightarrow> r3))"

definition extract_block :: "gval \<Rightarrow> respFields \<Rightarrow> respFields" where
  "extract_block b rf =
    (case as_obj b of
       None \<Rightarrow> rf
     | Some bm \<Rightarrow>
        (let r1 = add_part (field bm ''text'') rf;
             r2 = add_reasoning (field bm ''thinking'') r1
         in if getString (field bm ''type'') = ''tool_use''
            then r2\<lparr>rf_toolCalls := rf_toolCalls r2 @ [VObj bm]\<rparr> else r2))"

text \<open>The Anthropic parts: the streamed delta, the first block, the content array.\<close>

definition extract_delta :: "obj \<Rightarrow> respFields \<Rightarrow> respFields" where
  "extract_delta d rf =
    (let r1 = add_part (field d ''text'') rf;
         r2 = add_reasoning (field d ''thinking'') r1
     in case nonempty_str (field d ''stop_reason'') of
          Some sr \<Rightarrow> r2\<lparr>rf_stopReason := sr\<rparr> | None \<Rightarrow> r2)"

definition extract_cblock :: "obj \<Rightarrow> respFields \<Rightarrow> respFields" where
  "extract_cblock cb rf =
    (let r1 = (case nonempty_str (field cb ''text'') of
                 Some s \<Rightarrow> rf\<lparr>rf_parts := rf_parts rf @ [s]\<rparr> | None \<Rightarrow> rf)
     in case nonempty_str (field cb ''thinking'') of
          Some s \<Rightarrow> r1\<lparr>rf_reasoning := rf_reasoning r1 @ [s]\<rparr> | None \<Rightarrow> r1)"

text \<open>The scalar fields at the end.\<close>

definition extract_tail :: "obj \<Rightarrow> respFields \<Rightarrow> respFields" where
  "extract_tail ob rf =
    (let r1 = (case as_obj (field ob ''usage'') of Some u \<Rightarrow> rf\<lparr>rf_usage := VObj u\<rparr> | None \<Rightarrow> rf);
         r2 = (case nonempty_str (field ob ''model'') of Some m \<Rightarrow> r1\<lparr>rf_model := m\<rparr> | None \<Rightarrow> r1);
         r3 = (case nonempty_str (field ob ''id'') of Some i \<Rightarrow> r2\<lparr>rf_id := i\<rparr> | None \<Rightarrow> r2);
         r4 = (case nonempty_str (field ob ''stop_reason'') of Some s \<Rightarrow> r3\<lparr>rf_stopReason := s\<rparr> | None \<Rightarrow> r3)
     in if field ob ''error'' \<noteq> VNil then r4\<lparr>rf_errorObj := field ob ''error''\<rparr> else r4)"

definition extractFromObj :: "obj \<Rightarrow> respFields \<Rightarrow> respFields" where
  "extractFromObj ob rf =
    (let r1 = (case as_arr (field ob ''choices'') of Some cs \<Rightarrow> fold extract_choice cs rf | None \<Rightarrow> rf);
         r2 = (case as_obj (field ob ''delta'') of Some d \<Rightarrow> extract_delta d r1 | None \<Rightarrow> r1);
         r3 = (case as_obj (field ob ''content_block'') of Some cb \<Rightarrow> extract_cblock cb r2 | None \<Rightarrow> r2);
         r4 = (case as_arr (field ob ''content'') of Some bs \<Rightarrow> fold extract_block bs r3 | None \<Rightarrow> r3)
     in extract_tail ob r4)"

subsection \<open>extractResp\<close>

type_synonym unmarshal = "bytes \<Rightarrow> obj option option"

text \<open>Reading a nil map is reading an empty one.\<close>

definition map_or_nil :: "obj option \<Rightarrow> obj" where
  "map_or_nil x = (case x of Some m \<Rightarrow> m | None \<Rightarrow> [])"

text \<open>One line of the server-sent events; \<open>None\<close> when it is skipped.\<close>

definition sse_payload :: "string \<Rightarrow> string option" where
  "sse_payload line =
    (let l = trimRightSet [CHR 0x0D] line in
     if \<not> hasPrefix l ''data:'' then None
     else let payload = trimLeftSet [CHR '' '', CHR 0x09] (drop 5 l) in
       if payload = [] \<or> payload = ''[DONE]'' then None else Some payload)"

definition sse_line :: "unmarshal \<Rightarrow> string \<Rightarrow> respFields \<Rightarrow> respFields" where
  "sse_line unmarshal line rf =
    (case sse_payload line of
       None \<Rightarrow> rf
     | Some payload \<Rightarrow>
        (case unmarshal payload of None \<Rightarrow> rf | Some m \<Rightarrow> extractFromObj (map_or_nil m) rf))"

definition sse_lines :: "unmarshal \<Rightarrow> string \<Rightarrow> respFields \<Rightarrow> respFields" where
  "sse_lines unmarshal s rf = fold (sse_line unmarshal) (splitByte CHR 0x0A s) rf"

definition extractResp :: "unmarshal \<Rightarrow> string \<Rightarrow> respFields" where
  "extractResp unmarshal s =
    (if s = [] then empty_rf
     else (case unmarshal s of
             None \<Rightarrow> sse_lines unmarshal s empty_rf
           | Some whole \<Rightarrow>
              (let rf = extractFromObj (map_or_nil whole) empty_rf in
               if rf_parts rf \<noteq> [] \<or> rf_reasoning rf \<noteq> [] \<or> rf_errorObj rf \<noteq> VNil then rf
               else sse_lines unmarshal s rf)))"

subsection \<open>reassembleToolCalls\<close>

text \<open>The state of the loop: \<open>byIdx\<close>, the order of first appearance, the next synthetic
  index.\<close>

record tc_acc =
  tc_byIdx :: "(int \<times> obj) list"
  tc_order :: "int list"
  tc_synth :: int

text \<open>Copying the fields other than \<open>function\<close> that are not there yet.\<close>

fun merge_fields :: "obj \<Rightarrow> obj \<Rightarrow> obj" where
  "merge_fields [] cur = cur"
| "merge_fields ((k, v) # fm) cur =
     merge_fields fm (if k = ''function'' then cur
       else if map_of cur k = None then put k v cur else cur)"

fun merge_fn :: "obj \<Rightarrow> obj \<Rightarrow> obj" where
  "merge_fn [] ex = ex"
| "merge_fn ((fk, fv) # fn) ex =
     merge_fn fn
       (if fk = ''arguments'' then
          (if getString fv \<noteq> [] then
             put ''arguments'' (VStr (getString (field ex ''arguments'') @ getString fv)) ex
           else if map_of ex ''arguments'' = None then put ''arguments'' fv ex else ex)
        else if map_of ex fk = None then put fk fv ex else ex)"

definition merge_fragment :: "obj \<Rightarrow> obj \<Rightarrow> obj" where
  "merge_fragment fm cur =
    (let c1 = merge_fields fm cur in
     case as_obj (field fm ''function'') of
       None \<Rightarrow> c1
     | Some fn \<Rightarrow>
        (let existing = (case as_obj (field c1 ''function'') of Some e \<Rightarrow> e | None \<Rightarrow> [])
         in put ''function'' (VObj (merge_fn fn existing)) c1))"

definition frag_index :: "obj \<Rightarrow> int option" where
  "frag_index fm = map_option (\<lambda>x. sint (f2i x)) (as_num (field fm ''index''))"

definition tc_step :: "gval \<Rightarrow> tc_acc \<Rightarrow> tc_acc" where
  "tc_step f acc =
    (case as_obj f of
       None \<Rightarrow> acc
     | Some fm \<Rightarrow>
        (let (idx, synth) = (case frag_index fm of
               Some v \<Rightarrow> (v, tc_synth acc) | None \<Rightarrow> (tc_synth acc, tc_synth acc - 1));
             (cur, order) = (case map_of (tc_byIdx acc) idx of
               Some c \<Rightarrow> (c, tc_order acc) | None \<Rightarrow> ([], tc_order acc @ [idx]))
         in \<lparr>tc_byIdx = put idx (merge_fragment fm cur) (tc_byIdx acc), tc_order = order, tc_synth = synth\<rparr>))"

definition reassembleToolCalls :: "gval list \<Rightarrow> gval list" where
  "reassembleToolCalls fragments =
    (let acc = fold tc_step fragments \<lparr>tc_byIdx = [], tc_order = [], tc_synth = -1\<rparr>
     in map (\<lambda>idx. VObj (case map_of (tc_byIdx acc) idx of Some c \<Rightarrow> c | None \<Rightarrow> [])) (sort (tc_order acc)))"

subsection \<open>buildRespMeta\<close>

definition put_if :: "bool \<Rightarrow> string \<Rightarrow> gval \<Rightarrow> obj \<Rightarrow> obj" where
  "put_if b k v m = (if b then put k v m else m)"

text \<open>\<open>None\<close> is the nil map returned when there is nothing to say.\<close>

definition buildRespMeta :: "respFields \<Rightarrow> obj option" where
  "buildRespMeta rf =
    (let m = put_if (rf_errorObj rf \<noteq> VNil) ''error'' (rf_errorObj rf)
            (put_if (rf_stopReason rf \<noteq> []) ''stop_reason'' (VStr (rf_stopReason rf))
            (put_if (rf_reasoning rf \<noteq> []) ''reasoning'' (VStr (joinWith [] (rf_reasoning rf)))
            (put_if (rf_toolCalls rf \<noteq> []) ''tool_calls'' (VArr (reassembleToolCalls (rf_toolCalls rf)))
            (put_if (rf_usage rf \<noteq> VNil) ''usage'' (rf_usage rf)
            (put_if (rf_model rf \<noteq> []) ''model'' (VStr (rf_model rf))
            (put_if (rf_finishReason rf \<noteq> []) ''finish_reason'' (VStr (rf_finishReason rf))
            (put_if (rf_id rf \<noteq> []) ''id'' (VStr (rf_id rf)) [])))))))
     in if m = [] then None else Some m)"

subsection \<open>assembleEntry\<close>

text \<open>A body under key \<open>k\<close>: the text itself when it is valid UTF-8, else base64 and a flag.\<close>

definition put_body :: "string \<Rightarrow> bytes \<Rightarrow> obj \<Rightarrow> obj" where
  "put_body k b m =
    (if utf8Valid b then put k (VStr b) m
     else put (k @ ''_b64'') (VBool True) (put k (VStr (stdEncode b)) m))"

definition status_code :: "obj \<Rightarrow> int64" where
  "status_code m = (case as_num (field m ''status'') of Some v \<Rightarrow> f2i v | None \<Rightarrow> 0)"

definition put_resp :: "unmarshal \<Rightarrow> bytes \<Rightarrow> obj \<Rightarrow> obj" where
  "put_resp unmarshal resp m =
    (if resp = [] then put ''resp_body'' (VStr []) m
     else if sint (status_code m) \<ge> 400 then put_body ''resp_body'' resp m
     else (let rf = extractResp unmarshal resp; content = joinWith [] (rf_parts rf) in
       if content = [] \<and> rf_reasoning rf = [] \<and> rf_errorObj rf = VNil \<and> rf_finishReason rf = []
       then put_body ''resp_body'' resp m
       else (let m1 = put_body ''resp_body'' content m in
         case buildRespMeta rf of Some meta \<Rightarrow> put ''resp_meta'' (VObj meta) m1 | None \<Rightarrow> m1)))"

text \<open>Writing to the nil map of a null meta panics.\<close>

datatype 'a outcome = Panic | Failed | Done 'a

definition put_req :: "bytes \<Rightarrow> string \<Rightarrow> obj \<Rightarrow> obj" where
  "put_req req src m0 =
    (let m1 = (if src \<noteq> [] then put ''source_addr'' (VStr src) m0 else m0)
     in if req \<noteq> [] then put_body ''req_body'' req m1 else put ''req_body'' (VStr []) m1)"

definition put_end :: "obj \<Rightarrow> obj" where
  "put_end m = (case entryEndTime m of Some t \<Rightarrow> put ''ts_end'' (VStr (formatTs t)) m | None \<Rightarrow> m)"

definition assembleMap :: "unmarshal \<Rightarrow> bytes \<Rightarrow> bytes \<Rightarrow> string \<Rightarrow> obj \<Rightarrow> obj" where
  "assembleMap unmarshal req resp src m0 = put_end (put_resp unmarshal resp (put_req req src m0))"

definition assembleEntry ::
  "unmarshal \<Rightarrow> (obj \<Rightarrow> bytes option) \<Rightarrow> bytes \<Rightarrow> bytes \<Rightarrow> bytes \<Rightarrow> string \<Rightarrow> (obj \<times> bytes) outcome" where
  "assembleEntry unmarshal marshal meta req resp src =
    (case unmarshal meta of
       None \<Rightarrow> Failed
     | Some None \<Rightarrow> Panic
     | Some (Some m0) \<Rightarrow>
        (let m = assembleMap unmarshal req resp src m0 in
         case marshal m of None \<Rightarrow> Failed | Some out \<Rightarrow> Done (m, out @ [CHR 0x0A])))"

end
