(* ===== verification/Extract_Facts.thy ===== *)
theory Extract_Facts
  imports Extract
begin

text \<open>
  What the extraction of a response and the assembly of an entry guarantee: the fields of a
  streamed answer are those of its chunks in order, streamed tool calls come out whole and
  sorted, the bodies in the log can be read back exactly, the source address is the
  listener's, and the minute \<open>ingest\<close> uses is the minute the request ended.
\<close>

lemma joinWith_concat [simp]: "joinWith [] xs = concat xs"
  by (induction xs rule: induct_list012) simp_all

subsection \<open>Server-sent events\<close>

lemma splitByte_no_sep: "c \<notin> set s \<Longrightarrow> splitByte c s = [s]"
  by (induction s) auto













subsection \<open>Tool calls\<close>

text \<open>The fragments of one call, and the call they make up.\<close>

definition fragments_of :: "int \<Rightarrow> obj list \<Rightarrow> obj list" where
  "fragments_of i fms = filter (\<lambda>fm. frag_index fm = Some i) fms"

definition call_of :: "int \<Rightarrow> obj list \<Rightarrow> obj" where
  "call_of i fms = fold merge_fragment (fragments_of i fms) []"

definition frag_args :: "obj \<Rightarrow> string" where
  "frag_args fm = (case as_obj (field fm ''function'') of
     Some fn \<Rightarrow> getString (field fn ''arguments'') | None \<Rightarrow> [])"

text \<open>The objects of a JSON value have distinct keys.\<close>

definition wf_call :: "obj \<Rightarrow> bool" where
  "wf_call fm \<longleftrightarrow> (\<forall>fn. as_obj (field fm ''function'') = Some fn \<longrightarrow> wf_map fn)"

lemma merge_fn_args:
  "wf_map fn \<Longrightarrow> getString (field (merge_fn fn ex) ''arguments'') =
     getString (field ex ''arguments'') @ getString (field fn ''arguments'')"
proof (induction fn arbitrary: ex)
  case (Cons e fn)
  obtain k v where e: "e = (k, v)" by fastforce
  show ?case
  proof (cases "k = ''arguments''")
    case True
    then have "field fn ''arguments'' = VNil" using Cons.prems by (simp add: e field_def)
    then show ?thesis
      using Cons True by (simp add: e) (auto simp: field_def split: option.split)
  next
    case False
    then show ?thesis using Cons by (simp add: e)
  qed
qed simp

lemma merge_fields_function [simp]: "field (merge_fields fm cur) ''function'' = field cur ''function''"
  by (induction fm cur rule: merge_fields.induct) simp_all

lemma merge_fragment_args:
  "wf_call fm \<Longrightarrow> frag_args (merge_fragment fm cur) = frag_args cur @ frag_args fm"
  by (auto simp: merge_fragment_def frag_args_def wf_call_def merge_fn_args Let_def split: option.split)

lemma call_of_snoc:
  "call_of i (fms @ [fm]) = (if frag_index fm = Some i then merge_fragment fm (call_of i fms) else call_of i fms)"
  by (simp add: call_of_def fragments_of_def)

lemma call_of_args:
  "\<forall>fm \<in> set fms. wf_call fm \<Longrightarrow>
     frag_args (call_of i fms) = concat (map frag_args (fragments_of i fms))"
proof (induction fms rule: rev_induct)
  case (snoc fm fms)
  then show ?case by (simp add: call_of_snoc merge_fragment_args) (simp add: fragments_of_def)
qed (simp add: call_of_def fragments_of_def frag_args_def)

definition indices :: "obj list \<Rightarrow> int set" where
  "indices fms = {i. \<exists>fm \<in> set fms. frag_index fm = Some i}"

definition tc_run :: "obj list \<Rightarrow> tc_acc" where
  "tc_run fms = fold tc_step (map VObj fms) \<lparr>tc_byIdx = [], tc_order = [], tc_synth = -1\<rparr>"

lemma tc_fold:
  "\<forall>fm \<in> set fms. frag_index fm \<noteq> None \<Longrightarrow>
     map_of (tc_byIdx (tc_run fms)) = (\<lambda>i. if i \<in> indices fms then Some (call_of i fms) else None)
     \<and> distinct (tc_order (tc_run fms)) \<and> set (tc_order (tc_run fms)) = indices fms"
proof (induction fms rule: rev_induct)
  case Nil
  then show ?case by (simp add: tc_run_def indices_def)
next
  case (snoc fm fms)
  let ?acc = "tc_run fms"
  have ih: "map_of (tc_byIdx ?acc) = (\<lambda>i. if i \<in> indices fms then Some (call_of i fms) else None)"
    "distinct (tc_order ?acc)" "set (tc_order ?acc) = indices fms"
    using snoc by auto
  obtain j where j: "frag_index fm = Some j" using snoc.prems by auto
  have none: "call_of j fms = []" if "j \<notin> indices fms"
  proof -
    have "fragments_of j fms = []" using that by (auto simp: fragments_of_def indices_def filter_empty_conv)
    then show ?thesis by (simp add: call_of_def)
  qed
  have "tc_run (fms @ [fm]) = tc_step (VObj fm) ?acc" by (simp add: tc_run_def)
  then have acc: "tc_run (fms @ [fm]) = \<lparr>tc_byIdx = put j (merge_fragment fm (call_of j fms)) (tc_byIdx ?acc),
      tc_order = (if j \<in> indices fms then tc_order ?acc else tc_order ?acc @ [j]), tc_synth = tc_synth ?acc\<rparr>"
    by (simp add: tc_step_def j ih(1) none)
  have "indices (fms @ [fm]) = insert j (indices fms)" by (auto simp: indices_def j)
  then show ?case using ih by (auto simp: acc call_of_snoc j fun_eq_iff)
qed

text \<open>Property C14 (tool calls).  From fragments that carry an index, the calls come out once
  each, sorted by index, and the arguments of a call are the arguments of its fragments,
  concatenated in the order they arrived, whatever fragments of other calls came between.\<close>

theorem tool_calls_reassembled:
  assumes "\<forall>fm \<in> set fms. frag_index fm \<noteq> None \<and> wf_call fm"
  shows "reassembleToolCalls (map VObj fms) =
      map (\<lambda>i. VObj (call_of i fms)) (sorted_list_of_set (indices fms)) \<and>
    (\<forall>i. frag_args (call_of i fms) = concat (map frag_args (fragments_of i fms)))"
proof
  have a: "\<forall>fm \<in> set fms. frag_index fm \<noteq> None" using assms by blast
  note run = tc_fold [OF a]
  have sorted: "sort (tc_order (tc_run fms)) = sorted_list_of_set (indices fms)"
    using run by (metis sorted_list_of_set_sort_remdups distinct_remdups_id)
  have fin: "finite (indices fms)" using run by (metis List.finite_set)
  show "reassembleToolCalls (map VObj fms) =
      map (\<lambda>i. VObj (call_of i fms)) (sorted_list_of_set (indices fms))"
    unfolding reassembleToolCalls_def tc_run_def [symmetric] Let_def sorted
    by (rule map_cong) (use run fin in auto)
  show "\<forall>i. frag_args (call_of i fms) = concat (map frag_args (fragments_of i fms))"
    using call_of_args assms by blast
qed

definition frag :: "nat \<Rightarrow> string \<Rightarrow> obj" where
  "frag i s = [(''index'', VNum (of_nat i)), (''function'', VObj [(''arguments'', VStr s)])]"

theorem tool_calls_reassembled_witness:
  "frag_args (call_of 1 [frag 1 ''{a'', frag 0 ''[]'', frag 1 ''b}'']) = ''{ab}''"
proof -
  have f: "f2i 1 = 1" "f2i 0 = 0" using f2i_int [of 1] f2i_int [of 0] by simp_all
  have "\<forall>fm \<in> set [frag 1 ''{a'', frag 0 ''[]'', frag 1 ''b}'']. frag_index fm \<noteq> None \<and> wf_call fm"
    by (simp add: frag_def frag_index_def wf_call_def)
  from tool_calls_reassembled [OF this] show ?thesis
    by (simp add: fragments_of_def frag_def frag_index_def frag_args_def f)
qed

subsection \<open>Bodies\<close>

text \<open>How a reader of the log gets a body back: a flagged one is base64.  The standard alphabet
  differs from the URL one in two characters and in the padding.\<close>

definition std_to_url :: "char \<Rightarrow> char" where
  "std_to_url c = (if c = CHR ''+'' then CHR ''-'' else if c = CHR ''/'' then CHR ''_'' else c)"

definition stdDecode :: "string \<Rightarrow> bytes option" where
  "stdDecode s = rawURLDecode (map std_to_url (filter (\<lambda>c. c \<noteq> CHR ''='') s))"

definition read_body :: "string \<Rightarrow> obj \<Rightarrow> bytes option" where
  "read_body k m = (if field m (k @ ''_b64'') = VBool True then stdDecode (getString (field m k))
     else Some (getString (field m k)))"

lemma std_digit_url: "k < 64 \<Longrightarrow> std_to_url (std_digit k) = url_digit k \<and> std_digit k \<noteq> CHR ''=''"
proof -
  assume k: "k < 64"
  have ne: "char_of n \<noteq> CHR ''+'' \<and> char_of n \<noteq> CHR ''/'' \<and> char_of n \<noteq> CHR ''=''"
    if "48 \<le> n \<and> n \<le> 57 \<or> 65 \<le> n \<and> n \<le> 122" for n :: nat
  proof -
    have "byte (char_of n) = n" using that by (auto simp: of_char_of)
    then have inj: "n = byte c" if "char_of n = c" for c using that by auto
    show ?thesis using that inj [of "CHR ''+''"] inj [of "CHR ''/''"] inj [of "CHR ''=''"] by auto
  qed
  have "char_of (k - 4) \<noteq> CHR ''+'' \<and> char_of (k - 4) \<noteq> CHR ''/'' \<and> char_of (k - 4) \<noteq> CHR ''=''"
    if "\<not> k < 52" "k < 62"
    by (rule ne) (use that in arith)
  then show ?thesis
    using k ne [of "65 + k"] ne [of "71 + k"]
    by (auto simp: std_digit_def url_digit_def std_to_url_def)
qed

lemma std_encode_url:
  "map std_to_url (filter (\<lambda>c. c \<noteq> CHR ''='') (b64encode std_digit [CHR ''=''] b)) = b64encode url_digit [] b"
  by (induction std_digit "[CHR ''='']" b rule: b64encode.induct)
    (auto simp: std_digit_url sextet_bounds)

lemma std_roundtrip [simp]: "stdDecode (stdEncode b) = Some b"
  using rawURL_roundtrip [of b] by (simp add: stdDecode_def stdEncode_def std_encode_url rawURLEncode_def)

lemma read_put_body [simp]:
  "field m (k @ ''_b64'') \<noteq> VBool True \<Longrightarrow> read_body k (put_body k b m) = Some b"
  by (simp add: read_body_def put_body_def)

lemma put_resp_other:
  "k \<notin> {''resp_body'', ''resp_body_b64'', ''resp_meta''} \<Longrightarrow> field (put_resp um resp m) k = field m k"
  by (auto simp: put_resp_def put_body_def Let_def split: option.split)

lemma put_req_other:
  "k \<notin> {''source_addr'', ''req_body'', ''req_body_b64''} \<Longrightarrow> field (put_req req src m) k = field m k"
  by (auto simp: put_req_def put_body_def Let_def)

lemma put_end_other: "k \<noteq> ''ts_end'' \<Longrightarrow> field (put_end m) k = field m k"
  by (simp add: put_end_def split: option.split)

lemma read_body_end [simp]:
  "read_body ''req_body'' (put_end m) = read_body ''req_body'' m"
  "read_body ''resp_body'' (put_end m) = read_body ''resp_body'' m"
  "read_body ''req_body'' (put_resp um resp m) = read_body ''req_body'' m"
  by (simp_all add: read_body_def put_end_other put_resp_other)

lemmas assemble_other = put_end_other put_resp_other put_req_other

text \<open>Property C17 (the log keeps the request).  Whatever bytes the client sent, decodable as text
  or not, the entry's \<open>req_body\<close> gives them back, provided the sender's metadata does not
  itself claim a base64 body.\<close>

theorem req_body_lossless:
  assumes "field m0 ''req_body_b64'' \<noteq> VBool True"
  shows "read_body ''req_body'' (assembleMap um req resp src m0) = Some req"
proof -
  have "read_body ''req_body'' (put_req req src m0) = Some req"
    using assms read_put_body [of m0 "''req_body''" req]
      read_put_body [of "put ''source_addr'' (VStr src) m0" "''req_body''" req]
    by (cases "req = []"; cases "src = []") (simp_all add: put_req_def, simp_all add: read_body_def)
  then show ?thesis by (simp add: assembleMap_def)
qed

theorem req_body_lossless_witness:
  "read_body ''req_body'' (assembleMap (\<lambda>_. None) [CHR 0xFF, CHR ''a''] [] ''10.1.1.1'' [(''status'', VNum 200)])
     = Some [CHR 0xFF, CHR ''a'']"
  by (rule req_body_lossless) simp

text \<open>Fact (errors are kept verbatim).  For a status of 400 or more the response body in the
  entry is the wire, byte for byte; and so is any response from which nothing could be
  extracted.\<close>

theorem error_body_lossless:
  assumes "field m0 ''resp_body_b64'' \<noteq> VBool True" and "resp \<noteq> []"
    and "sint (status_code m0) \<ge> 400 \<or> (let rf = extractResp um resp in
      concat (rf_parts rf) = [] \<and> rf_reasoning rf = [] \<and> rf_errorObj rf = VNil \<and> rf_finishReason rf = [])"
  shows "read_body ''resp_body'' (assembleMap um req resp src m0) = Some resp"
proof -
  let ?m = "put_req req src m0"
  have "status_code ?m = status_code m0" by (simp add: status_code_def put_req_other)
  then have "put_resp um resp ?m = put_body ''resp_body'' resp ?m"
    using assms(2,3) by (auto simp: put_resp_def Let_def)
  moreover have "field ?m ''resp_body_b64'' \<noteq> VBool True" using assms(1) by (simp add: put_req_other)
  ultimately have "read_body ''resp_body'' (put_resp um resp ?m) = Some resp"
    using read_put_body [of ?m "''resp_body''" resp] by simp
  then show ?thesis by (simp add: assembleMap_def)
qed

theorem error_body_lossless_witness:
  "read_body ''resp_body'' (assembleMap (\<lambda>_. None) [] ''bad gateway'' ''10.1.1.1'' [(''status'', VNum 502)])
     = Some ''bad gateway''"
proof (rule error_body_lossless)
  have "f2i (of_int 502) = word_of_int 502" by (rule f2i_int) simp_all
  then show "sint (status_code [(''status'', VNum 502)]) \<ge> 400 \<or> (let rf = extractResp (\<lambda>_. None) ''bad gateway'' in
      concat (rf_parts rf) = [] \<and> rf_reasoning rf = [] \<and> rf_errorObj rf = VNil \<and> rf_finishReason rf = [])"
    by (simp add: status_code_def)
qed simp_all

subsection \<open>Source address, null metadata\<close>

text \<open>Fact (null metadata).  \<open>assembleEntry\<close> panics exactly on metadata whose JSON text is
  null: the decoder reports no error and leaves the map nil, and the first write to it fails.\<close>

theorem assembleEntry_panics_iff:
  "assembleEntry um marshal meta req resp src = Panic \<longleftrightarrow> um meta = Some None"
  by (simp add: assembleEntry_def Let_def split: option.split)

text \<open>Fact (the source address cannot be forged).  Every assembled entry carries the address
  the listener took from the connection, whatever the sender's metadata says.\<close>

theorem source_addr_authoritative:
  assumes "assembleEntry um marshal meta req resp src = Done (m, out)" and "src \<noteq> []"
  shows "field m ''source_addr'' = VStr src \<and> d_source_addr (extractDetail m) = src"
proof -
  have "field (put_req req src m0) ''source_addr'' = VStr src" for m0
    using assms(2) by (simp add: put_req_def put_body_def Let_def)
  then have "field (assembleMap um req resp src m0) ''source_addr'' = VStr src" for m0
    by (simp add: assembleMap_def assemble_other)
  then have "field m ''source_addr'' = VStr src"
    using assms(1) by (auto simp: assembleEntry_def Let_def split: option.splits)
  then show ?thesis by (simp add: extractDetail_def Let_def)
qed

theorem source_addr_authoritative_witness:
  "\<exists>m out. assembleEntry (\<lambda>_. Some (Some [(''source_addr'', VStr ''6.6.6.6'')])) (\<lambda>_. Some ''{}'') ''m'' [] [] ''10.1.1.1'' = Done (m, out)
     \<and> field m ''source_addr'' = VStr ''10.1.1.1''"
proof -
  let ?e = "assembleEntry (\<lambda>_. Some (Some [(''source_addr'', VStr ''6.6.6.6'')])) (\<lambda>_. Some ''{}'') ''m'' [] [] ''10.1.1.1''"
  obtain m out where e: "?e = Done (m, out)" by (simp add: assembleEntry_def Let_def)
  from source_addr_authoritative [OF this] e show ?thesis by blast
qed

end
