(* ===== verification/Aggregator.thy ===== *)
theory Aggregator
  imports Bucket
begin

text \<open>
  The listener's per-minute aggregator (\<open>bodylog-listener-go/main.go\<close>: \<open>newAggregator\<close>,
  \<open>ingest\<close>, \<open>flushClosedMinutes\<close>, \<open>appendToFile\<close>, \<open>reload\<close>).

  Buckets are shared: the same \<open>*bucket\<close> is reached from \<open>archive\<close>, from \<open>archiveIdx\<close>, and is
  the key of \<open>archiveDirty\<close> and \<open>archiveLastWritten\<close>, and \<open>ingest\<close> mutates it in place.  The
  model therefore has a heap: pointers are numbers, \<open>heap\<close> maps them to bucket values and
  \<open>nxt\<close> is the next free one.  Each operation runs under the aggregator's mutex, so it is one
  atomic step from state to state.

  \<open>view\<close> reads the two-level maps as one abstract map from (minute, composite key) to counters,
  and \<open>agg_ok\<close> is the representation invariant.
\<close>

type_synonym ptr = nat
type_synonym ptr_map = "(string \<times> ptr) list"

record aggregator =
  heap :: "ptr \<Rightarrow> bucket"
  nxt :: ptr
  active :: "(int \<times> ptr_map) list"
  archive :: "ptr list"
  archiveIdx :: "(int \<times> ptr_map) list"
  archiveDirty :: "ptr list"
  archiveLastWritten :: "(ptr \<times> bucket) list"
  archiveKeepMin :: int

definition newAggregator :: "int \<Rightarrow> aggregator" where
  "newAggregator keepMin = \<lparr>heap = (\<lambda>_. zero_bucket), nxt = 0, active = [], archive = [],
     archiveIdx = [], archiveDirty = [], archiveLastWritten = [], archiveKeepMin = keepMin\<rparr>"

subsection \<open>sort.Search and ordered insertion\<close>

text \<open>\<open>sort.Search(n, f)\<close>: the standard library's binary search for the smallest index at
  which \<open>f\<close> holds.\<close>

function sortSearch :: "(nat \<Rightarrow> bool) \<Rightarrow> nat \<Rightarrow> nat \<Rightarrow> nat" where
  "sortSearch f i j =
     (if i < j then let h = (i + j) div 2 in if \<not> f h then sortSearch f (h + 1) j else sortSearch f i h
      else i)"
  by pat_completeness auto
termination
  by (relation "measure (\<lambda>(f, i, j). j - i)") auto

declare sortSearch.simps [simp del]

definition insert_at :: "nat \<Rightarrow> 'a \<Rightarrow> 'a list \<Rightarrow> 'a list" where
  "insert_at i x xs = take i xs @ x # drop i xs"

subsection \<open>ingest\<close>

text \<open>A map lookup that yields Go's \<open>nil\<close> map for a missing key.\<close>

definition inner :: "(int \<times> ptr_map) list \<Rightarrow> int \<Rightarrow> ptr_map" where
  "inner m k = (case map_of m k of None \<Rightarrow> [] | Some bk \<Rightarrow> bk)"

definition alloc :: "bucket \<Rightarrow> aggregator \<Rightarrow> ptr \<times> aggregator" where
  "alloc b a = (nxt a, a\<lparr>heap := (heap a)(nxt a := b), nxt := nxt a + 1\<rparr>)"

text \<open>Adding to the \<open>archiveDirty\<close> set.\<close>

definition mark_dirty :: "ptr \<Rightarrow> aggregator \<Rightarrow> aggregator" where
  "mark_dirty p a = a\<lparr>archiveDirty := List.insert p (archiveDirty a)\<rparr>"

text \<open>Choosing the bucket: the active minute first, then the archived minute (a late
  request), else a new active minute.\<close>

definition select_bucket :: "sample \<Rightarrow> aggregator \<Rightarrow> ptr \<times> aggregator" where
  "select_bucket s a =
    (let minute = s_minute s; pkey = bkey (s_peer s) (s_stream s);
         fresh = new_bucket minute (s_peer s) (s_stream s) in
     case map_of (active a) minute of
       Some bk \<Rightarrow>
         (case map_of bk pkey of
            Some b \<Rightarrow> (b, a)
          | None \<Rightarrow> (let (b, a1) = alloc fresh a in
              (b, a1\<lparr>active := put minute (put pkey b bk) (active a1)\<rparr>)))
     | None \<Rightarrow>
         (case map_of (archiveIdx a) minute of
            Some bkA \<Rightarrow>
              (let (b, a2) =
                 (case map_of bkA pkey of
                    Some b \<Rightarrow> (b, a)
                  | None \<Rightarrow> (let (b, a1) = alloc fresh a;
                        idx = sortSearch (\<lambda>i. Minute (heap a1 (archive a1 ! i)) \<ge> minute) 0 (length (archive a1))
                      in (b, a1\<lparr>archiveIdx := put minute (put pkey b bkA) (archiveIdx a1),
                            archive := insert_at idx b (archive a1)\<rparr>)))
               in (b, mark_dirty b a2))
          | None \<Rightarrow> (let (b, a1) = alloc fresh a in
              (b, a1\<lparr>active := put minute [(pkey, b)] (active a1)\<rparr>))))"

definition ingest :: "sample \<Rightarrow> aggregator \<Rightarrow> aggregator" where
  "ingest s a = (let (b, a1) = select_bucket s a in
     a1\<lparr>heap := (heap a1)(b := bump s (heap a1 b))\<rparr>)"

subsection \<open>flushClosedMinutes\<close>

text \<open>The loop over the buckets of one closed minute, and over the active minutes.  The state
  carries the snapshots to write (\<open>closed\<close>) and the pointers that move (\<open>newPtrs\<close>).\<close>

record flush_acc =
  fa_agg :: aggregator
  fa_closed :: "bucket list"
  fa_new :: "ptr list"

fun close_buckets :: "int \<Rightarrow> ptr_map \<Rightarrow> flush_acc \<Rightarrow> flush_acc" where
  "close_buckets m [] acc = acc"
| "close_buckets m ((pkey, b) # rest) acc =
     (let a = fa_agg acc in
      close_buckets m rest \<lparr>
        fa_agg = a\<lparr>archiveIdx := put m (put pkey b (inner (archiveIdx a) m)) (archiveIdx a),
                   archiveLastWritten := put b (heap a b) (archiveLastWritten a)\<rparr>,
        fa_closed = fa_closed acc @ [heap a b],
        fa_new = fa_new acc @ [b]\<rparr>)"

definition ensure_idx :: "int \<Rightarrow> aggregator \<Rightarrow> aggregator" where
  "ensure_idx m a = (case map_of (archiveIdx a) m of
      None \<Rightarrow> a\<lparr>archiveIdx := put m [] (archiveIdx a)\<rparr> | Some _ \<Rightarrow> a)"

fun close_minutes :: "int \<Rightarrow> (int \<times> ptr_map) list \<Rightarrow> flush_acc \<Rightarrow> flush_acc" where
  "close_minutes cutoff [] acc = acc"
| "close_minutes cutoff ((m, bk) # rest) acc =
     (if m < cutoff then
        let acc1 = close_buckets m bk (acc\<lparr>fa_agg := ensure_idx m (fa_agg acc)\<rparr>);
            a1 = fa_agg acc1
        in close_minutes cutoff rest (acc1\<lparr>fa_agg := a1\<lparr>active := del m (active a1)\<rparr>\<rparr>)
      else close_minutes cutoff rest acc)"

text \<open>The loop over \<open>archiveDirty\<close>: the delta lines and the snapshots they advance.\<close>

fun collect_dirty :: "ptr list \<Rightarrow> ptr list \<Rightarrow> aggregator \<Rightarrow> bucket list \<times> aggregator" where
  "collect_dirty newPtrs [] a = ([], a)"
| "collect_dirty newPtrs (b # rest) a =
     (if b \<in> set newPtrs then collect_dirty newPtrs rest a
      else let prev = (case map_of (archiveLastWritten a) b of Some l \<Rightarrow> l | None \<Rightarrow> zero_bucket);
               cur = heap a b; delta = bucket_delta cur prev
        in if Requests delta = 0 then collect_dirty newPtrs rest a
           else let (ds, a') = collect_dirty newPtrs rest
                      (a\<lparr>archiveLastWritten := put b cur (archiveLastWritten a)\<rparr>)
             in (delta # ds, a'))"

text \<open>Eviction of the archived buckets older than \<open>archiveKeepMin\<close> minutes.\<close>

definition evict :: "int \<Rightarrow> aggregator \<Rightarrow> aggregator" where
  "evict now a =
     (if archiveKeepMin a > 0 then
        let cutMin = now - archiveKeepMin a * 60;
            old = takeWhile (\<lambda>p. Minute (heap a p) < cutMin) (archive a)
        in a\<lparr>archiveIdx := foldl (\<lambda>m p. del (Minute (heap a p)) m) (archiveIdx a) old,
             archiveLastWritten := foldl (\<lambda>m p. del p m) (archiveLastWritten a) old,
             archive := drop (length old) (archive a)\<rparr>
      else a)"

text \<open>The part of \<open>flushClosedMinutes\<close> under the lock; \<open>now1\<close> and \<open>now2\<close> are its two readings
  of the clock.  It returns the lines to append: the closed buckets, then the deltas.\<close>

definition flush_locked :: "int \<Rightarrow> int \<Rightarrow> aggregator \<Rightarrow> bucket list \<times> bucket list \<times> aggregator" where
  "flush_locked now1 now2 a =
    (let acc = close_minutes (now1 - 90) (active a) \<lparr>fa_agg = a, fa_closed = [], fa_new = []\<rparr>;
         a1 = fa_agg acc; newPtrs = fa_new acc;
         a2 = (if newPtrs = [] then a1
               else a1\<lparr>archive := sort_key (\<lambda>p. Minute (heap a1 p)) (archive a1 @ newPtrs)\<rparr>);
         (dirty, a3) = collect_dirty newPtrs (archiveDirty a2) a2;
         a4 = evict now2 (a3\<lparr>archiveDirty := []\<rparr>)
     in (fa_closed acc, dirty, a4))"

subsection \<open>The daily files\<close>

text \<open>
  \<open>metrics/<day>.jsonl\<close>, by day: the lines appended so far.  \<open>dayOf\<close> is the local date of a
  minute (\<open>time.Unix(m, 0).Format\<close>), \<open>enc\<close> the JSON encoding of one bucket, and \<open>writable\<close>
  says for which days the directory and file could be opened (the code logs and drops the
  lines of the others).
\<close>

type_synonym 'l files = "(string \<times> 'l list) list"

definition file_lines :: "'l files \<Rightarrow> string \<Rightarrow> 'l list" where
  "file_lines fs day = (case map_of fs day of None \<Rightarrow> [] | Some ls \<Rightarrow> ls)"

fun group_by_day :: "(int \<Rightarrow> string) \<Rightarrow> bucket list \<Rightarrow> (string \<times> bucket list) list" where
  "group_by_day dayOf [] = []"
| "group_by_day dayOf (b # bs) =
     (let g = group_by_day dayOf bs; day = dayOf (Minute b)
      in put day (b # file_lines g day) g)"

fun append_days :: "(string \<Rightarrow> bool) \<Rightarrow> (bucket \<Rightarrow> 'l) \<Rightarrow> (string \<times> bucket list) list \<Rightarrow> 'l files \<Rightarrow> 'l files" where
  "append_days writable enc [] fs = fs"
| "append_days writable enc ((day, bs) # rest) fs =
     append_days writable enc rest
       (if writable day then put day (file_lines fs day @ map enc bs) fs else fs)"

definition appendToFile ::
  "(string \<Rightarrow> bool) \<Rightarrow> (int \<Rightarrow> string) \<Rightarrow> (bucket \<Rightarrow> 'l) \<Rightarrow> bucket list \<Rightarrow> 'l files \<Rightarrow> 'l files" where
  "appendToFile writable dayOf enc bks fs = append_days writable enc (group_by_day dayOf bks) fs"

definition flushClosedMinutes ::
  "(string \<Rightarrow> bool) \<Rightarrow> (int \<Rightarrow> string) \<Rightarrow> (bucket \<Rightarrow> 'l) \<Rightarrow> int \<Rightarrow> int
     \<Rightarrow> aggregator \<times> 'l files \<Rightarrow> aggregator \<times> 'l files" where
  "flushClosedMinutes writable dayOf enc now1 now2 st =
    (case flush_locked now1 now2 (fst st) of (cls, dirty, a) \<Rightarrow>
       (let fs1 = (if cls = [] then snd st else appendToFile writable dayOf enc cls (snd st));
            fs2 = (if dirty = [] then fs1 else appendToFile writable dayOf enc dirty fs1)
        in (a, fs2)))"

subsection \<open>reload\<close>

text \<open>The scan of today's file: each decodable line is added to the bucket of its key, or
  becomes a new bucket.\<close>

record reload_acc =
  ra_heap :: "ptr \<Rightarrow> bucket"
  ra_nxt :: ptr
  ra_idx :: "(int \<times> ptr_map) list"

definition reload_line :: "bucket \<Rightarrow> reload_acc \<Rightarrow> reload_acc" where
  "reload_line b r =
     (let mp = inner (ra_idx r) (Minute b); k = bkey (Peer b) (Stream b) in
      case map_of mp k of
        Some e \<Rightarrow> r\<lparr>ra_heap := (ra_heap r)(e := bucket_add (ra_heap r e) b)\<rparr>
      | None \<Rightarrow> \<lparr>ra_heap = (ra_heap r)(ra_nxt r := b), ra_nxt = ra_nxt r + 1,
          ra_idx = put (Minute b) (put k (ra_nxt r) mp) (ra_idx r)\<rparr>)"

fun reload_lines :: "('l \<Rightarrow> bucket option) \<Rightarrow> 'l list \<Rightarrow> reload_acc \<Rightarrow> reload_acc" where
  "reload_lines dec [] r = r"
| "reload_lines dec (l # ls) r =
     reload_lines dec ls (case dec l of None \<Rightarrow> r | Some b \<Rightarrow> reload_line b r)"

definition reload :: "('l \<Rightarrow> bucket option) \<Rightarrow> string \<Rightarrow> 'l files \<Rightarrow> aggregator \<Rightarrow> aggregator" where
  "reload dec today fs a =
    (case map_of fs today of
       None \<Rightarrow> a
     | Some ls \<Rightarrow>
         (let r = reload_lines dec ls \<lparr>ra_heap = heap a, ra_nxt = nxt a, ra_idx = []\<rparr>;
              loaded = concat (map (map snd \<circ> snd) (ra_idx r))
          in a\<lparr>heap := ra_heap r, nxt := ra_nxt r,
               archive := sort_key (\<lambda>p. Minute (ra_heap r p)) loaded,
               archiveIdx := ra_idx r\<rparr>))"

end
