(* ===== verification/Aggregator_Inv.thy ===== *)
theory Aggregator_Inv
  imports Aggregator
begin

text \<open>
  The aggregator's representation invariant \<open>agg_ok\<close>, its abstraction \<open>view\<close>, and the
  lemmas that every operation keeps the first and refines a one-line operation on the second:
  \<open>ingest\<close> bumps one key, \<open>flush_locked\<close> moves pointers without changing any value and drops
  the evicted minutes, \<open>reload\<close> builds the sums of the lines of today's file.
\<close>

subsection \<open>Slots, cells and the abstract view\<close>

text \<open>\<open>slot M (m, k)\<close> is the pointer the two-level map \<open>M\<close> holds for a minute and key; \<open>cell\<close>
  looks in \<open>active\<close> first, as \<open>ingest\<close> does.\<close>

definition slot :: "(int \<times> ptr_map) list \<Rightarrow> int \<times> string \<Rightarrow> ptr option" where
  "slot M mk = map_of (inner M (fst mk)) (snd mk)"

definition cell :: "aggregator \<Rightarrow> int \<times> string \<Rightarrow> ptr option" where
  "cell a mk = (case map_of (active a) (fst mk) of
      Some bk \<Rightarrow> map_of bk (snd mk) | None \<Rightarrow> slot (archiveIdx a) mk)"

definition view :: "aggregator \<Rightarrow> int \<times> string \<Rightarrow> bucket option" where
  "view a mk = map_option (heap a) (cell a mk)"

lemma inner_put [simp]: "inner (put m bk M) m' = (if m' = m then bk else inner M m')"
  by (simp add: inner_def)

lemma inner_del [simp]: "inner (del m M) m' = (if m' = m then [] else inner M m')"
  by (simp add: inner_def)

lemma inner_Nil [simp]: "inner [] m = []"
  by (simp add: inner_def)

lemma inner_None: "map_of M m = None \<Longrightarrow> inner M m = []"
  by (simp add: inner_def)

lemma inner_Some: "map_of M m = Some bk \<Longrightarrow> inner M m = bk"
  by (simp add: inner_def)

lemma slot_put: "slot (put m bk M) mk = (if fst mk = m then map_of bk (snd mk) else slot M mk)"
  by (simp add: slot_def)

lemma slot_put_put [simp]:
  "slot (put m (put k p (inner M m)) M) mk = (if mk = (m, k) then Some p else slot M mk)"
  by (auto simp: slot_def)

lemma slot_del: "slot (del m M) mk = (if fst mk = m then None else slot M mk)"
  by (simp add: slot_def)

lemma slot_Nil [simp]: "slot [] mk = None"
  by (simp add: slot_def)

text \<open>The two-level maps the code builds have distinct keys at both levels.\<close>

definition wf2 :: "(int \<times> ptr_map) list \<Rightarrow> bool" where
  "wf2 M \<longleftrightarrow> wf_map M \<and> (\<forall>mbk \<in> set M. wf_map (snd mbk))"

lemma set_put_subset: "set (put k v m) \<subseteq> insert (k, v) (set m)"
  by (induction m) auto

lemma wf2_put: "wf2 M \<Longrightarrow> wf_map bk \<Longrightarrow> wf2 (put m bk M)"
  using set_put_subset [of m bk M] by (auto simp: wf2_def)

lemma wf2_del: "wf2 M \<Longrightarrow> wf2 (del m M)"
  by (auto simp: wf2_def AList.delete_eq wf_map_def distinct_map_filter)

lemma wf2_Nil [simp]: "wf2 []"
  by (simp add: wf2_def)

lemma wf2_map_of: "wf2 M \<Longrightarrow> map_of M m = Some bk \<Longrightarrow> wf_map bk"
  using map_of_SomeD [of M m bk] by (force simp: wf2_def)

lemma wf2_inner: "wf2 M \<Longrightarrow> wf_map (inner M m)"
  by (auto simp: inner_def wf2_map_of split: option.split)

text \<open>All pointers of a two-level map, in iteration order.\<close>

definition ptrs :: "(int \<times> ptr_map) list \<Rightarrow> ptr list" where
  "ptrs M = concat (map (map snd \<circ> snd) M)"

lemma ptrs_simps [simp]: "ptrs [] = []" "ptrs ((m, bk) # M) = map snd bk @ ptrs M"
  by (simp_all add: ptrs_def)

lemma ptrs_iff:
  assumes "wf2 M"
  shows "p \<in> set (ptrs M) \<longleftrightarrow> (\<exists>mk. slot M mk = Some p)"
proof
  assume "p \<in> set (ptrs M)"
  then obtain m bk k where "(m, bk) \<in> set M" "(k, p) \<in> set bk" by (auto simp: ptrs_def)
  with assms have "slot M (m, k) = Some p"
    by (auto simp: slot_def wf2_def inner_def map_of_SomeI)
  then show "\<exists>mk. slot M mk = Some p" ..
next
  assume "\<exists>mk. slot M mk = Some p"
  then show "p \<in> set (ptrs M)"
    by (force simp: slot_def inner_def ptrs_def split: option.splits dest: map_of_SomeD)
qed

subsection \<open>The representation invariant\<close>

definition agg_ok :: "aggregator \<Rightarrow> bool" where
  "agg_ok a \<longleftrightarrow>
     wf2 (active a) \<and> wf2 (archiveIdx a)
   \<and> keys (active a) \<inter> keys (archiveIdx a) = {}
   \<and> (\<forall>mk p. slot (active a) mk = Some p \<or> slot (archiveIdx a) mk = Some p
        \<longrightarrow> p < nxt a \<and> bucket_key (heap a p) = mk)
   \<and> distinct (archive a) \<and> set (archive a) = set (ptrs (archiveIdx a))
   \<and> sorted (map (\<lambda>p. Minute (heap a p)) (archive a))
   \<and> distinct (archiveDirty a) \<and> set (archiveDirty a) \<subseteq> set (archive a)
   \<and> keys (archiveLastWritten a) \<subseteq> set (archive a)"

lemma agg_okD:
  assumes "agg_ok a"
  shows "wf2 (active a)" "wf2 (archiveIdx a)" "keys (active a) \<inter> keys (archiveIdx a) = {}"
    "\<And>mk p. slot (active a) mk = Some p \<Longrightarrow> p < nxt a \<and> bucket_key (heap a p) = mk"
    "\<And>mk p. slot (archiveIdx a) mk = Some p \<Longrightarrow> p < nxt a \<and> bucket_key (heap a p) = mk"
    "distinct (archive a)" "set (archive a) = set (ptrs (archiveIdx a))"
    "sorted (map (\<lambda>p. Minute (heap a p)) (archive a))"
    "distinct (archiveDirty a)" "set (archiveDirty a) \<subseteq> set (archive a)"
    "keys (archiveLastWritten a) \<subseteq> set (archive a)"
  using assms unfolding agg_ok_def by blast+

lemma agg_ok_new: "agg_ok (newAggregator k)"
  by (simp add: agg_ok_def newAggregator_def keys_def)

lemma slot_active_Some: "map_of (active a) m = Some bk \<Longrightarrow> slot (active a) (m, k) = map_of bk k"
  by (simp add: slot_def inner_def)

lemma agg_ok_disjoint:
  "agg_ok a \<Longrightarrow> map_of (active a) m = Some bk \<Longrightarrow> map_of (archiveIdx a) m = None"
  using agg_okD(3) [of a] by (metis disjoint_iff keys_iff option.distinct(1))

lemma slot_disjoint:
  "agg_ok a \<Longrightarrow> slot (active a) (m, k) = Some p \<Longrightarrow> slot (archiveIdx a) (m, k') = None"
  by (auto simp: slot_def inner_def agg_ok_disjoint split: option.splits)

lemma cell_alt:
  assumes "agg_ok a"
  shows "cell a mk = (case slot (active a) mk of Some p \<Rightarrow> Some p | None \<Rightarrow> slot (archiveIdx a) mk)"
  using agg_ok_disjoint [OF assms]
  by (auto simp: cell_def slot_def inner_def split: option.splits)

lemma cell_key: "agg_ok a \<Longrightarrow> cell a mk = Some p \<Longrightarrow> p < nxt a \<and> bucket_key (heap a p) = mk"
  by (auto simp: cell_alt split: option.splits dest: agg_okD(4,5))

lemma cell_inj: "agg_ok a \<Longrightarrow> cell a mk = Some p \<Longrightarrow> cell a mk' = Some p \<Longrightarrow> mk = mk'"
  by (metis cell_key)

lemma archive_iff: "agg_ok a \<Longrightarrow> p \<in> set (archive a) \<longleftrightarrow> (\<exists>mk. slot (archiveIdx a) mk = Some p)"
  by (simp add: agg_okD ptrs_iff)

lemma archive_cell: "agg_ok a \<Longrightarrow> p \<in> set (archive a) \<Longrightarrow> cell a (bucket_key (heap a p)) = Some p"
proof -
  assume a: "agg_ok a" and p: "p \<in> set (archive a)"
  then obtain mk where mk: "slot (archiveIdx a) mk = Some p" by (auto simp: archive_iff)
  with agg_okD(5) [OF a] have "bucket_key (heap a p) = mk" by blast
  moreover have "slot (active a) mk = None"
    using slot_disjoint [OF a, of "fst mk" "snd mk" _ "snd mk"] mk by (cases "slot (active a) mk") auto
  ultimately show ?thesis using mk a by (simp add: cell_alt)
qed

lemma last_archive: "agg_ok a \<Longrightarrow> map_of (archiveLastWritten a) p = Some l \<Longrightarrow> p \<in> set (archive a)"
  using agg_okD(11) [of a] by (metis keys_iff option.distinct(1) subsetD)

lemma view_key: "agg_ok a \<Longrightarrow> view a mk = Some b \<Longrightarrow> bucket_key b = mk"
  by (auto simp: view_def dest: cell_key)

subsection \<open>sort.Search and ordered insertion\<close>

lemma sortSearch_correct:
  assumes "i \<le> j" and "\<And>x y. i \<le> x \<Longrightarrow> x \<le> y \<Longrightarrow> y < j \<Longrightarrow> f x \<Longrightarrow> f y"
  shows "i \<le> sortSearch f i j \<and> sortSearch f i j \<le> j
    \<and> (\<forall>x. i \<le> x \<and> x < sortSearch f i j \<longrightarrow> \<not> f x)
    \<and> (\<forall>x. sortSearch f i j \<le> x \<and> x < j \<longrightarrow> f x)"
  using assms
proof (induction f i j rule: sortSearch.induct)
  case (1 f i j)
  define h where "h = (i + j) div 2"
  show ?case
  proof (cases "i < j")
    case False
    then have "sortSearch f i j = i" by (subst sortSearch.simps) simp
    with False "1.prems"(1) show ?thesis by auto
  next
    case True
    then have h: "i \<le> h" "h < j" by (auto simp: h_def)
    show ?thesis
    proof (cases "f h")
      case fh: True
      define r where "r = sortSearch f i h"
      have eq: "sortSearch f i j = r"
        unfolding r_def by (subst sortSearch.simps) (simp add: True fh h_def [symmetric])
      have "i \<le> r \<and> r \<le> h \<and> (\<forall>x. i \<le> x \<and> x < r \<longrightarrow> \<not> f x) \<and> (\<forall>x. r \<le> x \<and> x < h \<longrightarrow> f x)"
        unfolding r_def
      proof (rule "1.IH"(2) [OF True h_def])
        show "f y" if "i \<le> x" "x \<le> y" "y < h" "f x" for x y
          using "1.prems"(2) [of x y] that h by simp
      qed (use fh h in simp_all)
      moreover have "f x" if "h \<le> x" "x < j" for x
        using "1.prems"(2) [of h x] that h fh by simp
      ultimately show ?thesis
        using h unfolding eq by (meson le_trans less_imp_le not_le)
    next
      case fh: False
      define r where "r = sortSearch f (h + 1) j"
      have eq: "sortSearch f i j = r"
        unfolding r_def by (subst sortSearch.simps) (simp add: True fh h_def [symmetric])
      have "h + 1 \<le> r \<and> r \<le> j \<and> (\<forall>x. h + 1 \<le> x \<and> x < r \<longrightarrow> \<not> f x) \<and> (\<forall>x. r \<le> x \<and> x < j \<longrightarrow> f x)"
        unfolding r_def
      proof (rule "1.IH"(1) [OF True h_def fh])
        show "f y" if "h + 1 \<le> x" "x \<le> y" "y < j" "f x" for x y
          using "1.prems"(2) [of x y] that h by simp
      qed (use h in simp)
      moreover have "\<not> f x" if "i \<le> x" "x < h + 1" for x
        using "1.prems"(2) [of x h] that h fh by auto
      moreover have "i \<le> h + 1" using h by simp
      ultimately show ?thesis
        unfolding eq by (meson le_trans not_le)
    qed
  qed
qed

text \<open>On a sorted list the index found is where an element belongs.\<close>

lemma sorted_insert_at:
  fixes g :: "'a \<Rightarrow> 'b :: linorder" and x :: 'a
  assumes "sorted (map g xs)"
  defines "i \<equiv> sortSearch (\<lambda>j. g (xs ! j) \<ge> g x) 0 (length xs)"
  shows "sorted (map g (insert_at i x xs))"
proof -
  let ?f = "\<lambda>j. g (xs ! j) \<ge> g x"
  have mono: "?f b" if "a \<le> b" "b < length xs" "?f a" for a b
  proof -
    have "g (xs ! a) \<le> g (xs ! b)"
      using sorted_nth_mono [OF assms(1), of a b] that by simp
    with that(3) show ?thesis by (rule order_trans)
  qed
  have i: "i \<le> length xs" "\<And>a. a < i \<Longrightarrow> \<not> ?f a" "\<And>a. i \<le> a \<Longrightarrow> a < length xs \<Longrightarrow> ?f a"
    using sortSearch_correct [of 0 "length xs" ?f, OF le0] mono unfolding i_def by blast+
  have lo: "\<forall>y \<in> set (take i xs). g y < g x" using i(2) by (auto simp: in_set_conv_nth not_le)
  have hi: "\<forall>y \<in> set (drop i xs). g x \<le> g y"
  proof
    fix y
    assume "y \<in> set (drop i xs)"
    then obtain n where "n < length xs - i" "y = xs ! (i + n)" by (auto simp: in_set_conv_nth)
    with i(3) [of "i + n"] show "g x \<le> g y" by simp
  qed
  have "sorted (map g (take i xs))" "sorted (map g (drop i xs))"
    using assms(1) by (simp_all add: sorted_wrt_take sorted_wrt_drop flip: take_map drop_map)
  moreover have "g y \<le> g z" if "y \<in> set (take i xs)" "z \<in> set (drop i xs)" for y z
    using lo hi that by (meson less_imp_le order_trans)
  ultimately show ?thesis
    using lo hi by (simp add: insert_at_def sorted_append ball_Un) (meson less_imp_le)
qed

lemma set_insert_at [simp]: "set (insert_at i x xs) = insert x (set xs)"
proof -
  have "set (take i xs) \<union> set (drop i xs) = set xs"
    by (metis append_take_drop_id set_append)
  then show ?thesis by (auto simp: insert_at_def)
qed

lemma distinct_insert_at: "distinct xs \<Longrightarrow> x \<notin> set xs \<Longrightarrow> distinct (insert_at i x xs)"
  by (auto simp: insert_at_def set_take_disj_set_drop_if_distinct dest: in_set_takeD in_set_dropD)

subsection \<open>Heap updates\<close>

text \<open>Changing a value in place keeps the invariant when its key stays the same, and changes
  the view at that key only.\<close>

lemma agg_ok_heap_upd:
  assumes "agg_ok a" and "bucket_key b = bucket_key (heap a p)"
  shows "agg_ok (a\<lparr>heap := (heap a)(p := b)\<rparr>)"
proof -
  have "Minute b = Minute (heap a p)" using assms(2) by (simp add: bucket_key_def)
  then have eq: "map (\<lambda>q. Minute (if q = p then b else heap a q)) xs = map (\<lambda>q. Minute (heap a q)) xs" for xs
    by (induction xs) auto
  have sub: "set (archive a) = set (ptrs (archiveIdx a))" by (rule agg_okD(7) [OF assms(1)])
  show ?thesis
    using agg_okD [OF assms(1)] assms(2) unfolding agg_ok_def by (simp add: eq sub)
qed

lemma view_heap_upd:
  assumes "agg_ok a" and "cell a mk = Some p"
  shows "view (a\<lparr>heap := (heap a)(p := b)\<rparr>) = (view a)(mk \<mapsto> b)"
proof
  fix mk'
  have "cell (a\<lparr>heap := (heap a)(p := b)\<rparr>) = cell a" by (auto simp: cell_def fun_eq_iff split: option.splits)
  then show "view (a\<lparr>heap := (heap a)(p := b)\<rparr>) mk' = ((view a)(mk \<mapsto> b)) mk'"
    using assms cell_inj [OF assms(1,2), of mk'] by (cases "cell a mk'") (auto simp: view_def)
qed

subsection \<open>ingest\<close>

text \<open>A pointer just allocated is in no map yet.\<close>

lemma fresh_ptr:
  assumes "agg_ok a"
  shows "slot (active a) mk \<noteq> Some (nxt a)" "slot (archiveIdx a) mk \<noteq> Some (nxt a)"
    "nxt a \<notin> set (archive a)"
  using agg_okD(4) [OF assms, of mk "nxt a"] agg_okD(5) [OF assms, of mk "nxt a"]
    agg_okD(5) [OF assms, of _ "nxt a"] archive_iff [OF assms, of "nxt a"]
  by auto

text \<open>The two ways \<open>select_bucket\<close> allocates: into the active map, or into the archive.\<close>

lemma new_active_ok:
  assumes ok: "agg_ok a" and no: "slot (active a) (m, k) = None" "map_of (archiveIdx a) m = None"
    and bk: "wf_map bk" "map_of bk = (map_of (inner (active a) m))(k \<mapsto> nxt a)" and key: "bucket_key b = (m, k)"
  defines "a' \<equiv> a\<lparr>heap := (heap a)(nxt a := b), nxt := nxt a + 1, active := put m bk (active a)\<rparr>"
  shows "agg_ok a'" and "cell a' = (cell a)((m, k) \<mapsto> nxt a)" and "view a' = (view a)((m, k) \<mapsto> b)"
proof -
  have sl: "slot (active a') mk = (if mk = (m, k) then Some (nxt a) else slot (active a) mk)" for mk
    by (cases mk) (auto simp: a'_def slot_put bk slot_def)
  have fields: "archiveIdx a' = archiveIdx a" "archive a' = archive a" "archiveDirty a' = archiveDirty a"
    "archiveLastWritten a' = archiveLastWritten a" "nxt a' = nxt a + 1"
    "heap a' = (heap a)(nxt a := b)" by (simp_all add: a'_def)
  have hp: "heap a' p = heap a p" if "p < nxt a" for p using that by (simp add: fields)
  have mem: "p < nxt a" if "p \<in> set (archive a)" for p
    using archive_iff [OF ok, of p] agg_okD(5) [OF ok, of _ p] that by blast
  have eq: "map (\<lambda>p. Minute (heap a' p)) (archive a) = map (\<lambda>p. Minute (heap a p)) (archive a)"
    using mem hp by simp
  have s: "sorted (map (\<lambda>p. Minute (heap a' p)) (archive a))"
    unfolding eq by (rule agg_okD(8) [OF ok])
  have dis: "keys (active a') \<inter> keys (archiveIdx a) = {}"
    using agg_okD(3) [OF ok] no(2) by (auto simp: a'_def keys_iff disjoint_iff)
  have ptr: "p < nxt a' \<and> bucket_key (heap a' p) = mk"
    if "slot (active a') mk = Some p \<or> slot (archiveIdx a) mk = Some p" for mk p
    using that agg_okD(4,5) [OF ok, of mk p] key by (auto simp: sl fields split: if_splits)
  show ok': "agg_ok a'"
    unfolding agg_ok_def fields(1-4)
    using wf2_put [OF agg_okD(1) [OF ok] bk(1), of m] agg_okD(2,6,7,9-11) [OF ok] dis ptr s
    by (auto simp: a'_def)
  show c: "cell a' = (cell a)((m, k) \<mapsto> nxt a)"
    by (rule ext) (auto simp: cell_alt [OF ok'] cell_alt [OF ok] sl fields split: option.split)
  show "view a' = (view a)((m, k) \<mapsto> b)"
  proof
    fix mk
    show "view a' mk = ((view a)((m, k) \<mapsto> b)) mk"
      using cell_key [OF ok, of mk] by (cases "cell a mk") (auto simp: view_def c fields)
  qed
qed

lemma new_archive_ok:
  assumes ok: "agg_ok a" and no: "map_of (active a) m = None"
    and bkA: "map_of (archiveIdx a) m = Some bkA" "map_of bkA k = None" and key: "bucket_key b = (m, k)"
  defines "h' \<equiv> (heap a)(nxt a := b)"
  defines "a' \<equiv> a\<lparr>heap := h', nxt := nxt a + 1,
      archiveIdx := put m (put k (nxt a) bkA) (archiveIdx a),
      archive := insert_at (sortSearch (\<lambda>i. Minute (h' (archive a ! i)) \<ge> m) 0 (length (archive a)))
        (nxt a) (archive a)\<rparr>"
  shows "agg_ok a'" and "cell a' = (cell a)((m, k) \<mapsto> nxt a)" and "view a' = (view a)((m, k) \<mapsto> b)"
proof -
  have inn: "bkA = inner (archiveIdx a) m" using bkA(1) by (simp add: inner_Some)
  have sl: "slot (archiveIdx a') mk = (if mk = (m, k) then Some (nxt a) else slot (archiveIdx a) mk)" for mk
    by (simp add: a'_def inn)
  have fields: "active a' = active a" "archiveDirty a' = archiveDirty a"
    "archiveLastWritten a' = archiveLastWritten a" "nxt a' = nxt a + 1" "heap a' = h'"
    by (simp_all add: a'_def)
  have setA: "set (archive a') = insert (nxt a) (set (archive a))" by (simp add: a'_def)
  have min_b: "Minute (h' (nxt a)) = m" using key by (simp add: h'_def bucket_key_def)
  have hp: "h' p = heap a p" if "p < nxt a" for p using that by (simp add: h'_def)
  have mem: "p < nxt a" if "p \<in> set (archive a)" for p
    using archive_iff [OF ok, of p] agg_okD(5) [OF ok, of _ p] that by blast
  have eq: "map (\<lambda>p. Minute (h' p)) (archive a) = map (\<lambda>p. Minute (heap a p)) (archive a)"
    using mem hp by simp
  have "sorted (map (\<lambda>p. Minute (h' p)) (archive a))"
    unfolding eq by (rule agg_okD(8) [OF ok])
  from sorted_insert_at [OF this, of "nxt a"]
  have s: "sorted (map (\<lambda>p. Minute (heap a' p)) (archive a'))"
    by (simp add: a'_def min_b)
  have d: "distinct (archive a')"
    using distinct_insert_at [OF agg_okD(6) [OF ok] fresh_ptr(3) [OF ok]] by (simp add: a'_def)
  have wf: "wf2 (archiveIdx a')"
    using wf2_put [OF agg_okD(2) [OF ok] wf_map_put [OF wf2_inner [OF agg_okD(2) [OF ok]]], of m k "nxt a" m]
    by (simp add: a'_def inn)
  have eqp: "set (archive a') = set (ptrs (archiveIdx a'))"
    by (auto simp: setA ptrs_iff [OF wf] sl archive_iff [OF ok] split: if_splits) (metis no bkA fresh_ptr(2) ok inn slot_def fst_conv snd_conv option.distinct(1))+
  have dis: "keys (active a) \<inter> keys (archiveIdx a') = {}"
    using agg_okD(3) [OF ok] no by (auto simp: a'_def keys_iff disjoint_iff)
  have ptr: "p < nxt a' \<and> bucket_key (heap a' p) = mk"
    if "slot (active a) mk = Some p \<or> slot (archiveIdx a') mk = Some p" for mk p
    using that agg_okD(4,5) [OF ok, of mk p] key hp [of p]
    by (auto simp: sl fields h'_def split: if_splits)
  show ok': "agg_ok a'"
    unfolding agg_ok_def fields(1-3)
    using agg_okD(1,9-11) [OF ok] wf d s eqp dis ptr setA by auto
  show c: "cell a' = (cell a)((m, k) \<mapsto> nxt a)"
    using no by (intro ext) (auto simp: cell_def fields sl split: option.split)
  show "view a' = (view a)((m, k) \<mapsto> b)"
  proof
    fix mk
    show "view a' mk = ((view a)((m, k) \<mapsto> b)) mk"
      using cell_key [OF ok, of mk] by (cases "cell a mk") (auto simp: view_def c fields h'_def)
  qed
qed

lemma mark_dirty_ok: "agg_ok a \<Longrightarrow> p \<in> set (archive a) \<Longrightarrow> agg_ok (mark_dirty p a)"
  unfolding agg_ok_def by (auto simp: mark_dirty_def distinct_insert)

lemma mark_dirty_simps [simp]:
  "heap (mark_dirty p a) = heap a" "cell (mark_dirty p a) = cell a" "view (mark_dirty p a) = view a"
  "archive (mark_dirty p a) = archive a" "archiveIdx (mark_dirty p a) = archiveIdx a"
  "archiveLastWritten (mark_dirty p a) = archiveLastWritten a" "active (mark_dirty p a) = active a"
  "archiveDirty (mark_dirty p a) = List.insert p (archiveDirty a)"
  by (auto simp: mark_dirty_def cell_def view_def fun_eq_iff split: option.split)

text \<open>\<open>select_bucket\<close> returns the bucket of the request's key, creating it when it is missing,
  and touches nothing else.\<close>

definition bucket_or_new :: "sample \<Rightarrow> bucket option \<Rightarrow> bucket" where
  "bucket_or_new s v = (case v of Some b \<Rightarrow> b | None \<Rightarrow> new_bucket (s_minute s) (s_peer s) (s_stream s))"

lemma select_bucket_correct:
  assumes ok: "agg_ok a" and sel: "select_bucket s a = (p, a1)"
  shows "agg_ok a1 \<and> cell a1 (sample_key s) = Some p
    \<and> view a1 = (view a)(sample_key s \<mapsto> bucket_or_new s (view a (sample_key s)))"
proof -
  let ?m = "s_minute s" and ?k = "bkey (s_peer s) (s_stream s)"
  let ?b = "new_bucket ?m (s_peer s) (s_stream s)"
  have key: "bucket_key ?b = (?m, ?k)" by simp
  consider (act) bk q where "map_of (active a) ?m = Some bk" "map_of bk ?k = Some q"
    | (act_new) bk where "map_of (active a) ?m = Some bk" "map_of bk ?k = None"
    | (arc) bk q where "map_of (active a) ?m = None" "map_of (archiveIdx a) ?m = Some bk" "map_of bk ?k = Some q"
    | (arc_new) bk where "map_of (active a) ?m = None" "map_of (archiveIdx a) ?m = Some bk" "map_of bk ?k = None"
    | (new) "map_of (active a) ?m = None" "map_of (archiveIdx a) ?m = None"
    by (metis not_None_eq)
  then show ?thesis
  proof cases
    case act
    then have "p = q" "a1 = a" using sel by (auto simp: select_bucket_def Let_def)
    with act ok show ?thesis
      by (auto simp: cell_def sample_key_def view_def bucket_or_new_def fun_eq_iff)
  next
    case act_new
    then have p: "p = nxt a" and a1: "a1 = a\<lparr>heap := (heap a)(nxt a := ?b), nxt := nxt a + 1,
        active := put ?m (put ?k (nxt a) bk) (active a)\<rparr>"
      using sel by (auto simp: select_bucket_def Let_def alloc_def)
    note new_active_ok [OF ok _ _ _ _ key, of "put ?k (nxt a) bk"]
    moreover have "slot (active a) (?m, ?k) = None" "wf_map (put ?k (nxt a) bk)"
      using act_new wf2_map_of [OF agg_okD(1) [OF ok]] by (auto simp: slot_def inner_Some)
    moreover have "view a (?m, ?k) = None" using act_new by (simp add: view_def cell_def)
    ultimately show ?thesis
      using act_new agg_ok_disjoint [OF ok act_new(1)]
      by (simp add: p a1 sample_key_def bucket_or_new_def inner_Some)
  next
    case arc
    then have p: "p = q" and a1: "a1 = mark_dirty q a" using sel by (auto simp: select_bucket_def Let_def)
    have sl: "slot (archiveIdx a) (?m, ?k) = Some q" using arc by (simp add: slot_def inner_Some)
    then have "q \<in> set (archive a)" by (auto simp: archive_iff [OF ok])
    with arc sl show ?thesis
      by (auto simp: p a1 mark_dirty_ok [OF ok] cell_def sample_key_def view_def bucket_or_new_def fun_eq_iff)
  next
    case arc_new
    let ?a' = "a\<lparr>heap := (heap a)(nxt a := ?b), nxt := nxt a + 1,
      archiveIdx := put ?m (put ?k (nxt a) bk) (archiveIdx a),
      archive := insert_at (sortSearch (\<lambda>i. Minute (((heap a)(nxt a := ?b)) (archive a ! i)) \<ge> ?m) 0
        (length (archive a))) (nxt a) (archive a)\<rparr>"
    have p: "p = nxt a" and a1: "a1 = mark_dirty (nxt a) ?a'"
      using sel arc_new by (auto simp: select_bucket_def Let_def alloc_def)
    note ok' = new_archive_ok [OF ok arc_new key]
    have "nxt a \<in> set (archive ?a')" by simp
    from mark_dirty_ok [OF ok'(1) this] ok' arc_new show ?thesis
      by (simp add: p a1 sample_key_def bucket_or_new_def view_def [of a] cell_def [of a] slot_def inner_Some)
  next
    case new
    then have p: "p = nxt a" and a1: "a1 = a\<lparr>heap := (heap a)(nxt a := ?b), nxt := nxt a + 1,
        active := put ?m [(?k, nxt a)] (active a)\<rparr>"
      using sel by (auto simp: select_bucket_def Let_def alloc_def)
    note new_active_ok [OF ok _ _ _ _ key, of "[(?k, nxt a)]"]
    moreover have "wf_map [(?k, nxt a)]" by (simp add: wf_map_def)
    ultimately show ?thesis
      using new by (simp add: p a1 sample_key_def bucket_or_new_def slot_def inner_None view_def [of a] cell_def [of a])
  qed
qed

lemma ingest_correct:
  assumes ok: "agg_ok a"
  shows "agg_ok (ingest s a)"
    and "view (ingest s a) = (view a)(sample_key s \<mapsto> bump s (bucket_or_new s (view a (sample_key s))))"
proof -
  obtain p a1 where sel: "select_bucket s a = (p, a1)" by fastforce
  note c = select_bucket_correct [OF ok sel]
  then have v: "view a1 (sample_key s) = Some (bucket_or_new s (view a (sample_key s)))" by simp
  have cp: "cell a1 (sample_key s) = Some p" using c by simp
  have "heap a1 p = bucket_or_new s (view a (sample_key s))"
    using v cp unfolding view_def [of a1] by simp
  with c show "agg_ok (ingest s a)"
    and "view (ingest s a) = (view a)(sample_key s \<mapsto> bump s (bucket_or_new s (view a (sample_key s))))"
    by (auto simp: ingest_def sel agg_ok_heap_upd view_heap_upd)
qed

subsection \<open>flushClosedMinutes: moving the closed minutes\<close>

lemma close_buckets_frame [simp]:
  fixes acc :: flush_acc
  shows "heap (fa_agg (close_buckets m bk acc)) = heap (fa_agg acc)"
    "nxt (fa_agg (close_buckets m bk acc)) = nxt (fa_agg acc)"
    "active (fa_agg (close_buckets m bk acc)) = active (fa_agg acc)"
    "archive (fa_agg (close_buckets m bk acc)) = archive (fa_agg acc)"
    "archiveDirty (fa_agg (close_buckets m bk acc)) = archiveDirty (fa_agg acc)"
    "archiveKeepMin (fa_agg (close_buckets m bk acc)) = archiveKeepMin (fa_agg acc)"
    "fa_closed (close_buckets m bk acc) = fa_closed acc @ map (\<lambda>kp. heap (fa_agg acc) (snd kp)) bk"
    "fa_new (close_buckets m bk acc) = fa_new acc @ map snd bk"
  by (induction m bk acc rule: close_buckets.induct) (simp_all add: Let_def)

lemma close_buckets_slot:
  "wf_map bk \<Longrightarrow> slot (archiveIdx (fa_agg (close_buckets m bk acc))) mk =
     (if fst mk = m \<and> map_of bk (snd mk) \<noteq> None then map_of bk (snd mk)
      else slot (archiveIdx (fa_agg acc)) mk)"
  by (induction m bk acc rule: close_buckets.induct)
    (auto simp: Let_def prod_eq_iff split: if_splits)

lemma close_buckets_wf: "wf2 (archiveIdx (fa_agg acc)) \<Longrightarrow> wf2 (archiveIdx (fa_agg (close_buckets m bk acc)))"
  by (induction m bk acc rule: close_buckets.induct)
    (simp_all add: Let_def wf2_put wf_map_put wf2_inner)

lemma close_buckets_keys:
  "m \<in> keys (archiveIdx (fa_agg acc)) \<Longrightarrow>
     keys (archiveIdx (fa_agg (close_buckets m bk acc))) = keys (archiveIdx (fa_agg acc))"
proof (induction m bk acc rule: close_buckets.induct)
  case (2 m pkey b rest acc)
  then show ?case by (simp add: Let_def insert_absorb)
qed simp

lemma close_buckets_last:
  "map_of (archiveLastWritten (fa_agg (close_buckets m bk acc))) p =
     (if p \<in> snd ` set bk then Some (heap (fa_agg acc) p)
      else map_of (archiveLastWritten (fa_agg acc)) p)"
  by (induction m bk acc rule: close_buckets.induct) (auto simp: Let_def)

lemma ensure_idx_frame [simp]:
  "heap (ensure_idx m a) = heap a" "nxt (ensure_idx m a) = nxt a" "active (ensure_idx m a) = active a"
  "archive (ensure_idx m a) = archive a" "archiveDirty (ensure_idx m a) = archiveDirty a"
  "archiveLastWritten (ensure_idx m a) = archiveLastWritten a"
  "archiveKeepMin (ensure_idx m a) = archiveKeepMin a"
  by (simp_all add: ensure_idx_def split: option.split)

lemma ensure_idx_idx:
  "slot (archiveIdx (ensure_idx m a)) mk = slot (archiveIdx a) mk"
  "keys (archiveIdx (ensure_idx m a)) = insert m (keys (archiveIdx a))"
  "wf2 (archiveIdx a) \<Longrightarrow> wf2 (archiveIdx (ensure_idx m a))"
  by (auto simp: ensure_idx_def slot_put slot_def inner_None wf2_put keys_iff insert_absorb
      split: option.splits)

text \<open>The active entries older than the cutoff, and the ones that stay.\<close>

definition closing :: "int \<Rightarrow> (int \<times> ptr_map) list \<Rightarrow> (int \<times> ptr_map) list" where
  "closing c M = filter (\<lambda>mbk. fst mbk < c) M"

lemma closing_simps [simp]:
  "closing c [] = []"
  "closing c ((m, bk) # M) = (if m < c then (m, bk) # closing c M else closing c M)"
  by (simp_all add: closing_def)

lemma keys_closing: "keys (closing c M) = {m \<in> keys M. m < c}"
  by (force simp: keys_def closing_def)

lemma close_minutes_frame [simp]:
  fixes acc :: flush_acc
  shows "heap (fa_agg (close_minutes c M acc)) = heap (fa_agg acc)"
    "nxt (fa_agg (close_minutes c M acc)) = nxt (fa_agg acc)"
    "archive (fa_agg (close_minutes c M acc)) = archive (fa_agg acc)"
    "archiveDirty (fa_agg (close_minutes c M acc)) = archiveDirty (fa_agg acc)"
    "archiveKeepMin (fa_agg (close_minutes c M acc)) = archiveKeepMin (fa_agg acc)"
    "fa_new (close_minutes c M acc) = fa_new acc @ ptrs (closing c M)"
    "fa_closed (close_minutes c M acc) = fa_closed acc @ map (heap (fa_agg acc)) (ptrs (closing c M))"
  by (induction c M acc rule: close_minutes.induct) (simp_all add: Let_def comp_def)

lemma close_minutes_active:
  "map_of (active (fa_agg (close_minutes c M acc))) m =
     (if m < c \<and> m \<in> keys M then None else map_of (active (fa_agg acc)) m)"
  by (induction c M acc rule: close_minutes.induct) (auto simp: Let_def)

lemma close_minutes_active_wf:
  "wf2 (active (fa_agg acc)) \<Longrightarrow> wf2 (active (fa_agg (close_minutes c M acc)))"
  by (induction c M acc rule: close_minutes.induct) (auto simp: Let_def wf2_del)

lemma close_minutes_idx_wf:
  "wf2 (archiveIdx (fa_agg acc)) \<Longrightarrow> wf2 (archiveIdx (fa_agg (close_minutes c M acc)))"
  by (induction c M acc rule: close_minutes.induct)
    (auto simp: Let_def close_buckets_wf ensure_idx_idx)

lemma close_minutes_keys:
  "keys (archiveIdx (fa_agg (close_minutes c M acc))) = keys (archiveIdx (fa_agg acc)) \<union> keys (closing c M)"
  by (induction c M acc rule: close_minutes.induct)
    (auto simp: Let_def close_buckets_keys ensure_idx_idx)

lemma close_minutes_slot:
  "wf2 M \<Longrightarrow> slot (archiveIdx (fa_agg (close_minutes c M acc))) mk =
     (if fst mk < c \<and> slot M mk \<noteq> None then slot M mk else slot (archiveIdx (fa_agg acc)) mk)"
proof (induction c M acc rule: close_minutes.induct)
  case (2 c m bk rest acc)
  have wf: "wf_map bk" "wf2 rest" and no: "map_of rest m = None"
    using "2.prems" by (auto simp: wf2_def wf_map_def map_of_eq_None_iff)
  have sl: "slot ((m, bk) # rest) mk = (if fst mk = m then map_of bk (snd mk) else slot rest mk)"
    by (simp add: slot_def inner_def)
  have no': "slot rest mk = None" if "fst mk = m" using no that by (simp add: slot_def inner_None)
  show ?case
    using "2.IH" wf no' by (auto simp: sl Let_def close_buckets_slot [OF wf(1)] ensure_idx_idx)
qed simp

lemma close_minutes_last:
  "map_of (archiveLastWritten (fa_agg (close_minutes c M acc))) p =
     (if p \<in> set (ptrs (closing c M)) then Some (heap (fa_agg acc) p)
      else map_of (archiveLastWritten (fa_agg acc)) p)"
  by (induction c M acc rule: close_minutes.induct)
    (simp_all add: Let_def close_buckets_last)

text \<open>Pointers that determine their key are listed once.\<close>

lemma distinct_ptrs:
  "wf2 M \<Longrightarrow> (\<And>mk mk' p. slot M mk = Some p \<Longrightarrow> slot M mk' = Some p \<Longrightarrow> mk = mk') \<Longrightarrow> distinct (ptrs M)"
proof (induction M)
  case (Cons e M)
  obtain m bk where e: "e = (m, bk)" by fastforce
  have wf: "wf_map bk" "wf2 M" and no: "map_of M m = None"
    using Cons.prems(1) by (auto simp: e wf2_def)
  have sl: "slot (e # M) mk = (if fst mk = m then map_of bk (snd mk) else slot M mk)" for mk
    by (simp add: e slot_def inner_def)
  have slM: "slot (e # M) mk = Some p" if "slot M mk = Some p" for mk p
    using that no by (cases "fst mk = m") (simp_all add: sl, simp add: slot_def inner_None)
  have inj: "k = k'" if "map_of bk k = Some p" "map_of bk k' = Some p" for k k' p
    using Cons.prems(2) [of "(m, k)" p "(m, k')"] that by (simp add: sl)
  have "inj_on snd (set bk)"
    by (rule inj_onI) (metis inj map_of_SomeI [OF wf(1)] prod.collapse)
  then have "distinct (map snd bk)"
    using wf(1) by (simp add: distinct_map wf_map_def)
  moreover have "distinct (ptrs M)"
    by (rule Cons.IH [OF wf(2)]) (metis Cons.prems(2) slM)
  moreover have "p \<notin> snd ` set bk" if "p \<in> set (ptrs M)" for p
  proof
    assume "p \<in> snd ` set bk"
    then obtain k where "(k, p) \<in> set bk" by auto
    then have "map_of bk k = Some p" by (rule map_of_SomeI [OF wf(1)])
    then have 1: "slot (e # M) (m, k) = Some p" by (simp add: sl)
    from that obtain mk where mk: "slot M mk = Some p" by (auto simp: ptrs_iff [OF wf(2)])
    with no have "fst mk \<noteq> m" by (auto simp: slot_def inner_None)
    with Cons.prems(2) [OF 1 slM [OF mk]] show False by auto
  qed
  ultimately show ?case by (auto simp: e)
qed simp

definition moved :: "int \<Rightarrow> aggregator \<Rightarrow> aggregator" where
  "moved c a = (let a1 = fa_agg (close_minutes c (active a) \<lparr>fa_agg = a, fa_closed = [], fa_new = []\<rparr>)
     in a1\<lparr>archive := sort_key (\<lambda>p. Minute (heap a1 p)) (archive a1 @ ptrs (closing c (active a)))\<rparr>)"

lemma moved_frame [simp]:
  "heap (moved c a) = heap a" "nxt (moved c a) = nxt a" "archiveDirty (moved c a) = archiveDirty a"
  "archiveKeepMin (moved c a) = archiveKeepMin a"
  "set (archive (moved c a)) = set (archive a) \<union> set (ptrs (closing c (active a)))"
  by (simp_all add: moved_def Let_def)

lemma wf2_closing: "wf2 M \<Longrightarrow> wf2 (closing c M)"
  by (auto simp: wf2_def wf_map_def closing_def distinct_map_filter)

lemma slot_closing: "wf2 M \<Longrightarrow> slot (closing c M) mk = (if fst mk < c then slot M mk else None)"
proof (induction M)
  case (Cons e M)
  then show ?case by (cases e) (auto simp: slot_def inner_def wf2_def split: option.splits)
qed simp

lemma moved_slots:
  assumes "agg_ok a"
  shows "slot (active (moved c a)) mk = (if fst mk < c then None else slot (active a) mk)"
    and "slot (archiveIdx (moved c a)) mk =
      (if fst mk < c \<and> slot (active a) mk \<noteq> None then slot (active a) mk else slot (archiveIdx a) mk)"
proof -
  show "slot (archiveIdx (moved c a)) mk =
      (if fst mk < c \<and> slot (active a) mk \<noteq> None then slot (active a) mk else slot (archiveIdx a) mk)"
    by (auto simp: moved_def Let_def close_minutes_slot [OF agg_okD(1) [OF assms]])
  show "slot (active (moved c a)) mk = (if fst mk < c then None else slot (active a) mk)"
    by (auto simp: moved_def Let_def slot_def inner_def close_minutes_active keys_iff split: option.split)
qed

lemma moved_last:
  "map_of (archiveLastWritten (moved c a)) p =
     (if p \<in> set (ptrs (closing c (active a))) then Some (heap a p) else map_of (archiveLastWritten a) p)"
  by (simp add: moved_def Let_def close_minutes_last)

lemma moved_ok:
  assumes ok: "agg_ok a"
  shows "agg_ok (moved c a)" and "cell (moved c a) = cell a" and "view (moved c a) = view a"
proof -
  let ?a = "moved c a" and ?C = "closing c (active a)"
  note sl = moved_slots [OF ok, of c]
  have wfC: "wf2 ?C" by (rule wf2_closing [OF agg_okD(1) [OF ok]])
  have slC: "slot ?C mk = Some p \<longleftrightarrow> fst mk < c \<and> slot (active a) mk = Some p" for mk p
    by (simp add: slot_closing [OF agg_okD(1) [OF ok]])
  have wfs: "wf2 (active ?a)" "wf2 (archiveIdx ?a)"
    using agg_okD(1,2) [OF ok]
    by (simp_all add: moved_def Let_def close_minutes_active_wf close_minutes_idx_wf)
  have dis: "keys (active ?a) \<inter> keys (archiveIdx ?a) = {}"
    using agg_okD(3) [OF ok]
    by (auto simp: moved_def Let_def close_minutes_keys keys_closing keys_iff close_minutes_active
        disjoint_iff split: if_splits)
  have ptr: "p < nxt ?a \<and> bucket_key (heap ?a p) = mk"
    if "slot (active ?a) mk = Some p \<or> slot (archiveIdx ?a) mk = Some p" for mk p
    using that agg_okD(4,5) [OF ok, of mk p] by (auto simp: sl split: if_splits)
  have dC: "distinct (ptrs ?C)"
    using agg_okD(4) [OF ok] by (intro distinct_ptrs [OF wfC]) (metis slC)
  have disj: "p \<notin> set (ptrs ?C)" if p: "p \<in> set (archive a)" for p
  proof
    assume "p \<in> set (ptrs ?C)"
    then obtain mk where "slot (active a) mk = Some p" by (auto simp: ptrs_iff [OF wfC] slC)
    moreover obtain mk' where "slot (archiveIdx a) mk' = Some p" using p by (auto simp: archive_iff [OF ok])
    ultimately show False
      using agg_okD(4) [OF ok, of mk p] agg_okD(5) [OF ok, of mk' p] slot_disjoint [OF ok, of "fst mk" "snd mk" p "snd mk'"]
      by auto
  qed
  have arch: "set (archive ?a) = set (ptrs (archiveIdx ?a))"
    by (auto simp: ptrs_iff [OF wfs(2)] ptrs_iff [OF wfC] slC sl archive_iff [OF ok] split: if_splits)
      (metis option.distinct(1) slot_disjoint [OF ok] prod.collapse)+
  have d: "distinct (archive ?a)"
    using agg_okD(6) [OF ok] dC disj by (auto simp: moved_def Let_def)
  have srt: "sorted (map (\<lambda>p. Minute (heap ?a p)) (archive ?a))"
    by (simp add: moved_def Let_def)
  have last: "keys (archiveLastWritten ?a) \<subseteq> set (archive ?a)"
    using agg_okD(11) [OF ok] by (auto simp: keys_iff moved_last split: if_splits)
  show ok': "agg_ok ?a"
    unfolding agg_ok_def using wfs dis ptr arch d srt last agg_okD(9,10) [OF ok] by auto
  show c: "cell ?a = cell a"
    using slot_disjoint [OF ok]
    by (intro ext) (auto simp: cell_alt [OF ok] cell_alt [OF ok'] sl split: option.split)
  show "view ?a = view a" by (simp add: view_def fun_eq_iff c)
qed

subsection \<open>flushClosedMinutes: the delta lines\<close>

definition prev_of :: "aggregator \<Rightarrow> ptr \<Rightarrow> bucket" where
  "prev_of a p = (case map_of (archiveLastWritten a) p of Some l \<Rightarrow> l | None \<Rightarrow> zero_bucket)"

definition delta_of :: "aggregator \<Rightarrow> ptr \<Rightarrow> bucket" where
  "delta_of a p = bucket_delta (heap a p) (prev_of a p)"

text \<open>The pointers whose delta is written.\<close>

definition written :: "ptr list \<Rightarrow> ptr list \<Rightarrow> aggregator \<Rightarrow> ptr list" where
  "written new bs a = filter (\<lambda>p. p \<notin> set new \<and> Requests (delta_of a p) \<noteq> 0) bs"

lemma collect_dirty_frame [simp]:
  "heap (snd (collect_dirty new bs a)) = heap a" "nxt (snd (collect_dirty new bs a)) = nxt a"
  "active (snd (collect_dirty new bs a)) = active a" "archive (snd (collect_dirty new bs a)) = archive a"
  "archiveIdx (snd (collect_dirty new bs a)) = archiveIdx a"
  "archiveDirty (snd (collect_dirty new bs a)) = archiveDirty a"
  "archiveKeepMin (snd (collect_dirty new bs a)) = archiveKeepMin a"
  by (induction new bs a rule: collect_dirty.induct) (simp_all add: Let_def case_prod_unfold)

lemma delta_of_other:
  "b \<noteq> p \<Longrightarrow> delta_of (a\<lparr>archiveLastWritten := put b l (archiveLastWritten a)\<rparr>) p = delta_of a p"
  by (simp add: delta_of_def prev_of_def)

lemma written_put:
  "b \<notin> set bs \<Longrightarrow> written new bs (a\<lparr>archiveLastWritten := put b l (archiveLastWritten a)\<rparr>) = written new bs a"
  unfolding written_def by (rule filter_cong [OF refl]) (metis delta_of_other)

lemma collect_dirty_correct:
  "distinct bs \<Longrightarrow> fst (collect_dirty new bs a) = map (delta_of a) (written new bs a)
     \<and> map_of (archiveLastWritten (snd (collect_dirty new bs a))) p =
         (if p \<in> set (written new bs a) then Some (heap a p) else map_of (archiveLastWritten a) p)"
proof (induction new bs a rule: collect_dirty.induct)
  case (2 new b rest a)
  let ?prev = "case map_of (archiveLastWritten a) b of Some l \<Rightarrow> l | None \<Rightarrow> zero_bucket"
  let ?a = "a\<lparr>archiveLastWritten := put b (heap a b) (archiveLastWritten a)\<rparr>"
  have d: "delta_of a b = bucket_delta (heap a b) ?prev" by (simp add: delta_of_def prev_of_def)
  consider "b \<in> set new" | "b \<notin> set new" "Requests (delta_of a b) = 0"
    | "b \<notin> set new" "Requests (delta_of a b) \<noteq> 0" by blast
  then show ?case
  proof cases
    case 1
    then show ?thesis using "2.IH"(1) "2.prems" by (simp add: written_def)
  next
    case 2
    then show ?thesis using "2.IH"(2) [of ?prev "heap a b"] "2.prems" by (simp add: written_def d)
  next
    case 3
    have b: "b \<notin> set rest" "distinct rest" using "2.prems" by auto
    have "map (delta_of ?a) (written new rest a) = map (delta_of a) (written new rest a)"
    proof (rule map_cong [OF refl])
      fix x
      assume "x \<in> set (written new rest a)"
      then have "b \<noteq> x" using b by (auto simp: written_def)
      then show "delta_of ?a x = delta_of a x" by (rule delta_of_other)
    qed
    moreover have "b \<notin> set (written new rest a)" using b by (simp add: written_def)
    moreover have "written new (b # rest) a = b # written new rest a" using 3 by (simp add: written_def)
    ultimately show ?thesis
      using "2.IH"(3) [of ?prev "heap a b"] 3 b
      by (auto simp: d written_put Let_def split: prod.split)
  qed
qed (simp add: written_def)

text \<open>The state after the dirty loop and its reset.\<close>

definition settled :: "ptr list \<Rightarrow> aggregator \<Rightarrow> aggregator" where
  "settled new a = (snd (collect_dirty new (archiveDirty a) a))\<lparr>archiveDirty := []\<rparr>"

lemma settled_frame [simp]:
  "heap (settled new a) = heap a" "nxt (settled new a) = nxt a" "active (settled new a) = active a"
  "archive (settled new a) = archive a" "archiveIdx (settled new a) = archiveIdx a"
  "archiveDirty (settled new a) = []" "archiveKeepMin (settled new a) = archiveKeepMin a"
  by (simp_all add: settled_def)

lemma settled_cell [simp]: "cell (settled new a) = cell a" "view (settled new a) = view a"
  by (auto simp: cell_def view_def fun_eq_iff split: option.split)

lemma settled_last:
  "agg_ok a \<Longrightarrow> map_of (archiveLastWritten (settled new a)) p =
     (if p \<in> set (written new (archiveDirty a) a) then Some (heap a p) else map_of (archiveLastWritten a) p)"
  using collect_dirty_correct [OF agg_okD(9), of a new a p] by (simp add: settled_def)

lemma settled_ok: "agg_ok a \<Longrightarrow> agg_ok (settled new a)"
proof -
  assume ok: "agg_ok a"
  have "set (written new (archiveDirty a) a) \<subseteq> set (archive a)"
    using agg_okD(10) [OF ok] by (auto simp: written_def)
  then have "keys (archiveLastWritten (settled new a)) \<subseteq> set (archive a)"
    by (auto simp: keys_iff settled_last [OF ok] split: if_splits dest: last_archive [OF ok])
  then show ?thesis
    unfolding agg_ok_def using agg_okD(1-8) [OF ok] by simp
qed

subsection \<open>flushClosedMinutes: eviction\<close>

lemma foldl_del: "map_of (foldl (\<lambda>m p. del (f p) m) M ps) k = (if k \<in> f ` set ps then None else map_of M k)"
  by (induction ps arbitrary: M) auto

lemma wf2_foldl_del: "wf2 M \<Longrightarrow> wf2 (foldl (\<lambda>m p. del (f p) m) M ps)"
  by (induction ps arbitrary: M) (auto simp: wf2_del)

definition evict_now :: "int \<Rightarrow> aggregator \<Rightarrow> int \<Rightarrow> bool" where
  "evict_now now a m \<longleftrightarrow> archiveKeepMin a > 0 \<and> m < now - archiveKeepMin a * 60"

lemma evict_frame [simp]:
  "heap (evict now a) = heap a" "nxt (evict now a) = nxt a" "active (evict now a) = active a"
  "archiveDirty (evict now a) = archiveDirty a" "archiveKeepMin (evict now a) = archiveKeepMin a"
  by (simp_all add: evict_def Let_def)

lemma evict_archive:
  "agg_ok a \<Longrightarrow> archive (evict now a) = filter (\<lambda>p. \<not> evict_now now a (Minute (heap a p))) (archive a)"
proof -
  assume ok: "agg_ok a"
  note sp = sorted_filter_split [OF agg_okD(8) [OF ok]]
  show ?thesis
    using sp(2) by (simp add: evict_def evict_now_def Let_def flip: dropWhile_eq_drop)
qed

lemma evict_maps:
  assumes ok: "agg_ok a"
  shows "map_of (archiveIdx (evict now a)) m =
      (if \<exists>p \<in> set (archive a). Minute (heap a p) = m \<and> evict_now now a m then None else map_of (archiveIdx a) m)"
    and "map_of (archiveLastWritten (evict now a)) p =
      (if p \<in> set (archive a) \<and> evict_now now a (Minute (heap a p)) then None
       else map_of (archiveLastWritten a) p)"
  using sorted_filter_split(1) [OF agg_okD(8) [OF ok]]
  by (auto simp: evict_def evict_now_def Let_def foldl_del)

lemma evict_slot:
  assumes ok: "agg_ok a"
  shows "slot (archiveIdx (evict now a)) mk = (if evict_now now a (fst mk) then None else slot (archiveIdx a) mk)"
proof (cases "slot (archiveIdx a) mk")
  case None
  then show ?thesis
    by (auto simp: slot_def inner_def evict_maps(1) [OF ok] split: option.splits)
next
  case (Some p)
  then have "p \<in> set (archive a)" "Minute (heap a p) = fst mk"
    using agg_okD(5) [OF ok, of mk p] by (auto simp: archive_iff [OF ok] bucket_key_def)
  then show ?thesis
    by (auto simp: slot_def inner_def evict_maps(1) [OF ok])
qed

lemma evict_ok:
  assumes ok: "agg_ok a" and clean: "archiveDirty a = []"
  shows "agg_ok (evict now a)"
    and "view (evict now a) mk =
      (if evict_now now a (fst mk) \<and> slot (active a) mk = None then None else view a mk)"
proof -
  let ?a = "evict now a"
  note sl = evict_slot [OF ok, of now]
  have wf: "wf2 (archiveIdx ?a)"
    using agg_okD(2) [OF ok] by (simp add: evict_def Let_def wf2_foldl_del)
  have "set (archive ?a) = set (ptrs (archiveIdx ?a))"
    using agg_okD(5) [OF ok]
    by (auto simp: evict_archive [OF ok] ptrs_iff [OF wf] sl archive_iff [OF ok] bucket_key_def
        split: if_splits) fastforce+
  moreover have "keys (archiveLastWritten ?a) \<subseteq> set (archive ?a)"
    by (auto simp: keys_iff evict_maps(2) [OF ok] evict_archive [OF ok] split: if_splits
        dest: last_archive [OF ok])
  moreover have "sorted (map (\<lambda>p. Minute (heap a p)) (archive ?a))"
    using agg_okD(8) [OF ok] by (simp add: evict_archive [OF ok] sorted_filter)
  moreover have "keys (active a) \<inter> keys (archiveIdx ?a) = {}"
    using agg_okD(3) [OF ok] by (auto simp: keys_iff evict_maps(1) [OF ok] disjoint_iff split: if_splits)
  moreover have "p < nxt a \<and> bucket_key (heap a p) = mk"
    if "slot (active a) mk = Some p \<or> slot (archiveIdx ?a) mk = Some p" for mk p
    using that agg_okD(4,5) [OF ok, of mk p] by (auto simp: sl split: if_splits)
  moreover have "distinct (archive ?a)" using agg_okD(6) [OF ok] by (simp add: evict_archive [OF ok])
  ultimately show ok': "agg_ok ?a"
    unfolding agg_ok_def using agg_okD(1) [OF ok] wf clean by simp
  show "view ?a mk =
      (if evict_now now a (fst mk) \<and> slot (active a) mk = None then None else view a mk)"
    by (auto simp: view_def cell_alt [OF ok] cell_alt [OF ok'] sl split: option.split)
qed

subsection \<open>flushClosedMinutes: the whole step\<close>

lemma flush_locked_alt:
  fixes now1 now2 :: int
  assumes ok: "agg_ok a"
  defines "new \<equiv> ptrs (closing (now1 - 90) (active a))"
  shows "flush_locked now1 now2 a =
    (map (heap a) new, map (delta_of (moved (now1 - 90) a)) (written new (archiveDirty a) (moved (now1 - 90) a)),
     evict now2 (settled new (moved (now1 - 90) a)))"
proof -
  let ?acc = "close_minutes (now1 - 90) (active a) \<lparr>fa_agg = a, fa_closed = [], fa_new = []\<rparr>"
  let ?a2 = "if fa_new ?acc = [] then fa_agg ?acc
    else (fa_agg ?acc)\<lparr>archive := sort_key (\<lambda>p. Minute (heap (fa_agg ?acc) p)) (archive (fa_agg ?acc) @ fa_new ?acc)\<rparr>"
  have a2: "?a2 = moved (now1 - 90) a"
    using agg_okD(8) [OF ok]
    by (auto simp: moved_def Let_def sort_key_id_if_sorted)
  note cd = collect_dirty_correct [OF agg_okD(9) [OF moved_ok(1) [OF ok, of "now1 - 90"]], of new "moved (now1 - 90) a"]
  show ?thesis
    unfolding flush_locked_def Let_def a2
    using cd by (auto simp: new_def settled_def split: prod.split)
qed

lemma flush_correct:
  assumes ok: "agg_ok a" and fl: "flush_locked now1 now2 a = (cls, dirty, a')"
  shows "agg_ok a'"
    and "view a' mk = (if evict_now now2 a (fst mk) \<and> (fst mk < now1 - 90 \<or> slot (active a) mk = None)
      then None else view a mk)"
proof -
  define new where "new = ptrs (closing (now1 - 90) (active a))"
  let ?m = "moved (now1 - 90) a"
  have a': "a' = evict now2 (settled new ?m)"
    using fl by (simp add: flush_locked_alt [OF ok] new_def)
  have ok2: "agg_ok (settled new ?m)" by (rule settled_ok [OF moved_ok(1) [OF ok]])
  show "agg_ok a'" unfolding a' by (rule evict_ok(1) [OF ok2]) simp
  show "view a' mk = (if evict_now now2 a (fst mk) \<and> (fst mk < now1 - 90 \<or> slot (active a) mk = None)
      then None else view a mk)"
    unfolding a' by (subst evict_ok(2) [OF ok2])
      (auto simp: evict_now_def moved_ok(3) [OF ok] moved_slots [OF ok])
qed

end
