(* ===== verification/Aggregator_Log.thy ===== *)
theory Aggregator_Log
  imports Aggregator_Inv
begin

text \<open>
  What the aggregator writes to disk.  The states reachable from an empty aggregator by
  requests and flushes carry their history, and the ledger invariant says that for every
  (minute, peer, stream) and every counter the deltas cover, the lines on file plus what is
  still only in memory equal what was ingested: nothing is lost or counted twice, across late
  requests, repeated flushes and eviction.  \<open>reload\<close> then recovers the sums of the lines.
\<close>

subsection \<open>Lines on file\<close>

definition decoded :: "('l \<Rightarrow> bucket option) \<Rightarrow> 'l list \<Rightarrow> bucket list" where
  "decoded dec ls = List.map_filter dec ls"

definition key_sum :: "counter \<Rightarrow> int \<times> string \<Rightarrow> bucket list \<Rightarrow> int64" where
  "key_sum c mk bks = sum_list (map (ctr c) (filter (\<lambda>b. bucket_key b = mk) bks))"

lemma decoded_simps [simp]:
  "decoded dec [] = []"
  "decoded dec (l # ls) = (case dec l of None \<Rightarrow> decoded dec ls | Some b \<Rightarrow> b # decoded dec ls)"
  by (simp_all add: decoded_def map_filter_def split: option.split)

lemma decoded_append [simp]: "decoded dec (xs @ ys) = decoded dec xs @ decoded dec ys"
  by (simp add: decoded_def map_filter_def)

lemma decoded_enc: "(\<And>b. dec (enc b) = Some b) \<Longrightarrow> decoded dec (map enc bks) = bks"
  by (induction bks) auto

lemma key_sum_append [simp]: "key_sum c mk (xs @ ys) = key_sum c mk xs + key_sum c mk ys"
  by (simp add: key_sum_def)

lemma key_sum_simps [simp]:
  "key_sum c mk [] = 0"
  "key_sum c mk (b # bks) = (if bucket_key b = mk then ctr c b + key_sum c mk bks else key_sum c mk bks)"
  by (simp_all add: key_sum_def)

lemma file_lines_put [simp]:
  "file_lines (put d ls fs) day = (if day = d then ls else file_lines fs day)"
  by (simp add: file_lines_def)

lemma file_lines_Nil [simp]: "file_lines [] day = []"
  by (simp add: file_lines_def)

lemma group_by_day_lines:
  "file_lines (group_by_day dayOf bks) day = filter (\<lambda>b. dayOf (Minute b) = day) bks"
  by (induction bks) (auto simp: Let_def)

lemma group_by_day_wf: "wf_map (group_by_day dayOf bks)"
  by (induction bks) (auto simp: Let_def)

lemma append_days_lines:
  "wf_map g \<Longrightarrow> file_lines (append_days writable enc g fs) day =
     file_lines fs day @ (if writable day then map enc (file_lines g day) else [])"
proof (induction writable enc g fs rule: append_days.induct)
  case (2 writable enc d bs rest fs)
  have "file_lines ((d, bs) # rest) day = (if day = d then bs else file_lines rest day)"
    by (simp add: file_lines_def)
  moreover have "file_lines rest d = []" using "2.prems" by (simp add: file_lines_def)
  ultimately show ?case using 2 by auto
qed simp

text \<open>Each bucket goes to the file of its own minute's day, in order, if that file opens.\<close>

lemma appendToFile_lines:
  "file_lines (appendToFile writable dayOf enc bks fs) day =
     file_lines fs day @ (if writable day then map enc (filter (\<lambda>b. dayOf (Minute b) = day) bks) else [])"
  by (simp add: appendToFile_def append_days_lines group_by_day_wf group_by_day_lines)

lemma flush_lines:
  assumes "flush_locked now1 now2 a = (cls, dirty, a')"
  shows "flushClosedMinutes writable dayOf enc now1 now2 (a, fs) =
    (a', snd (flushClosedMinutes writable dayOf enc now1 now2 (a, fs)))"
    and "file_lines (snd (flushClosedMinutes writable dayOf enc now1 now2 (a, fs))) day =
      file_lines fs day @ (if writable day then map enc (filter (\<lambda>b. dayOf (Minute b) = day) (cls @ dirty)) else [])"
  using assms by (auto simp: flushClosedMinutes_def Let_def appendToFile_lines)

text \<open>The lines on file for a key: those of the file of its minute's day.\<close>

definition on_file :: "(int \<Rightarrow> string) \<Rightarrow> ('l \<Rightarrow> bucket option) \<Rightarrow> 'l files \<Rightarrow> counter \<Rightarrow> int \<times> string \<Rightarrow> int64" where
  "on_file dayOf dec fs c mk = key_sum c mk (decoded dec (file_lines fs (dayOf (fst mk))))"

lemma key_sum_filter:
  "key_sum c mk (filter (\<lambda>b. dayOf (Minute b) = dayOf (fst mk)) bks) = key_sum c mk bks"
  by (induction bks) (auto simp: bucket_key_def)

lemma on_file_flush:
  assumes "flush_locked now1 now2 a = (cls, dirty, a')" and "\<And>b. dec (enc b) = Some b"
    and "writable (dayOf (fst mk))"
  shows "on_file dayOf dec (snd (flushClosedMinutes writable dayOf enc now1 now2 (a, fs))) c mk =
    on_file dayOf dec fs c mk + key_sum c mk (cls @ dirty)"
  unfolding on_file_def flush_lines(2) [OF assms(1)]
  using decoded_enc [of dec enc, OF assms(2)]
  by (simp add: assms(3) key_sum_filter del: filter_append)

subsection \<open>select_bucket, in terms of pointers\<close>

lemma select_bucket_ptrs:
  assumes ok: "agg_ok a" and sel: "select_bucket s a = (p, a1)"
  shows "archiveLastWritten a1 = archiveLastWritten a"
    and "cell a1 = (cell a)(sample_key s \<mapsto> p)"
    and "heap a1 = (heap a)(p := bucket_or_new s (view a (sample_key s)))"
    and "cell a (sample_key s) = Some p \<or> (cell a (sample_key s) = None \<and> p = nxt a)"
    and "set (archive a1) \<subseteq> insert p (set (archive a))"
    and "set (archiveDirty a) \<subseteq> set (archiveDirty a1)"
    and "set (archiveDirty a1) \<subseteq> insert p (set (archiveDirty a))"
    and "p \<in> set (archive a1) \<Longrightarrow> p \<in> set (archiveDirty a1)"
proof -
  let ?m = "s_minute s" and ?k = "bkey (s_peer s) (s_stream s)"
  let ?b = "new_bucket ?m (s_peer s) (s_stream s)"
  have nomem: "q \<notin> set (archive a)" if "map_of (active a) ?m = Some bk" "map_of bk ?k = Some q" for bk q
  proof
    assume "q \<in> set (archive a)"
    then have "cell a (bucket_key (heap a q)) = Some q" "slot (archiveIdx a) (bucket_key (heap a q)) = Some q"
      using agg_okD(5) [OF ok] by (auto simp: archive_cell [OF ok] archive_iff [OF ok])
    moreover have "slot (active a) (?m, ?k) = Some q" using that by (simp add: slot_def inner_Some)
    ultimately show False
      using slot_disjoint [OF ok, of ?m ?k q ?k] agg_okD(4) [OF ok, of "(?m, ?k)" q] by auto
  qed
  consider (act) bk q where "map_of (active a) ?m = Some bk" "map_of bk ?k = Some q" "p = q" "a1 = a"
    | (act_new) bk where "map_of (active a) ?m = Some bk" "map_of bk ?k = None" "p = nxt a"
        "a1 = a\<lparr>heap := (heap a)(nxt a := ?b), nxt := nxt a + 1, active := put ?m (put ?k (nxt a) bk) (active a)\<rparr>"
    | (arc) bk q where "map_of (active a) ?m = None" "map_of (archiveIdx a) ?m = Some bk"
        "map_of bk ?k = Some q" "p = q" "a1 = mark_dirty q a"
    | (arc_new) bk i where "map_of (active a) ?m = None" "map_of (archiveIdx a) ?m = Some bk"
        "map_of bk ?k = None" "p = nxt a"
        "a1 = mark_dirty (nxt a) (a\<lparr>heap := (heap a)(nxt a := ?b), nxt := nxt a + 1,
           archiveIdx := put ?m (put ?k (nxt a) bk) (archiveIdx a), archive := insert_at i (nxt a) (archive a)\<rparr>)"
    | (new) "map_of (active a) ?m = None" "map_of (archiveIdx a) ?m = None" "p = nxt a"
        "a1 = a\<lparr>heap := (heap a)(nxt a := ?b), nxt := nxt a + 1, active := put ?m [(?k, nxt a)] (active a)\<rparr>"
    using sel by (auto simp: select_bucket_def Let_def alloc_def split: option.splits)
  note c = this
  note fresh = fresh_ptr [OF ok]
  show "archiveLastWritten a1 = archiveLastWritten a" by (cases rule: c) auto
  show "cell a1 = (cell a)(sample_key s \<mapsto> p)"
    by (cases rule: c) (auto simp: cell_def sample_key_def fun_eq_iff slot_def inner_def split: option.splits)
  show "heap a1 = (heap a)(p := bucket_or_new s (view a (sample_key s)))"
    by (cases rule: c) (auto simp: view_def cell_def sample_key_def bucket_or_new_def slot_def inner_def)
  show "cell a (sample_key s) = Some p \<or> (cell a (sample_key s) = None \<and> p = nxt a)"
    by (cases rule: c) (auto simp: cell_def sample_key_def slot_def inner_def)
  show "set (archive a1) \<subseteq> insert p (set (archive a))"
    and "set (archiveDirty a) \<subseteq> set (archiveDirty a1)"
    and "set (archiveDirty a1) \<subseteq> insert p (set (archiveDirty a))"
    by (cases rule: c; force)+
  show "p \<in> set (archive a1) \<Longrightarrow> p \<in> set (archiveDirty a1)"
    using nomem fresh by (cases rule: c) auto
qed

subsection \<open>flushClosedMinutes, in terms of pointers\<close>

definition closing_ptrs :: "int \<Rightarrow> aggregator \<Rightarrow> ptr list" where
  "closing_ptrs now1 a = ptrs (closing (now1 - 90) (active a))"

definition written_ptrs :: "int \<Rightarrow> aggregator \<Rightarrow> ptr list" where
  "written_ptrs now1 a = written (closing_ptrs now1 a) (archiveDirty a) a"

lemma closing_ptrs_iff:
  "agg_ok a \<Longrightarrow> p \<in> set (closing_ptrs now1 a) \<longleftrightarrow> (\<exists>mk. fst mk < now1 - 90 \<and> slot (active a) mk = Some p)"
  by (auto simp: closing_ptrs_def ptrs_iff wf2_closing slot_closing agg_okD)

lemma active_not_archived:
  assumes ok: "agg_ok a" and "slot (active a) mk = Some p"
  shows "p \<notin> set (archive a)" and "prev_of a p = zero_bucket" and "cell a mk = Some p"
proof -
  show np: "p \<notin> set (archive a)"
  proof
    assume "p \<in> set (archive a)"
    then obtain mk' where "slot (archiveIdx a) mk' = Some p" by (auto simp: archive_iff [OF ok])
    with assms(2) show False
      using agg_okD(4,5) [OF ok] slot_disjoint [OF ok, of "fst mk" "snd mk" p "snd mk'"] by fastforce
  qed
  then show "prev_of a p = zero_bucket"
    using last_archive [OF ok, of p] by (auto simp: prev_of_def split: option.split)
  show "cell a mk = Some p" using assms by (simp add: cell_alt)
qed

lemma moved_prev:
  "agg_ok a \<Longrightarrow> prev_of (moved (now1 - 90) a) p =
     (if p \<in> set (closing_ptrs now1 a) then heap a p else prev_of a p)"
  by (simp add: prev_of_def moved_last closing_ptrs_def)

lemma moved_written:
  assumes "agg_ok a"
  shows "written (closing_ptrs now1 a) (archiveDirty a) (moved (now1 - 90) a) = written_ptrs now1 a"
    and "map (delta_of (moved (now1 - 90) a)) (written_ptrs now1 a) = map (delta_of a) (written_ptrs now1 a)"
proof -
  have d: "delta_of (moved (now1 - 90) a) p = delta_of a p" if "p \<notin> set (closing_ptrs now1 a)" for p
    using that by (simp add: delta_of_def moved_prev [OF assms])
  then show "written (closing_ptrs now1 a) (archiveDirty a) (moved (now1 - 90) a) = written_ptrs now1 a"
    unfolding written_ptrs_def written_def by (intro filter_cong [OF refl]) auto
  show "map (delta_of (moved (now1 - 90) a)) (written_ptrs now1 a) = map (delta_of a) (written_ptrs now1 a)"
    using d by (auto simp: written_ptrs_def written_def)
qed

lemma flush_ptrs:
  assumes ok: "agg_ok a" and fl: "flush_locked now1 now2 a = (cls, dirty, a')"
  shows "cls = map (heap a) (closing_ptrs now1 a)" and "dirty = map (delta_of a) (written_ptrs now1 a)"
    and "heap a' = heap a" and "archiveDirty a' = []"
    and "cell a' mk = (if evict_now now2 a (fst mk) \<and> (fst mk < now1 - 90 \<or> slot (active a) mk = None)
      then None else cell a mk)"
    and "cell a' mk = Some p \<Longrightarrow> prev_of a' p =
      (if p \<in> set (closing_ptrs now1 a) \<union> set (written_ptrs now1 a) then heap a p else prev_of a p)"
    and "p \<in> set (archive a') \<Longrightarrow> p \<in> set (archive a) \<or> p \<in> set (closing_ptrs now1 a)"
proof -
  let ?m = "moved (now1 - 90) a" and ?new = "closing_ptrs now1 a"
  let ?s = "settled ?new ?m"
  note alt = flush_locked_alt [OF ok, of now1 now2, folded closing_ptrs_def, unfolded moved_written [OF ok]]
  show "cls = map (heap a) ?new" "dirty = map (delta_of a) (written_ptrs now1 a)"
    using fl by (simp_all add: alt)
  have a': "a' = evict now2 ?s" using fl by (simp add: alt)
  have okm: "agg_ok ?m" by (rule moved_ok(1) [OF ok])
  have oks: "agg_ok ?s" by (rule settled_ok [OF okm])
  show h: "heap a' = heap a" and "archiveDirty a' = []" by (simp_all add: a')
  have oka: "agg_ok a'" by (rule flush_correct(1) [OF ok fl])
  have ev: "evict_now now2 ?s = evict_now now2 a" by (simp add: fun_eq_iff evict_now_def)
  show c: "cell a' mk = (if evict_now now2 a (fst mk) \<and> (fst mk < now1 - 90 \<or> slot (active a) mk = None)
      then None else cell a mk)" for mk
    unfolding cell_alt [OF oka] cell_alt [OF ok]
    by (auto simp: a' evict_slot [OF oks] ev moved_slots [OF ok] split: option.split)
  have last_s: "map_of (archiveLastWritten ?s) q =
    (if q \<in> set (written_ptrs now1 a) then Some (heap a q) else map_of (archiveLastWritten ?m) q)" for q
    by (simp add: settled_last [OF okm] moved_written [OF ok])
  show "prev_of a' p =
      (if p \<in> set ?new \<union> set (written_ptrs now1 a) then heap a p else prev_of a p)" if cl: "cell a' mk = Some p"
  proof -
    have "slot (active a) mk = Some p \<and> \<not> fst mk < now1 - 90 \<or> \<not> evict_now now2 a (fst mk)"
      using cl by (auto simp: c cell_alt [OF ok] split: if_splits option.splits)
    moreover have "cell a mk = Some p" using cl by (simp add: c split: if_splits)
    then have k: "bucket_key (heap a p) = mk" using cell_key [OF ok] by blast
    ultimately have "\<not> (p \<in> set (archive ?s) \<and> evict_now now2 ?s (Minute (heap ?s p)))"
      using active_not_archived(1) [OF okm, of mk p]
      by (auto simp: ev bucket_key_def moved_slots [OF ok] simp del: moved_frame(5))
    then have "map_of (archiveLastWritten a') p = map_of (archiveLastWritten ?s) p"
      unfolding a' by (subst evict_maps(2) [OF oks]) auto
    then show ?thesis
      by (simp add: prev_of_def last_s moved_last [of "now1 - 90" a, folded closing_ptrs_def])
  qed
  show "p \<in> set (archive a) \<or> p \<in> set ?new" if "p \<in> set (archive a')"
  proof -
    have "p \<in> set (archive ?m)" using that by (simp add: a' evict_archive [OF oks])
    then show ?thesis by (auto simp: closing_ptrs_def moved_def Let_def)
  qed
qed

lemma key_sum_ptrs:
  assumes ok: "agg_ok a" and "distinct ps"
    and "\<And>p. p \<in> set ps \<Longrightarrow> bucket_key (g p) = bucket_key (heap a p) \<and> cell a (bucket_key (heap a p)) = Some p"
  shows "key_sum c mk (map g ps) = (case cell a mk of None \<Rightarrow> 0 | Some p \<Rightarrow> if p \<in> set ps then ctr c (g p) else 0)"
  using assms(2,3)
proof (induction ps)
  case (Cons p ps)
  have "bucket_key (g p) = mk \<longleftrightarrow> cell a mk = Some p"
    using Cons.prems(2) [of p] cell_key [OF ok, of mk p] by auto
  with Cons show ?case by (auto split: option.splits)
qed (auto split: option.split)

subsection \<open>The ledger\<close>

text \<open>States reachable from an empty aggregator and an empty directory, with the requests
  ingested so far (latest first).  Ingests and flushes come in any order, at any clock
  readings; every append succeeds.\<close>

inductive agg_run ::
  "(int \<Rightarrow> string) \<Rightarrow> (bucket \<Rightarrow> 'l) \<Rightarrow> int \<Rightarrow> sample list \<Rightarrow> aggregator \<times> 'l files \<Rightarrow> bool"
  for dayOf enc keep where
  start: "agg_run dayOf enc keep [] (newAggregator keep, [])"
| request: "agg_run dayOf enc keep hist (a, fs) \<Longrightarrow> agg_run dayOf enc keep (s # hist) (ingest s a, fs)"
| flush: "agg_run dayOf enc keep hist st \<Longrightarrow>
    agg_run dayOf enc keep hist (flushClosedMinutes (\<lambda>_. True) dayOf enc now1 now2 st)"

definition ingested :: "sample list \<Rightarrow> counter \<Rightarrow> int \<times> string \<Rightarrow> int64" where
  "ingested hist c mk = sum_list (map (\<lambda>s. inc s c) (filter (\<lambda>s. sample_key s = mk) hist))"

text \<open>The part of a bucket no line on file covers yet.\<close>

definition unwritten :: "aggregator \<Rightarrow> counter \<Rightarrow> ptr \<Rightarrow> int64" where
  "unwritten a c p = ctr c (heap a p) - ctr c (prev_of a p)"

definition in_memory :: "aggregator \<Rightarrow> counter \<Rightarrow> int \<times> string \<Rightarrow> int64" where
  "in_memory a c mk = (case cell a mk of None \<Rightarrow> 0 | Some p \<Rightarrow> unwritten a c p)"

text \<open>Besides the representation invariant: an archived bucket that is not marked dirty is
  completely on file; a dirty one has between 1 and \<open>n\<close> unwritten requests, where \<open>n\<close> is the
  number of requests so far; and the ledger balances for every key and covered counter.\<close>

definition ledger_ok :: "(int \<Rightarrow> string) \<Rightarrow> ('l \<Rightarrow> bucket option) \<Rightarrow> sample list \<Rightarrow> aggregator \<times> 'l files \<Rightarrow> bool" where
  "ledger_ok dayOf dec hist st \<longleftrightarrow> agg_ok (fst st)
   \<and> (\<forall>p \<in> set (archive (fst st)). p \<notin> set (archiveDirty (fst st)) \<longrightarrow> prev_of (fst st) p = heap (fst st) p)
   \<and> (\<forall>mk p. cell (fst st) mk = Some p \<longrightarrow>
        unat (unwritten (fst st) CRequests p) \<le> length hist
        \<and> (p \<in> set (archiveDirty (fst st)) \<longrightarrow> unwritten (fst st) CRequests p \<noteq> 0))
   \<and> (\<forall>c mk. \<not> frt_counter c \<longrightarrow>
        on_file dayOf dec (snd st) c mk + in_memory (fst st) c mk = ingested hist c mk)"

lemma ledger_okD:
  assumes "ledger_ok dayOf dec hist (a, fs)"
  shows "agg_ok a"
    and "\<And>p. p \<in> set (archive a) \<Longrightarrow> p \<notin> set (archiveDirty a) \<Longrightarrow> prev_of a p = heap a p"
    and "\<And>mk p. cell a mk = Some p \<Longrightarrow> unat (unwritten a CRequests p) \<le> length hist"
    and "\<And>mk p. cell a mk = Some p \<Longrightarrow> p \<in> set (archiveDirty a) \<Longrightarrow> unwritten a CRequests p \<noteq> 0"
    and "\<And>c mk. \<not> frt_counter c \<Longrightarrow> on_file dayOf dec fs c mk + in_memory a c mk = ingested hist c mk"
  using assms by (auto simp: ledger_ok_def)

lemma ledger_start: "ledger_ok dayOf dec [] (newAggregator k, [])"
  by (simp add: ledger_ok_def agg_ok_new cell_def slot_def on_file_def in_memory_def ingested_def)
    (simp add: newAggregator_def)

lemma unat_Suc: "unat (x :: int64) < 2 ^ 64 - 1 \<Longrightarrow> unat (x + 1) = unat x + 1"
  by (simp add: unat_word_ariths)

lemma ingest_ptrs:
  assumes ok: "agg_ok a"
  obtains p where "cell (ingest s a) = (cell a)(sample_key s \<mapsto> p)"
    and "cell a (sample_key s) = Some p \<or> (cell a (sample_key s) = None \<and> p = nxt a)"
    and "\<And>q. prev_of (ingest s a) q = prev_of a q" and "cell a (sample_key s) = None \<Longrightarrow> prev_of a p = zero_bucket"
    and "heap (ingest s a) = (heap a)(p := bump s (bucket_or_new s (view a (sample_key s))))"
    and "set (archive (ingest s a)) \<subseteq> insert p (set (archive a))"
    and "set (archiveDirty a) \<subseteq> set (archiveDirty (ingest s a))"
    and "set (archiveDirty (ingest s a)) \<subseteq> insert p (set (archiveDirty a))"
    and "p \<in> set (archive (ingest s a)) \<Longrightarrow> p \<in> set (archiveDirty (ingest s a))"
proof -
  obtain p a1 where sel: "select_bucket s a = (p, a1)" by fastforce
  note c = select_bucket_ptrs [OF ok sel]
  have i: "ingest s a = a1\<lparr>heap := (heap a1)(p := bump s (heap a1 p))\<rparr>" by (simp add: ingest_def sel)
  have "cell (ingest s a) = cell a1" by (auto simp: i cell_def fun_eq_iff split: option.split)
  moreover have "map_of (archiveLastWritten a) (nxt a) = None"
    using last_archive [OF ok, of "nxt a"] fresh_ptr(3) [OF ok] by (cases "map_of (archiveLastWritten a) (nxt a)") auto
  ultimately show ?thesis
    using c by (intro that [of p]) (auto simp: i prev_of_def)
qed

lemma unat_Suc_bound: "unat (x :: int64) \<le> n \<Longrightarrow> n < 2 ^ 64 - 1 \<Longrightarrow> unat (x + 1) \<le> Suc n \<and> x + 1 \<noteq> 0"
  using unat_Suc [of x] by (auto simp: unat_eq_0 [symmetric])

lemma ledger_ingest:
  assumes led: "ledger_ok dayOf dec hist (a, fs)" and len: "length (s # hist) < 2 ^ 64"
  shows "ledger_ok dayOf dec (s # hist) (ingest s a, fs)"
proof -
  note ok = ledger_okD(1) [OF led]
  let ?sk = "sample_key s"
  obtain p where c: "cell (ingest s a) = (cell a)(?sk \<mapsto> p)"
    and old: "cell a ?sk = Some p \<or> (cell a ?sk = None \<and> p = nxt a)"
    and prev: "\<And>q. prev_of (ingest s a) q = prev_of a q" "cell a ?sk = None \<Longrightarrow> prev_of a p = zero_bucket"
    and h: "heap (ingest s a) = (heap a)(p := bump s (bucket_or_new s (view a ?sk)))"
    and arc: "set (archive (ingest s a)) \<subseteq> insert p (set (archive a))"
    and dirty: "set (archiveDirty a) \<subseteq> set (archiveDirty (ingest s a))"
      "set (archiveDirty (ingest s a)) \<subseteq> insert p (set (archiveDirty a))"
      "p \<in> set (archive (ingest s a)) \<Longrightarrow> p \<in> set (archiveDirty (ingest s a))"
    by (rule ingest_ptrs [OF ok, of s], rule that) simp_all
  have at_p: "unwritten (ingest s a) c p = in_memory a c ?sk + inc s c" for c
    using old prev(2)
    by (auto simp: unwritten_def in_memory_def prev(1) h ctr_bump view_def bucket_or_new_def)
  have other: "q \<noteq> p \<and> unwritten (ingest s a) c q = unwritten a c q"
    if "cell a mk = Some q" "mk \<noteq> ?sk" for mk q c
  proof -
    have "q \<noteq> p" using that old cell_inj [OF ok, of mk q ?sk] cell_key [OF ok, of mk q] by auto
    then show ?thesis by (simp add: unwritten_def prev(1) h)
  qed
  have bound: "unat (in_memory a CRequests ?sk) \<le> length hist"
    using ledger_okD(3) [OF led, of ?sk] by (auto simp: in_memory_def split: option.split)
  have mem: "in_memory (ingest s a) c mk = in_memory a c mk + (if mk = ?sk then inc s c else 0)" for c mk
    using at_p [of c] other [of mk _ c] by (auto simp: in_memory_def c split: option.split)
  have "prev_of (ingest s a) q = heap (ingest s a) q"
    if "q \<in> set (archive (ingest s a))" "q \<notin> set (archiveDirty (ingest s a))" for q
    using that arc dirty ledger_okD(2) [OF led, of q] by (auto simp: prev(1) h)
  moreover have "unat (unwritten (ingest s a) CRequests q) \<le> length (s # hist)
      \<and> (q \<in> set (archiveDirty (ingest s a)) \<longrightarrow> unwritten (ingest s a) CRequests q \<noteq> 0)"
    if "cell (ingest s a) mk = Some q" for mk q
  proof (cases "mk = ?sk")
    case True
    then have "q = p" using that by (simp add: c)
    then show ?thesis using unat_Suc_bound [OF bound] len by (simp add: at_p)
  next
    case False
    then have "cell a mk = Some q" using that by (simp add: c)
    with False show ?thesis
      using other [of mk q CRequests] ledger_okD(3,4) [OF led, of mk q] dirty(2) by auto
  qed
  moreover have "on_file dayOf dec fs c mk + in_memory (ingest s a) c mk = ingested (s # hist) c mk"
    if "\<not> frt_counter c" for c mk
    using ledger_okD(5) [OF led that, of mk] by (auto simp: mem ingested_def)
  ultimately show ?thesis
    using ingest_correct(1) [OF ok] by (simp add: ledger_ok_def)
qed

lemma not_written_clean:
  assumes led: "ledger_ok dayOf dec hist (a, fs)" and p: "p \<in> set (archive a)"
    and "p \<notin> set (closing_ptrs now1 a)" and "p \<notin> set (written_ptrs now1 a)"
  shows "prev_of a p = heap a p"
proof (rule ledger_okD(2) [OF led p])
  show "p \<notin> set (archiveDirty a)"
  proof
    assume d: "p \<in> set (archiveDirty a)"
    have "unwritten a CRequests p \<noteq> 0"
      using ledger_okD(4) [OF led archive_cell [OF ledger_okD(1) [OF led] p] d] .
    then show False
      using assms(3,4) d ctr_delta [of CRequests "heap a p" "prev_of a p"]
      by (simp add: written_ptrs_def written_def delta_of_def unwritten_def frt_counter_def)
  qed
qed

lemma closing_key_sum:
  assumes ok: "agg_ok a"
  shows "key_sum c mk (map (heap a) (closing_ptrs now1 a)) =
      (case cell a mk of None \<Rightarrow> 0 | Some p \<Rightarrow> if p \<in> set (closing_ptrs now1 a) then ctr c (heap a p) else 0)"
    and "\<not> frt_counter c \<Longrightarrow> key_sum c mk (map (delta_of a) (written_ptrs now1 a)) =
      (case cell a mk of None \<Rightarrow> 0 | Some p \<Rightarrow> if p \<in> set (written_ptrs now1 a) then unwritten a c p else 0)"
proof -
  show "key_sum c mk (map (heap a) (closing_ptrs now1 a)) =
      (case cell a mk of None \<Rightarrow> 0 | Some p \<Rightarrow> if p \<in> set (closing_ptrs now1 a) then ctr c (heap a p) else 0)"
  proof (rule key_sum_ptrs [OF ok])
    show "distinct (closing_ptrs now1 a)"
      unfolding closing_ptrs_def
      by (rule distinct_ptrs) (use agg_okD(1) [OF ok] agg_okD(4) [OF ok] in \<open>simp_all add: wf2_closing slot_closing split: if_splits, metis\<close>)
    show "bucket_key (heap a p) = bucket_key (heap a p) \<and> cell a (bucket_key (heap a p)) = Some p"
      if "p \<in> set (closing_ptrs now1 a)" for p
      using that active_not_archived(3) [OF ok] agg_okD(4) [OF ok] by (auto simp: closing_ptrs_iff [OF ok])
  qed
  have sub: "set (written_ptrs now1 a) \<subseteq> set (archive a)"
    using agg_okD(10) [OF ok] by (auto simp: written_ptrs_def written_def)
  have "key_sum c mk (map (delta_of a) (written_ptrs now1 a)) =
      (case cell a mk of None \<Rightarrow> 0 | Some p \<Rightarrow> if p \<in> set (written_ptrs now1 a) then ctr c (delta_of a p) else 0)"
  proof (rule key_sum_ptrs [OF ok])
    show "distinct (written_ptrs now1 a)"
      using agg_okD(9) [OF ok] by (simp add: written_ptrs_def written_def)
    show "bucket_key (delta_of a p) = bucket_key (heap a p) \<and> cell a (bucket_key (heap a p)) = Some p"
      if "p \<in> set (written_ptrs now1 a)" for p
      using that sub archive_cell [OF ok, of p] by (auto simp: delta_of_def)
  qed
  then show "key_sum c mk (map (delta_of a) (written_ptrs now1 a)) =
      (case cell a mk of None \<Rightarrow> 0 | Some p \<Rightarrow> if p \<in> set (written_ptrs now1 a) then unwritten a c p else 0)"
    if "\<not> frt_counter c"
    using that by (auto simp: delta_of_def ctr_delta unwritten_def split: option.split)
qed

lemma ledger_flush:
  assumes led: "ledger_ok dayOf dec hist (a, fs)" and de: "\<And>b. dec (enc b) = Some b"
  shows "ledger_ok dayOf dec hist (flushClosedMinutes (\<lambda>_. True) dayOf enc now1 now2 (a, fs))"
proof -
  note ok = ledger_okD(1) [OF led]
  obtain cls dirty a' where fl: "flush_locked now1 now2 a = (cls, dirty, a')" by (rule prod_cases3)
  note f = flush_ptrs [OF ok fl]
  let ?C = "set (closing_ptrs now1 a)" and ?W = "set (written_ptrs now1 a)"
  have ok': "agg_ok a'" by (rule flush_correct(1) [OF ok fl])
  have unw: "unwritten a' c p = (if p \<in> ?C \<union> ?W then 0 else unwritten a c p)" if "cell a' mk = Some p" for c mk p
    using f(6) [OF that] by (simp add: unwritten_def f(3))
  have sub: "cell a mk = Some p" if "cell a' mk = Some p" for mk p
    using that by (simp add: f(5) split: if_splits)
  have "prev_of a' p = heap a' p" if p: "p \<in> set (archive a')" for p
    using f(6) [OF archive_cell [OF ok' p]] f(7) [OF p] not_written_clean [OF led, of p now1]
    by (auto simp: f(3))
  moreover have "unat (unwritten a' CRequests p) \<le> length hist" if "cell a' mk = Some p" for mk p
    using ledger_okD(3) [OF led sub [OF that]] by (simp add: unw [OF that])
  moreover have "on_file dayOf dec (snd (flushClosedMinutes (\<lambda>_. True) dayOf enc now1 now2 (a, fs))) c mk
      + in_memory a' c mk = ingested hist c mk" if c: "\<not> frt_counter c" for c mk
  proof -
    have WC: "?W \<inter> ?C = {}" by (auto simp: written_ptrs_def written_def)
    have "key_sum c mk (cls @ dirty) + in_memory a' c mk = in_memory a c mk"
    proof (cases "cell a mk")
      case None
      then have "cell a' mk = None" by (simp add: f(5))
      with None show ?thesis by (simp add: f(1,2) closing_key_sum [OF ok] c in_memory_def)
    next
      case (Some p)
      have sums: "key_sum c mk (cls @ dirty) = (if p \<in> ?C then ctr c (heap a p) else 0) + (if p \<in> ?W then unwritten a c p else 0)"
        by (simp add: f(1,2) closing_key_sum [OF ok] c Some)
      have C: "unwritten a c p = ctr c (heap a p)" if "p \<in> ?C"
        using that active_not_archived(2) [OF ok] by (auto simp: unwritten_def closing_ptrs_iff [OF ok])
      have gone: "unwritten a c p = 0" if "cell a' mk = None" "p \<notin> ?C" "p \<notin> ?W"
      proof -
        have "slot (active a) mk \<noteq> Some p \<or> \<not> fst mk < now1 - 90"
          using that(2) by (cases mk) (auto simp: closing_ptrs_iff [OF ok])
        then have "p \<in> set (archive a)"
          using that(1) Some by (cases mk) (auto simp: f(5) cell_alt [OF ok] archive_iff [OF ok] split: if_splits option.splits)
        then show ?thesis using not_written_clean [OF led _ that(2,3)] by (simp add: unwritten_def)
      qed
      show ?thesis
      proof (cases "cell a' mk")
        case None
        then show ?thesis using sums C gone WC Some by (auto simp: in_memory_def)
      next
        case (Some q)
        with sub [of mk q] \<open>cell a mk = Some p\<close> have "q = p" by simp
        then show ?thesis using sums C WC Some unw [OF Some, of c] \<open>cell a mk = Some p\<close>
          by (auto simp: in_memory_def)
      qed
    qed
    moreover have "on_file dayOf dec (snd (flushClosedMinutes (\<lambda>_. True) dayOf enc now1 now2 (a, fs))) c mk =
        on_file dayOf dec fs c mk + key_sum c mk (cls @ dirty)"
      by (rule on_file_flush [OF fl]) (simp_all add: de)
    ultimately show ?thesis
      using ledger_okD(5) [OF led c, of mk] by (metis add.assoc)
  qed
  ultimately show ?thesis
    by (subst flush_lines(1) [OF fl]) (simp add: ledger_ok_def ok' f(4))
qed

lemma ledger_reachable:
  "agg_run dayOf enc keep hist st \<Longrightarrow> (\<And>b. dec (enc b) = Some b) \<Longrightarrow> length hist < 2 ^ 64 \<Longrightarrow>
     ledger_ok dayOf dec hist st"
proof (induction rule: agg_run.induct)
  case start
  show ?case by (rule ledger_start)
next
  case (request hist a fs s)
  then show ?case by (intro ledger_ingest) simp_all
next
  case (flush hist st now1 now2)
  then show ?case using ledger_flush [of dayOf dec hist "fst st" "snd st" enc now1 now2] by simp
qed

end
