(* ===== verification/Aggregator_Reload.thy ===== *)
theory Aggregator_Reload
  imports Aggregator_Log
begin

text \<open>
  \<open>reload\<close> and the restart of the listener: the reloaded archive is the grouping of the lines
  of today's file, so after a flush a restart recovers every closed minute; and what the
  deltas of late requests lose, or count twice, across it.
\<close>

subsection \<open>The scan of the file\<close>

definition reload_ok :: "reload_acc \<Rightarrow> bool" where
  "reload_ok r \<longleftrightarrow> wf2 (ra_idx r)
     \<and> (\<forall>mk p. slot (ra_idx r) mk = Some p \<longrightarrow> p < ra_nxt r \<and> bucket_key (ra_heap r p) = mk)"

definition reload_get :: "reload_acc \<Rightarrow> int \<times> string \<Rightarrow> bucket option" where
  "reload_get r mk = map_option (ra_heap r) (slot (ra_idx r) mk)"

definition reload_start :: reload_acc where
  "reload_start = \<lparr>ra_heap = (\<lambda>_. zero_bucket), ra_nxt = 0, ra_idx = []\<rparr>"

lemma reload_line_correct:
  assumes "reload_ok r"
  shows "reload_ok (reload_line b r)"
    and "reload_get (reload_line b r) mk' =
      (if bucket_key b = mk' then Some (case reload_get r mk' of None \<Rightarrow> b | Some e \<Rightarrow> bucket_add e b)
       else reload_get r mk')"
proof -
  let ?mk = "bucket_key b"
  have mk: "?mk = (Minute b, bkey (Peer b) (Stream b))" by (simp add: bucket_key_def)
  have wf: "wf2 (ra_idx r)"
    and ptr: "\<And>mk p. slot (ra_idx r) mk = Some p \<Longrightarrow> p < ra_nxt r \<and> bucket_key (ra_heap r p) = mk"
    using assms by (auto simp: reload_ok_def)
  have sl: "map_of (inner (ra_idx r) (Minute b)) (bkey (Peer b) (Stream b)) = slot (ra_idx r) ?mk"
    by (simp add: slot_def mk)
  have "reload_ok (reload_line b r) \<and> reload_get (reload_line b r) mk' =
      (if ?mk = mk' then Some (case reload_get r mk' of None \<Rightarrow> b | Some e \<Rightarrow> bucket_add e b) else reload_get r mk')"
  proof (cases "slot (ra_idx r) ?mk")
    case None
    then have l: "reload_line b r = \<lparr>ra_heap = (ra_heap r)(ra_nxt r := b), ra_nxt = ra_nxt r + 1,
        ra_idx = put (Minute b) (put (bkey (Peer b) (Stream b)) (ra_nxt r) (inner (ra_idx r) (Minute b))) (ra_idx r)\<rparr>"
      by (simp add: reload_line_def sl)
    have "reload_get (reload_line b r) mk' = (if ?mk = mk' then Some b else reload_get r mk')"
      using ptr [of mk'] by (cases "slot (ra_idx r) mk'") (auto simp: l reload_get_def simp flip: mk)
    moreover have "reload_get r ?mk = None" by (simp add: reload_get_def None)
    moreover have "reload_ok (reload_line b r)"
      using ptr by (auto simp: reload_ok_def l wf2_put wf2_inner wf wf_map_put simp flip: mk intro: less_SucI)
    ultimately show ?thesis by auto
  next
    case (Some p)
    then have l: "reload_line b r = r\<lparr>ra_heap := (ra_heap r)(p := bucket_add (ra_heap r p) b)\<rparr>"
      by (simp add: reload_line_def sl)
    have "reload_ok (reload_line b r)" using ptr wf by (auto simp: reload_ok_def l)
    moreover have "reload_get (reload_line b r) mk' = (if ?mk = mk' then Some (bucket_add (ra_heap r p) b) else reload_get r mk')"
      using Some ptr [OF Some] ptr [of mk' p] by (cases "slot (ra_idx r) mk'") (auto simp: l reload_get_def)
    moreover have "reload_get r ?mk = Some (ra_heap r p)" by (simp add: reload_get_def Some)
    ultimately show ?thesis by auto
  qed
  then show "reload_ok (reload_line b r)" and "reload_get (reload_line b r) mk' =
      (if ?mk = mk' then Some (case reload_get r mk' of None \<Rightarrow> b | Some e \<Rightarrow> bucket_add e b) else reload_get r mk')"
    by auto
qed

interpretation reloading: grouping bucket_key "\<lambda>b. b" reload_ok reload_start reload_line reload_get
  by unfold_locales
    (simp_all add: reload_line_correct, simp_all add: reload_ok_def reload_get_def reload_start_def)

lemma bucket_key_fold [simp]: "bucket_key (foldl bucket_add b bs) = bucket_key b"
  by (induction bs arbitrary: b) simp_all

lemma reload_lines_fold: "reload_lines dec ls r = fold reload_line (decoded dec ls) r"
  by (induction dec ls r rule: reload_lines.induct) (simp_all split: option.split)

lemma reload_correct:
  shows "agg_ok (reload dec today fs (newAggregator k))"
    and "view (reload dec today fs (newAggregator k)) mk = merged bucket_key (decoded dec (file_lines fs today)) mk"
    and "active (reload dec today fs (newAggregator k)) = []"
    and "archiveDirty (reload dec today fs (newAggregator k)) = []"
    and "archiveLastWritten (reload dec today fs (newAggregator k)) = []"
    and "archiveKeepMin (reload dec today fs (newAggregator k)) = k"
proof -
  let ?a = "reload dec today fs (newAggregator k)"
  let ?init = "\<lparr>ra_heap = heap (newAggregator k), ra_nxt = nxt (newAggregator k), ra_idx = []\<rparr>"
  show act: "active ?a = []" "archiveDirty ?a = []" "archiveLastWritten ?a = []" "archiveKeepMin ?a = k"
    by (auto simp: reload_def newAggregator_def Let_def split: option.split)
  have "agg_ok ?a \<and> view ?a mk = merged bucket_key (decoded dec (file_lines fs today)) mk"
  proof (cases "map_of fs today")
    case None
    then show ?thesis
      using agg_ok_new by (simp add: reload_def file_lines_def view_def cell_def newAggregator_def)
  next
    case (Some ls)
    let ?r = "reload_lines dec ls ?init"
    have r: "?r = fold reload_line (decoded dec ls) reload_start"
      by (simp add: reload_lines_fold reload_start_def newAggregator_def)
    have "reload_ok ?r" unfolding r by (rule reloading.group_ok)
    then have wf: "wf2 (ra_idx ?r)"
      and ptr: "\<And>mk p. slot (ra_idx ?r) mk = Some p \<Longrightarrow> p < ra_nxt ?r \<and> bucket_key (ra_heap ?r p) = mk"
      by (auto simp: reload_ok_def)
    have val: "map_option (ra_heap ?r) (slot (ra_idx ?r) mk) = merged bucket_key (decoded dec ls) mk" for mk
      using reloading.group_get [of "decoded dec ls" mk] by (simp add: r reload_get_def)
    have d: "distinct (ptrs (ra_idx ?r))"
      by (rule distinct_ptrs [OF wf]) (use ptr in metis)
    have a: "?a = (newAggregator k)\<lparr>heap := ra_heap ?r, nxt := ra_nxt ?r,
        archive := sort_key (\<lambda>p. Minute (ra_heap ?r p)) (ptrs (ra_idx ?r)), archiveIdx := ra_idx ?r\<rparr>"
      by (simp add: reload_def Some ptrs_def Let_def)
    have "agg_ok ?a"
      unfolding agg_ok_def a using wf ptr d by (simp add: newAggregator_def keys_def)
    moreover have "view ?a mk = merged bucket_key (decoded dec ls) mk"
      unfolding view_def cell_def a using val [of mk] by (simp add: newAggregator_def)
    ultimately show ?thesis by (simp add: file_lines_def Some)
  qed
  then show "agg_ok ?a" and "view ?a mk = merged bucket_key (decoded dec (file_lines fs today)) mk" by auto
qed

subsection \<open>Requests\<close>

definition demo_sample :: "int \<Rightarrow> sample" where
  "demo_sample m = \<lparr>s_minute = m, s_peer = ''10.0.0.1'', s_stream = ''true'', s_status = 200,
     s_prompt = 10, s_cached = 4, s_compl = 20, s_total = 30, s_reqBytes = 5, s_respBytes = 7,
     s_rtMs = 120, s_frtMs = Some 30\<rparr>"

definition demo_bucket :: "int \<Rightarrow> bucket" where
  "demo_bucket m = bump (demo_sample m) (new_bucket m ''10.0.0.1'' ''true'')"

lemmas demo_simps = demo_sample_def demo_bucket_def bump_def bump_status_def bump_sums_def
  bump_rt_def bump_frt_def new_bucket_def zero_bucket_def bkey_def

text \<open>Property C12 (ingest is a bump of one key).  On every state satisfying the representation
  invariant, \<open>ingest\<close> keeps it and changes the abstract map at the request's (minute, peer,
  stream) only, where the old counters, or a fresh bucket, receive the request.  The three
  physical cases (active minute, archived minute, new minute) cannot be told apart.\<close>

theorem ingest_refines:
  assumes "agg_ok a"
  shows "agg_ok (ingest s a) \<and>
    view (ingest s a) = (view a)(sample_key s \<mapsto>
      bump s (case view a (sample_key s) of
                Some b \<Rightarrow> b | None \<Rightarrow> new_bucket (s_minute s) (s_peer s) (s_stream s)))"
  using ingest_correct [OF assms, of s] by (simp add: bucket_or_new_def split: option.splits)

theorem ingest_refines_witness:
  "agg_ok (ingest (demo_sample 60) (newAggregator 5)) \<and>
   view (ingest (demo_sample 60) (newAggregator 5)) (60, bkey ''10.0.0.1'' ''true'') = Some (demo_bucket 60)"
  using ingest_refines [OF agg_ok_new, of "demo_sample 60" 5]
  by (simp add: view_def cell_def newAggregator_def sample_key_def demo_sample_def demo_bucket_def)

subsection \<open>Flushes\<close>

lemma flush_view:
  assumes "agg_ok a" and "flushClosedMinutes writable dayOf enc now1 now2 (a, fs) = (a', fs')"
  shows "agg_ok a' \<and> (\<forall>mk. view a' mk =
    (if archiveKeepMin a > 0 \<and> fst mk < now2 - archiveKeepMin a * 60
        \<and> (fst mk < now1 - 90 \<or> slot (active a) mk = None)
     then None else view a mk))"
proof -
  obtain cls dirty b where fl: "flush_locked now1 now2 a = (cls, dirty, b)" by (rule prod_cases3)
  have "b = a'" using assms(2) flush_lines(1) [OF fl, of writable dayOf enc fs] by simp
  then show ?thesis using flush_correct [OF assms(1) fl] by (auto simp: evict_now_def)
qed

text \<open>Property C32 (flushing moves, it does not change).  A flush keeps the invariant, and every
  (minute, peer, stream) reads the same counters after it, except the archived minutes older
  than the retention, which are gone.\<close>

theorem flush_preserves_view:
  assumes "agg_ok a" and "flushClosedMinutes writable dayOf enc now1 now2 (a, fs) = (a', fs')"
  shows "agg_ok a' \<and> (\<forall>mk. view a' mk =
    (if archiveKeepMin a > 0 \<and> fst mk < now2 - archiveKeepMin a * 60
        \<and> (fst mk < now1 - 90 \<or> slot (active a) mk = None)
     then None else view a mk))"
  by (rule flush_view [OF assms])

lemma demo_flush:
  "flushClosedMinutes (\<lambda>_. True) (\<lambda>_. ''2026-01-01'') id 200 200 (ingest (demo_sample 60) (newAggregator 5), []) =
     (\<lparr>heap = (\<lambda>_. zero_bucket)(0 := demo_bucket 60), nxt = 1, active = [], archive = [0],
       archiveIdx = [(60, [(bkey ''10.0.0.1'' ''true'', 0)])], archiveDirty = [],
       archiveLastWritten = [(0, demo_bucket 60)], archiveKeepMin = 5\<rparr>,
      [(''2026-01-01'', [demo_bucket 60])])"
  by (simp add: flushClosedMinutes_def flush_locked_def ingest_def select_bucket_def newAggregator_def
      demo_sample_def alloc_def ensure_idx_def Let_def inner_def evict_def appendToFile_def
      demo_bucket_def file_lines_def)

theorem flush_preserves_view_witness:
  "agg_ok (fst (flushClosedMinutes (\<lambda>_. True) (\<lambda>_. ''2026-01-01'') id 200 200
       (ingest (demo_sample 60) (newAggregator 5), [])))"
  using flush_preserves_view [OF ingest_correct(1) [OF agg_ok_new] demo_flush]
  by (simp add: demo_flush)








subsection \<open>Restarts\<close>

definition counter_of :: "aggregator \<Rightarrow> counter \<Rightarrow> int \<times> string \<Rightarrow> int64" where
  "counter_of a c mk = (case view a mk of None \<Rightarrow> 0 | Some b \<Rightarrow> ctr c b)"

lemma reload_counter:
  assumes "dayOf (fst mk) = today"
  shows "counter_of (reload dec today fs (newAggregator k)) c mk = on_file dayOf dec fs c mk"
proof (cases "merged bucket_key (decoded dec (file_lines fs today)) mk")
  case None
  then have "filter (\<lambda>b. bucket_key b = mk) (decoded dec (file_lines fs today)) = []"
    by (simp add: merged_None filter_empty_conv)
  with None show ?thesis by (simp add: counter_of_def reload_correct on_file_def assms key_sum_def)
next
  case (Some b)
  then show ?thesis by (simp add: counter_of_def reload_correct on_file_def assms key_sum_def ctr_merged)
qed

text \<open>Fact (reload is a grouping).  Reloading a fresh aggregator establishes the
  invariant, and each (minute, peer, stream) holds the sum of the decodable lines of today's
  file with that key, in file order; undecodable lines are skipped.\<close>

theorem reload_groups_lines:
  "agg_ok (reload dec today fs (newAggregator k)) \<and>
   view (reload dec today fs (newAggregator k)) mk = merged bucket_key (decoded dec (file_lines fs today)) mk"
  using reload_correct(1,2) by blast



subsection \<open>What late requests lose or repeat\<close>

text \<open>Fact (first-chunk times of late requests are never written).  A flush adds nothing
  to the file for \<open>FrtSumMs\<close> and \<open>FrtN\<close> of a minute that is already archived, although it
  marks the bucket as written: the delta leaves the two fields out.  After a restart the
  first-chunk statistics of every late request are missing.\<close>

theorem late_frt_never_written:
  assumes "agg_ok a" and "\<forall>b. dec (enc b) = Some b" and "frt_counter c" and "slot (active a) mk = None"
    and "flushClosedMinutes (\<lambda>_. True) dayOf enc now1 now2 (a, fs) = (a', fs')"
  shows "on_file dayOf dec fs' c mk = on_file dayOf dec fs c mk"
proof -
  obtain cls dirty b where fl: "flush_locked now1 now2 a = (cls, dirty, b)" by (rule prod_cases3)
  have "p \<notin> set (closing_ptrs now1 a)" if p: "cell a mk = Some p" for p
  proof
    assume "p \<in> set (closing_ptrs now1 a)"
    then obtain mk' where mk': "slot (active a) mk' = Some p" unfolding closing_ptrs_iff [OF assms(1)] by blast
    have "mk' = mk" by (rule cell_inj [OF assms(1) active_not_archived(3) [OF assms(1) mk'] p])
    with mk' assms(4) show False by simp
  qed
  then have "key_sum c mk cls = 0"
    unfolding flush_ptrs(1) [OF assms(1) fl] closing_key_sum(1) [OF assms(1)] by (simp split: option.split)
  moreover have "key_sum c mk dirty = 0"
  proof -
    have "key_sum c mk (map (delta_of a) ps) = 0" for ps
      by (induction ps) (auto simp: delta_of_def ctr_delta assms(3))
    then show ?thesis unfolding flush_ptrs(2) [OF assms(1) fl] .
  qed
  moreover have "on_file dayOf dec fs' c mk = on_file dayOf dec fs c mk + key_sum c mk (cls @ dirty)"
    using on_file_flush [OF fl, of dec enc "\<lambda>_. True" dayOf mk fs c] assms(2,5) by simp
  ultimately show ?thesis by simp
qed

theorem late_frt_never_written_witness:
  "frt_counter CFrtN \<and>
   on_file (\<lambda>_. ''2026-01-01'') Some (snd (flushClosedMinutes (\<lambda>_. True) (\<lambda>_. ''2026-01-01'') id 210 210
     (ingest (demo_sample 60) \<lparr>heap = (\<lambda>_. zero_bucket)(0 := demo_bucket 60), nxt = 1, active = [], archive = [0],
       archiveIdx = [(60, [(bkey ''10.0.0.1'' ''true'', 0)])], archiveDirty = [],
       archiveLastWritten = [(0, demo_bucket 60)], archiveKeepMin = 5\<rparr>,
      [(''2026-01-01'', [demo_bucket 60])]))) CFrtN (60, bkey ''10.0.0.1'' ''true'') = 1"
  (is "_ \<and> on_file ?day _ (snd (flushClosedMinutes _ _ _ _ _ (ingest ?s ?a, ?fs))) _ ?mk = 1")
proof
  have "agg_ok ?a"
    using flush_view [OF ingest_correct(1) [OF agg_ok_new] demo_flush] by simp
  then have ok: "agg_ok (ingest ?s ?a)" by (rule ingest_correct(1))
  have act: "slot (active (ingest ?s ?a)) ?mk = None"
    by (simp add: ingest_def select_bucket_def demo_sample_def Let_def)
  obtain a' fs' where fl: "flushClosedMinutes (\<lambda>_. True) ?day id 210 210 (ingest ?s ?a, ?fs) = (a', fs')"
    by fastforce
  show "frt_counter CFrtN" by (simp add: frt_counter_def)
  have "on_file ?day Some fs' CFrtN ?mk = on_file ?day Some ?fs CFrtN ?mk"
    using late_frt_never_written [OF ok _ _ act fl, of Some CFrtN] by (simp add: frt_counter_def)
  also have "\<dots> = 1" by (simp add: on_file_def file_lines_def bucket_key_def demo_simps)
  finally show "on_file ?day Some (snd (flushClosedMinutes (\<lambda>_. True) ?day id 210 210 (ingest ?s ?a, ?fs))) CFrtN ?mk = 1"
    by (simp only: fl snd_conv)
qed

lemma reload_late:
  assumes "view (reload dec today fs (newAggregator k)) (sample_key s) = Some b"
  obtains p where "cell (ingest s (reload dec today fs (newAggregator k))) (sample_key s) = Some p"
    and "heap (ingest s (reload dec today fs (newAggregator k))) p = bump s b"
    and "prev_of (ingest s (reload dec today fs (newAggregator k))) p = zero_bucket"
    and "archiveDirty (ingest s (reload dec today fs (newAggregator k))) = [p]"
    and "active (ingest s (reload dec today fs (newAggregator k))) = []"
proof -
  let ?a = "reload dec today fs (newAggregator k)"
  note r = reload_correct(3-5) [of dec today fs k]
  from assms obtain p where p: "slot (archiveIdx ?a) (sample_key s) = Some p" "heap ?a p = b"
    by (auto simp: view_def cell_def r)
  then obtain bk where bk: "map_of (archiveIdx ?a) (s_minute s) = Some bk" "map_of bk (bkey (s_peer s) (s_stream s)) = Some p"
    by (auto simp: slot_def inner_def sample_key_def split: option.splits)
  have "ingest s ?a = (mark_dirty p ?a)\<lparr>heap := (heap ?a)(p := bump s b)\<rparr>"
    by (simp add: ingest_def select_bucket_def r bk p(2))
  then show ?thesis
    using p(1) by (intro that [of p]) (simp_all add: cell_def r prev_of_def mark_dirty_def)
qed

text \<open>Fact (a late request after a restart is counted twice).  \<open>reload\<close> does not record
  what is already on file, so when a late request then touches a reloaded bucket, the next
  flush writes the whole bucket again: the file grows by all it already had, plus the request.
  The next restart reads twice the real counts.\<close>

theorem late_request_after_restart_doubles:
  assumes "\<forall>b. dec (enc b) = Some b" and "\<not> frt_counter c" and "dayOf (s_minute s) = today"
    and "view (reload dec today fs (newAggregator k)) (sample_key s) = Some b" and "Requests b + 1 \<noteq> 0"
    and "flushClosedMinutes (\<lambda>_. True) dayOf enc now1 now2 (ingest s (reload dec today fs (newAggregator k)), fs) = (a', fs')"
  shows "on_file dayOf dec fs' c (sample_key s) = 2 * on_file dayOf dec fs c (sample_key s) + inc s c"
proof -
  let ?a = "ingest s (reload dec today fs (newAggregator k))" and ?mk = "sample_key s"
  have ok: "agg_ok ?a" by (rule ingest_correct(1) [OF reload_correct(1)])
  obtain p where p: "cell ?a ?mk = Some p" "heap ?a p = bump s b" "prev_of ?a p = zero_bucket"
    "archiveDirty ?a = [p]" "active ?a = []" using reload_late [OF assms(4)] .
  obtain cls dirty d where fl: "flush_locked now1 now2 ?a = (cls, dirty, d)" by (rule prod_cases3)
  have C: "closing_ptrs now1 ?a = []"
    by (simp add: closing_ptrs_def closing_def p(5))
  have "Requests (bump s b) = Requests b + 1" using ctr_bump [of CRequests s b] by simp
  then have W: "written_ptrs now1 ?a = [p]"
    using assms(5) by (simp add: written_ptrs_def written_def C p delta_of_def bucket_delta_def zero_bucket_def new_bucket_def)
  have "on_file dayOf dec fs' c ?mk = on_file dayOf dec fs c ?mk + key_sum c ?mk (cls @ dirty)"
    using on_file_flush [OF fl, of dec enc "\<lambda>_. True" dayOf ?mk fs c] assms(1,6) by simp
  also have "key_sum c ?mk (cls @ dirty) = ctr c b + inc s c"
    using closing_key_sum(2) [OF ok assms(2), of ?mk now1]
    by (simp add: flush_ptrs(1,2) [OF ok fl] C W p unwritten_def ctr_bump)
  also have "ctr c b = on_file dayOf dec fs c ?mk"
    using reload_counter [of dayOf ?mk today dec fs k c] assms(3,4) by (simp add: counter_of_def sample_key_def)
  finally show ?thesis by (simp add: algebra_simps)
qed

theorem late_request_after_restart_doubles_witness:
  "on_file (\<lambda>_. ''2026-01-01'') Some (snd (flushClosedMinutes (\<lambda>_. True) (\<lambda>_. ''2026-01-01'') id 210 210
     (ingest (demo_sample 60) (reload Some ''2026-01-01'' [(''2026-01-01'', [demo_bucket 60])] (newAggregator 5)),
      [(''2026-01-01'', [demo_bucket 60])]))) CRequests (60, bkey ''10.0.0.1'' ''true'') = 3"
  (is "on_file ?day _ (snd ?fl) _ ?mk = 3")
proof -
  have v: "view (reload Some ''2026-01-01'' [(''2026-01-01'', [demo_bucket 60])] (newAggregator 5)) (sample_key (demo_sample 60))
      = Some (demo_bucket 60)"
    by (simp add: reload_correct(2) merged_from_def file_lines_def bucket_key_def sample_key_def demo_simps)
  obtain a' fs' where fl: "?fl = (a', fs')" by fastforce
  have "sample_key (demo_sample 60) = ?mk" by (simp add: sample_key_def demo_sample_def)
  then have "on_file ?day Some fs' CRequests ?mk = 2 * on_file ?day Some [(''2026-01-01'', [demo_bucket 60])] CRequests ?mk + 1"
    using late_request_after_restart_doubles [OF _ _ _ v _ fl, of CRequests]
    by (simp add: frt_counter_def) (simp add: demo_simps)
  also have "on_file ?day Some [(''2026-01-01'', [demo_bucket 60])] CRequests ?mk = 1"
    by (simp add: on_file_def file_lines_def bucket_key_def demo_simps)
  finally show ?thesis by (simp add: fl)
qed

end
