(* ===== verification/Frame.thy ===== *)
theory Frame
  imports Go_Encoding
begin

text \<open>
  The listener's wire protocol (\<open>bodylog-listener-go/main.go\<close>, \<open>readFrame\<close> and
  \<open>handleConn\<close>): length-prefixed binary frames read from a TCP connection.  A connection is
  the bytes still to arrive together with how it ends; \<open>io.ReadFull\<close> takes bytes off it or
  fails.  The sender's frame layout is \<open>encodeFrame\<close>, from \<open>lua/bodylog.lua\<close>.

  The locale \<open>framed_stream\<close> is the contract between a decoder of one record and the loop
  that drains a connection; the frame decoder provides it here, and the exporter's line
  reader provides it in \<open>Exporter_Tail\<close>.
\<close>

subsection \<open>The contract of a record decoder and its read loop\<close>

locale framed_stream =
  fixes push :: "'f \<Rightarrow> 's \<Rightarrow> 's"
    and valid :: "'f \<Rightarrow> bool"
    and dec :: "'s \<Rightarrow> 'e + 'f \<times> 's"
    and drain :: "'s \<Rightarrow> 'f list \<times> 's \<times> 'e"
  assumes dec_push: "valid f \<Longrightarrow> dec (push f s) = Inr (f, s)"
    and drain_stop: "dec s = Inl e \<Longrightarrow> drain s = ([], s, e)"
    and drain_step: "dec s = Inr (f, s') \<Longrightarrow> drain s = (f # fst (drain s'), snd (drain s'))"
begin

lemma drain_push: "valid f \<Longrightarrow> drain (push f s) = (f # fst (drain s), snd (drain s))"
  by (rule drain_step [OF dec_push])

text \<open>Every record written in front of \<open>s\<close> is delivered once and in order; what the loop
  does after them is what it does on \<open>s\<close> alone.\<close>

lemma drain_pushes:
  "list_all valid fs \<Longrightarrow> drain (foldr push fs s) = (fs @ fst (drain s), snd (drain s))"
  by (induction fs) (auto simp: drain_push)

lemma drain_pushes_stop:
  assumes "list_all valid fs" and "dec s = Inl e"
  shows "drain (foldr push fs s) = (fs, s, e)"
  using drain_pushes [OF assms(1), of s] drain_stop [OF assms(2)] by simp

end

subsection \<open>Connections\<close>

text \<open>How a connection ends: \<open>AtEOF\<close> is a clean close, \<open>Broken\<close> any other read error
  (reset, closed on shutdown).\<close>

datatype conn_end = AtEOF | Broken

record conn =
  pending :: bytes
  ending :: conn_end

datatype read_error =
    EOF
  | UnexpectedEOF
  | ConnError
  | InvalidLength nat
  | ShortForMetaLen
  | TruncatedAtMeta
  | TruncatedAtReq
  | SizeMismatch nat nat nat

text \<open>\<open>io.ReadFull\<close> into a buffer of \<open>n\<close> bytes: \<open>EOF\<close> only when nothing was read.\<close>

definition readFull :: "nat \<Rightarrow> conn \<Rightarrow> read_error + bytes \<times> conn" where
  "readFull n c =
     (if n \<le> length (pending c) then Inr (take n (pending c), c\<lparr>pending := drop n (pending c)\<rparr>)
      else case ending c of
        AtEOF \<Rightarrow> Inl (if pending c = [] then EOF else UnexpectedEOF)
      | Broken \<Rightarrow> Inl ConnError)"

definition maxFrame :: nat where
  "maxFrame = 64 * 1024 * 1024"

record frame =
  meta :: bytes
  req :: bytes
  resp :: bytes

text \<open>
  \<open>parsePayload\<close> is the part of \<open>readFrame\<close> after the payload has been read, in the order of
  the code's checks: positions and lengths are Go \<open>int\<close>s, which cannot overflow since
  \<open>metaLen < 2^16\<close>, \<open>reqLen < 2^32\<close> and \<open>len(buf) \<le> maxFrame\<close>.
\<close>

definition subslice :: "nat \<Rightarrow> nat \<Rightarrow> 'a list \<Rightarrow> 'a list" where
  "subslice i j xs = take (j - i) (drop i xs)"

definition parsePayload :: "bytes \<Rightarrow> read_error + frame" where
  "parsePayload buf =
    (if length buf < 2 then Inl ShortForMetaLen
     else let metaLen = be_uint (subslice 0 2 buf); p0 = 2 in
       if p0 + metaLen + 4 > length buf then Inl TruncatedAtMeta
       else let m = subslice p0 (p0 + metaLen) buf; p1 = p0 + metaLen;
                reqLen = be_uint (subslice p1 (p1 + 4) buf); p2 = p1 + 4 in
         if p2 + reqLen + 4 > length buf then Inl TruncatedAtReq
         else let r = subslice p2 (p2 + reqLen) buf; p3 = p2 + reqLen;
                  respLen = be_uint (subslice p3 (p3 + 4) buf); p4 = p3 + 4 in
           if p4 + respLen \<noteq> length buf then Inl (SizeMismatch p4 respLen (length buf))
           else Inr \<lparr>meta = m, req = r, resp = subslice p4 (p4 + respLen) buf\<rparr>)"

definition readFrame :: "conn \<Rightarrow> read_error + frame \<times> conn" where
  "readFrame c =
    (case readFull 4 c of
       Inl e \<Rightarrow> Inl e
     | Inr (lenBuf, c1) \<Rightarrow>
         let total = be_uint lenBuf in
         if total = 0 \<or> total > maxFrame then Inl (InvalidLength total)
         else case readFull total c1 of
             Inl e \<Rightarrow> Inl e
           | Inr (buf, c2) \<Rightarrow>
               (case parsePayload buf of Inl e \<Rightarrow> Inl e | Inr f \<Rightarrow> Inr (f, c2)))"

text \<open>The frame the sender builds (\<open>lua/bodylog.lua\<close>), and when it can be built: the
  metadata length fits 16 bits and the payload the listener's limit.\<close>

definition encodePayload :: "frame \<Rightarrow> bytes" where
  "encodePayload f = be_put 2 (length (meta f)) @ meta f @ be_put 4 (length (req f)) @ req f
     @ be_put 4 (length (resp f)) @ resp f"

definition encodeFrame :: "frame \<Rightarrow> bytes" where
  "encodeFrame f = be_put 4 (length (encodePayload f)) @ encodePayload f"

definition sendable :: "frame \<Rightarrow> bool" where
  "sendable f \<longleftrightarrow> length (meta f) < 2 ^ 16 \<and> length (encodePayload f) \<le> maxFrame"

subsection \<open>Slices and reads\<close>

lemma subslice_append: "length xs = i \<Longrightarrow> length ys = j - i \<Longrightarrow> subslice i j (xs @ ys @ zs) = ys"
  by (simp add: subslice_def)

lemma length_subslice [simp]: "j \<le> length xs \<Longrightarrow> length (subslice i j xs) = j - i"
  by (simp add: subslice_def)

lemma subslice_join:
  assumes "i \<le> j" and "j \<le> k"
  shows "subslice i j xs @ subslice j k xs = subslice i k xs"
proof -
  have "k - i = (j - i) + (k - j)" using assms by simp
  then show ?thesis using assms by (simp only: subslice_def take_add drop_drop) simp
qed

lemma subslice_all: "subslice 0 (length xs) xs = xs"
  by (simp add: subslice_def)

lemma readFull_Inr:
  "readFull n c = Inr (b, c') \<longleftrightarrow>
     n \<le> length (pending c) \<and> b = take n (pending c) \<and> c' = c\<lparr>pending := drop n (pending c)\<rparr>"
  by (auto simp: readFull_def split: conn_end.splits)

lemma encodePayload_not_Nil [simp]: "encodePayload f \<noteq> []"
  by (simp add: encodePayload_def)

lemma readFull_InrD:
  "readFull n c = Inr (b, c') \<Longrightarrow> pending c = b @ pending c' \<and> length b = n \<and> ending c' = ending c"
  by (auto simp: readFull_Inr)

lemma length_encodePayload [simp]:
  "length (encodePayload f) = 10 + length (meta f) + length (req f) + length (resp f)"
  by (simp add: encodePayload_def)

subsection \<open>The round trip and what the decoder accepts\<close>

lemma parsePayload_encode:
  assumes "sendable f"
  shows "parsePayload (encodePayload f) = Inr f"
proof -
  let ?m = "length (meta f)" and ?r = "length (req f)" and ?s = "length (resp f)"
  let ?buf = "encodePayload f"
  have len: "length ?buf = 10 + ?m + ?r + ?s" by simp
  have bnd: "?m < 256 ^ 2" "?r < 256 ^ 4" "?s < 256 ^ 4"
    using assms by (auto simp: sendable_def maxFrame_def)
  have 1: "subslice 0 2 ?buf = be_put 2 ?m"
    unfolding encodePayload_def by (simp add: subslice_def)
  have 2: "subslice 2 (2 + ?m) ?buf = meta f"
    unfolding encodePayload_def by (rule subslice_append) simp_all
  have 3: "subslice (2 + ?m) (2 + ?m + 4) ?buf = be_put 4 ?r"
    unfolding encodePayload_def
    using subslice_append [of "be_put 2 ?m @ meta f" "2 + ?m" "be_put 4 ?r" "2 + ?m + 4"
        "req f @ be_put 4 ?s @ resp f"] by simp
  have 4: "subslice (2 + ?m + 4) (2 + ?m + 4 + ?r) ?buf = req f"
    unfolding encodePayload_def
    using subslice_append [of "be_put 2 ?m @ meta f @ be_put 4 ?r" "2 + ?m + 4" "req f" "2 + ?m + 4 + ?r" "be_put 4 ?s @ resp f"] by simp
  have 5: "subslice (2 + ?m + 4 + ?r) (2 + ?m + 4 + ?r + 4) ?buf = be_put 4 ?s"
    unfolding encodePayload_def
    using subslice_append [of "be_put 2 ?m @ meta f @ be_put 4 ?r @ req f" "2 + ?m + 4 + ?r" "be_put 4 ?s"
        "2 + ?m + 4 + ?r + 4" "resp f"]
    by simp
  have 6: "subslice (2 + ?m + 4 + ?r + 4) (2 + ?m + 4 + ?r + 4 + ?s) ?buf = resp f"
    unfolding encodePayload_def
    using subslice_append [of "be_put 2 ?m @ meta f @ be_put 4 ?r @ req f @ be_put 4 ?s"
        "2 + ?m + 4 + ?r + 4" "resp f" "2 + ?m + 4 + ?r + 4 + ?s" "[]"] by simp
  show ?thesis
    unfolding parsePayload_def Let_def 1 be_uint_put [OF bnd(1)] 2 3 be_uint_put [OF bnd(2)] 4 5
      be_uint_put [OF bnd(3)] 6
    using len by simp
qed

text \<open>An accepted payload is exactly the encoding of the frame: nothing is skipped, and the
  three parts are the declared slices.\<close>

lemma be_put_uint: "length b = n \<Longrightarrow> be_put n (be_uint b) = b"
proof (induction n arbitrary: b)
  case (Suc n)
  then obtain b' c where b: "b = b' @ [c]" "length b' = n"
    by (metis append_butlast_last_id diff_Suc_1 length_butlast length_0_conv nat.distinct(1))
  have "be_uint b div 256 = be_uint b'" and "be_uint b mod 256 = byte c"
    by (simp_all add: b be_uint_snoc)
  with Suc.IH [of b'] b show ?case by simp
qed simp

lemma parsePayload_Inr:
  assumes "parsePayload buf = Inr f"
  shows "buf = encodePayload f" and "length (meta f) < 2 ^ 16"
proof -
  define ml where "ml = be_uint (subslice 0 2 buf)"
  define p1 where "p1 = 2 + ml"
  define rl where "rl = be_uint (subslice p1 (p1 + 4) buf)"
  define p3 where "p3 = p1 + 4 + rl"
  define sl where "sl = be_uint (subslice p3 (p3 + 4) buf)"
  note defs = ml_def p1_def rl_def p3_def sl_def
  have le: "p1 + 4 \<le> length buf" "p3 + 4 \<le> length buf" "p3 + 4 + sl = length buf" "2 \<le> length buf"
    and f: "f = \<lparr>meta = subslice 2 p1 buf, req = subslice (p1 + 4) p3 buf, resp = subslice (p3 + 4) (length buf) buf\<rparr>"
    using assms unfolding parsePayload_def Let_def
    by (auto simp: defs split: if_splits)
  have lens: "length (subslice 2 p1 buf) = ml" "length (subslice (p1 + 4) p3 buf) = rl"
    "length (subslice (p3 + 4) (length buf) buf) = sl"
    using le by (simp_all add: p1_def p3_def)
  have put: "be_put 2 ml = subslice 0 2 buf" "be_put 4 rl = subslice p1 (p1 + 4) buf"
    "be_put 4 sl = subslice p3 (p3 + 4) buf"
    unfolding ml_def rl_def sl_def using le by (simp_all add: be_put_uint)
  have "encodePayload f = subslice 0 2 buf @ subslice 2 p1 buf @ subslice p1 (p1 + 4) buf
      @ subslice (p1 + 4) p3 buf @ subslice p3 (p3 + 4) buf @ subslice (p3 + 4) (length buf) buf"
    by (simp add: encodePayload_def f lens put)
  also have "\<dots> = subslice 0 (length buf) buf"
    using le by (simp add: subslice_join p1_def p3_def)
  finally show "buf = encodePayload f" by (simp add: subslice_all)
  have "ml < 256 ^ 2" using be_uint_bound [of "subslice 0 2 buf"] le by (simp add: ml_def)
  then show "length (meta f) < 2 ^ 16" using lens(1) by (simp add: f)
qed

lemma readFrame_push:
  assumes "sendable f"
  shows "readFrame (c\<lparr>pending := encodeFrame f @ pending c\<rparr>) = Inr (f, c)"
proof -
  let ?p = "encodePayload f"
  have n: "length ?p < 256 ^ 4" "0 < length ?p" "length ?p \<le> maxFrame"
    using assms by (auto simp: sendable_def maxFrame_def)
  have "readFull 4 (c\<lparr>pending := encodeFrame f @ pending c\<rparr>)
      = Inr (be_put 4 (length ?p), c\<lparr>pending := ?p @ pending c\<rparr>)"
    by (simp add: readFull_def encodeFrame_def)
  moreover have "readFull (length ?p) (c\<lparr>pending := ?p @ pending c\<rparr>) = Inr (?p, c)"
    by (simp add: readFull_def)
  ultimately show ?thesis
    using n by (simp add: readFrame_def be_uint_put parsePayload_encode [OF assms] Let_def)
qed

text \<open>Conversely a successful read took exactly the encoding of its frame off the connection.\<close>

lemma readFrame_Inr:
  assumes "readFrame c = Inr (f, c')"
  shows "pending c = encodeFrame f @ pending c'" and "ending c' = ending c" and "sendable f"
proof -
  obtain hd c1 buf where 1: "readFull 4 c = Inr (hd, c1)"
    and 2: "\<not> (be_uint hd = 0 \<or> be_uint hd > maxFrame)"
    and 3: "readFull (be_uint hd) c1 = Inr (buf, c')" and 4: "parsePayload buf = Inr f"
    using assms by (auto simp: readFrame_def Let_def split: sum.splits if_splits)
  from 3 have len: "length buf = be_uint hd" by (auto simp: readFull_Inr)
  from 1 have "length hd = 4" by (auto simp: readFull_Inr)
  then have "be_put 4 (length buf) = hd" by (simp add: len be_put_uint)
  with parsePayload_Inr(1) [OF 4] have "encodeFrame f = hd @ buf"
    by (simp add: encodeFrame_def)
  moreover have "pending c = hd @ pending c1" "pending c1 = buf @ pending c'" "ending c' = ending c"
    using readFull_InrD [OF 1] readFull_InrD [OF 3] by simp_all
  ultimately show "pending c = encodeFrame f @ pending c'" and "ending c' = ending c" by simp_all
  show "sendable f"
    using parsePayload_Inr [OF 4] 2 len by (auto simp: sendable_def)
qed

lemma readFrame_shorter: "readFrame c = Inr (f, c') \<Longrightarrow> length (pending c') < length (pending c)"
  using readFrame_Inr(1) [of c f c'] by (simp add: encodeFrame_def)

subsection \<open>handleConn: draining a connection into the frame queue\<close>

text \<open>\<open>net.SplitHostPort\<close> on a remote address; \<open>None\<close> is its error.\<close>

definition splitHostPort :: "string \<Rightarrow> (string \<times> string) option" where
  "splitHostPort s =
    (case lastIndexByte s (CHR '':'') of
       None \<Rightarrow> None
     | Some i \<Rightarrow>
         if hasPrefix s ''['' then
           (case indexByte s (CHR '']'') of
              None \<Rightarrow> None
            | Some e \<Rightarrow>
                if e + 1 \<noteq> i then None
                else if indexByte (drop 1 s) (CHR ''['') \<noteq> None
                  \<or> indexByte (drop (e + 1) s) (CHR '']'') \<noteq> None then None
                else Some (subslice 1 e s, drop (i + 1) s))
         else
           if indexByte (take i s) (CHR '':'') \<noteq> None then None
           else if indexByte s (CHR ''['') \<noteq> None \<or> indexByte s (CHR '']'') \<noteq> None then None
           else Some (take i s, drop (i + 1) s))"

definition sourceAddr :: "string \<Rightarrow> string" where
  "sourceAddr remote = (case splitHostPort remote of Some (h, _) \<Rightarrow> h | None \<Rightarrow> remote)"

record rawFrame =
  frm :: frame
  src :: string

text \<open>The loop of \<open>handleConn\<close>: the frames it sends to \<open>frameCh\<close>, in order, what is left of
  the connection, and the error it returns on (logged unless it is \<open>EOF\<close>).\<close>

function readLoop :: "conn \<Rightarrow> frame list \<times> conn \<times> read_error" where
  "readLoop c = (case readFrame c of
      Inl e \<Rightarrow> ([], c, e)
    | Inr (f, c') \<Rightarrow> (f # fst (readLoop c'), snd (readLoop c')))"
  by pat_completeness auto
termination
  by (relation "measure (\<lambda>c. length (pending c))") (auto dest: readFrame_shorter)

declare readLoop.simps [simp del]

definition handleConn :: "string \<Rightarrow> conn \<Rightarrow> rawFrame list \<times> read_error" where
  "handleConn remote c =
     (case readLoop c of (fs, _, e) \<Rightarrow> (map (\<lambda>f. \<lparr>frm = f, src = sourceAddr remote\<rparr>) fs, e))"

definition logged :: "read_error \<Rightarrow> bool" where
  "logged e \<longleftrightarrow> e \<noteq> EOF"

definition push_frame :: "frame \<Rightarrow> conn \<Rightarrow> conn" where
  "push_frame f c = c\<lparr>pending := encodeFrame f @ pending c\<rparr>"

interpretation frames: framed_stream push_frame sendable readFrame readLoop
  by unfold_locales
    (simp_all add: push_frame_def readFrame_push readLoop.simps [of s for s])

lemma foldr_push_frame:
  "foldr push_frame fs c = c\<lparr>pending := concat (map encodeFrame fs) @ pending c\<rparr>"
  by (induction fs) (simp_all add: push_frame_def)

lemma readFrame_nil: "pending c = [] \<Longrightarrow> readFrame c = Inl (case ending c of AtEOF \<Rightarrow> EOF | Broken \<Rightarrow> ConnError)"
  by (simp add: readFrame_def readFull_def split: conn_end.splits)

text \<open>What the loop delivers is a prefix of the bytes that arrived, re-encoded.\<close>

lemma readLoop_prefix:
  "readLoop c = (fs, c', e) \<Longrightarrow>
     pending c = concat (map encodeFrame fs) @ pending c' \<and> list_all sendable fs \<and> readFrame c' = Inl e"
proof (induction c arbitrary: fs rule: readLoop.induct)
  case (1 c)
  show ?case
  proof (cases "readFrame c")
    case (Inl e')
    with "1.prems" show ?thesis by (auto simp: readLoop.simps [of c])
  next
    case (Inr p)
    obtain f c1 where p: "p = (f, c1)" by fastforce
    with "1.prems" Inr obtain fs' where fs: "fs = f # fs'" "readLoop c1 = (fs', c', e)"
      by (cases "readLoop c1") (auto simp: readLoop.simps [of c])
    with "1.IH" [OF Inr p [symmetric]] Inr p show ?thesis
      using readFrame_Inr [of c f c1] by auto
  qed
qed

lemma readLoop_ending: "readLoop c = (fs, c', e) \<Longrightarrow> ending c' = ending c"
proof (induction c arbitrary: fs rule: readLoop.induct)
  case (1 c)
  show ?case
  proof (cases "readFrame c")
    case (Inl e')
    with "1.prems" show ?thesis by (auto simp: readLoop.simps [of c])
  next
    case (Inr p)
    with "1.prems" "1.IH" [OF Inr, of "fst p" "snd p"] show ?thesis
      using readFrame_Inr(2) [of c "fst p" "snd p"]
      by (cases "readLoop (snd p)") (auto simp: readLoop.simps [of c] split: prod.splits)
  qed
qed

subsection \<open>Properties\<close>

text \<open>Property C3 (round trip of the wire format).  When a sender writes any sequence of frames
  the protocol can carry and closes the connection, \<open>handleConn\<close> queues exactly those frames,
  in order, each tagged with the connection's source address, and returns on a clean \<open>EOF\<close>
  that is not logged.\<close>

theorem frames_roundtrip:
  assumes "list_all sendable fs"
  shows "handleConn remote \<lparr>pending = concat (map encodeFrame fs), ending = AtEOF\<rparr>
    = (map (\<lambda>f. \<lparr>frm = f, src = sourceAddr remote\<rparr>) fs, EOF)"
proof -
  let ?z = "\<lparr>pending = [], ending = AtEOF\<rparr>"
  have "readFrame ?z = Inl EOF" by (simp add: readFrame_nil)
  from frames.drain_pushes_stop [OF assms this]
  have "readLoop \<lparr>pending = concat (map encodeFrame fs), ending = AtEOF\<rparr> = (fs, ?z, EOF)"
    by (simp add: foldr_push_frame)
  then show "handleConn remote \<lparr>pending = concat (map encodeFrame fs), ending = AtEOF\<rparr>
    = (map (\<lambda>f. \<lparr>frm = f, src = sourceAddr remote\<rparr>) fs, EOF)"
    by (simp add: handleConn_def)
qed

definition sample_frame :: frame where
  "sample_frame = \<lparr>meta = ''{}'', req = ''ask'', resp = []\<rparr>"

theorem frames_roundtrip_witness:
  "handleConn ''10.1.2.3:5050'' \<lparr>pending = encodeFrame sample_frame @ encodeFrame sample_frame, ending = AtEOF\<rparr>
    = ([\<lparr>frm = sample_frame, src = ''10.1.2.3''\<rparr>, \<lparr>frm = sample_frame, src = ''10.1.2.3''\<rparr>], EOF)"
proof -
  have "list_all sendable [sample_frame, sample_frame]"
    by (simp add: sendable_def sample_frame_def maxFrame_def)
  moreover have "sourceAddr ''10.1.2.3:5050'' = ''10.1.2.3''" by code_simp
  ultimately show ?thesis
    using frames_roundtrip [of "[sample_frame, sample_frame]" "''10.1.2.3:5050''"] by simp
qed

text \<open>Property C33 (only whole frames are delivered).  Whatever bytes arrive, the frames
  \<open>handleConn\<close> queues are exactly the maximal run of well-formed frames at the front of the
  connection: their encodings are the bytes consumed, and the error it returns is the one
  the decoder gives on the bytes that follow.\<close>

theorem handleConn_delivers_prefix:
  assumes "handleConn remote c = (rfs, e)"
  shows "\<exists>rest. pending c = concat (map (\<lambda>rf. encodeFrame (frm rf)) rfs) @ rest
    \<and> (\<forall>rf \<in> set rfs. sendable (frm rf) \<and> src rf = sourceAddr remote)
    \<and> readFrame (c\<lparr>pending := rest\<rparr>) = Inl e"
proof -
  obtain fs c' where rl: "readLoop c = (fs, c', e)" and rfs: "rfs = map (\<lambda>f. \<lparr>frm = f, src = sourceAddr remote\<rparr>) fs"
    using assms by (auto simp: handleConn_def split: prod.splits)
  have "ending c' = ending c"
    using rl by (rule readLoop_ending)
  then have "c' = c\<lparr>pending := pending c'\<rparr>" by simp
  with readLoop_prefix [OF rl] show ?thesis
    by (intro exI [of _ "pending c'"]) (auto simp: rfs comp_def list_all_iff)
qed

theorem handleConn_delivers_prefix_witness:
  "\<exists>rest. encodeFrame sample_frame @ ''xy'' = encodeFrame sample_frame @ rest \<and>
     readFrame \<lparr>pending = rest, ending = AtEOF\<rparr> = Inl UnexpectedEOF"
proof -
  let ?c = "\<lparr>pending = encodeFrame sample_frame @ ''xy'', ending = AtEOF\<rparr>"
  have "sourceAddr ''x'' = ''x''" by code_simp
  moreover have "readLoop ?c = ([sample_frame], \<lparr>pending = ''xy'', ending = AtEOF\<rparr>, UnexpectedEOF)"
    using frames.drain_pushes_stop [of "[sample_frame]" "\<lparr>pending = ''xy'', ending = AtEOF\<rparr>"]
    by (simp add: sendable_def sample_frame_def maxFrame_def readFrame_def readFull_def push_frame_def)
  ultimately have "handleConn ''x'' ?c = ([\<lparr>frm = sample_frame, src = ''x''\<rparr>], UnexpectedEOF)"
    by (simp add: handleConn_def)
  from handleConn_delivers_prefix [OF this] show ?thesis by simp
qed

text \<open>Fact (a connection cut inside a frame).  If the connection closes after \<open>k\<close> bytes
  of a frame, nothing of that frame is delivered, and the read fails with \<open>UnexpectedEOF\<close>,
  which is logged, except at the two boundaries where \<open>io.ReadFull\<close> has read no byte: before
  the frame, and right after its 4-byte length, where the lost frame is taken for a clean
  close and not logged.\<close>

theorem truncated_frame:
  assumes "sendable f" and "k < length (encodeFrame f)"
  shows "readFrame \<lparr>pending = take k (encodeFrame f), ending = AtEOF\<rparr>
    = Inl (if k = 0 \<or> k = 4 then EOF else UnexpectedEOF)"
proof (cases "k < 4")
  case True
  then show ?thesis using assms(2)
    by (auto simp: readFrame_def readFull_def encodeFrame_def)
next
  case False
  let ?p = "encodePayload f"
  have n: "length ?p < 256 ^ 4" "0 < length ?p" "length ?p \<le> maxFrame"
    using assms(1) by (auto simp: sendable_def maxFrame_def)
  have "readFull 4 \<lparr>pending = take k (encodeFrame f), ending = AtEOF\<rparr>
      = Inr (be_put 4 (length ?p), \<lparr>pending = take (k - 4) ?p, ending = AtEOF\<rparr>)"
    using False by (simp add: readFull_def encodeFrame_def)
  moreover have "k - 4 < length ?p" using assms(2) False by (simp add: encodeFrame_def)
  ultimately show ?thesis
    using n False by (auto simp: readFrame_def be_uint_put Let_def readFull_def)
qed

theorem truncated_frame_witness:
  "readFrame \<lparr>pending = take 4 (encodeFrame sample_frame), ending = AtEOF\<rparr> = Inl EOF"
  using truncated_frame [of sample_frame 4]
  by (simp add: sample_frame_def sendable_def maxFrame_def encodeFrame_def)

end
