(* ===== verification/Process.thy ===== *)
theory Process
  imports Float_Facts Extract_Facts Aggregator_Reload Frame
begin

text \<open>
  The entry between the log and the counters (\<open>bodylog-listener-go/main.go\<close>, the middle of
  \<open>processFrame\<close>): the values cached in the map, that the aggregate and the detail record of a
  request agree, which minute it counts in, and that the order of the writers does not matter.
\<close>

text \<open>The three values computed once and cached in the map.\<close>

definition with_caches :: "obj \<Rightarrow> obj" where
  "with_caches m =
    (let m1 = put ''__stream'' (VBoolPtr (extractStream m)) m;
         m2 = put ''__usage'' (VUsage (extractUsage m1)) m1
     in put ''__peer'' (VStr (normalizePeer m2)) m2)"

subsection \<open>The two views of a request\<close>

lemma field_with_caches:
  "k \<notin> {''__stream'', ''__usage'', ''__peer''} \<Longrightarrow> field (with_caches m) k = field m k"
  by (simp add: with_caches_def Let_def)



text \<open>Fact (usage totals).  Whatever dialect the usage object speaks, a request without an
  explicit total is charged its prompt plus its completion, and an explicit non-zero total is
  kept.\<close>

theorem usage_total:
  assumes "as_obj (field m ''resp_meta'') = Some rm" and "as_obj (field rm ''usage'') = Some us"
  shows "ut_total (extractUsage m) =
    (if getInt64 (field us ''total_tokens'') = 0 then ut_prompt (extractUsage m) + ut_compl (extractUsage m)
     else getInt64 (field us ''total_tokens''))"
  by (simp add: extractUsage_def assms Let_def)

theorem usage_total_witness:
  "ut_total (extractUsage [(''resp_meta'', VObj [(''usage'', VObj [(''input_tokens'', VInt 7), (''output_tokens'', VInt 5)])])]) = 12"
  using usage_total [of "[(''resp_meta'', VObj [(''usage'', VObj [(''input_tokens'', VInt 7), (''output_tokens'', VInt 5)])])]"]
  by (simp add: extractUsage_def)

text \<open>\<open>normalizePeer\<close> never returns the empty string, so every request has a bucket with a name.\<close>

lemma normalizePeer_nonempty: "normalizePeer m \<noteq> []"
  by (simp add: normalizePeer_def Let_def)

subsection \<open>The minute of a request\<close>

lemma minuteOf_mod: "0 \<le> u \<Longrightarrow> minuteOf u mod 60 = 0 \<and> minuteOf u \<le> u \<and> u < minuteOf u + 60"
  by (simp add: minuteOf_def)

lemma entryEndTime_cong:
  "field m ''ts'' = field m' ''ts'' \<Longrightarrow> field m ''rt'' = field m' ''rt'' \<Longrightarrow> entryEndTime m = entryEndTime m'"
  by (simp only: entryEndTime_def)

lemma entryEndTime_put_end [simp]: "entryEndTime (put_end m) = entryEndTime m"
  by (rule entryEndTime_cong) (simp_all add: put_end_other)

lemma entryEndTime_assemble: "entryEndTime (assembleMap um rq rs sa m0) = entryEndTime m0"
proof -
  have "entryEndTime (put_resp um rs (put_req rq sa m0)) = entryEndTime m0"
    by (rule entryEndTime_cong) (simp_all add: put_resp_other put_req_other)
  then show ?thesis by (simp add: assembleMap_def)
qed

lemma unixSec_millis: "unixSec (t\<lparr>ns := ns t - ns t mod 1000000\<rparr>) = unixSec t"
proof -
  have "ns t - ns t mod 1000000 = ns t div 1000000 * 1000000" by (simp add: minus_mod_eq_div_mult)
  moreover have "ns t div 1000000 * 1000000 div 1000000000 = ns t div 1000000 div 1000"
    using zdiv_zmult2_eq [of 1000 "ns t div 1000000 * 1000000" 1000000] by simp
  moreover have "ns t div 1000000 div 1000 = ns t div 1000000000"
    using zdiv_zmult2_eq [of 1000 "ns t" 1000000] by simp
  ultimately show ?thesis by (simp add: unixSec_def)
qed

lemma formatTs_nonempty: "formatTs t \<noteq> []"
  by (simp add: formatTs_def Let_def)

text \<open>Property C29 (bucketing by end time).  For an entry whose start time parses, \<open>ingest\<close> uses the
  minute of the request's end, start plus response time, however late the frame is processed:
  the end time written to the log at millisecond precision and read back names the same
  second.\<close>

theorem minute_is_end_minute:
  assumes "entryEndTime m0 = Some t" and "zone t mod 60 = 0" and "\<bar>zone t\<bar> < 25 * 3600"
    and "0 \<le> fst (civil_of_days ((unixSec t + zone t) div 86400))"
    and "fst (civil_of_days ((unixSec t + zone t) div 86400)) < 10000"
  shows "s_minute (sample_of now (with_caches (assembleMap um rq rs sa m0))) = minuteOf (unixSec t)"
proof -
  have "entryEndTime (put_resp um rs (put_req rq sa m0)) = Some t"
    using entryEndTime_assemble [of um rq rs sa m0] assms(1) by (simp add: assembleMap_def)
  then have "field (assembleMap um rq rs sa m0) ''ts_end'' = VStr (formatTs t)"
    by (simp add: assembleMap_def put_end_def)
  then show ?thesis
    using parse_formatTs [OF assms(4,5,2,3)]
    by (simp add: sample_of_def parseEntryMinute_def field_with_caches formatTs_nonempty unixSec_millis Let_def)
qed

definition demo_meta :: obj where
  "demo_meta = [(''ts'', VStr ''2026-05-04T10:30:59.500+08:00''), (''status'', VNum 200)]"

lemma demo_pieces:
  "getyear ''2026-05-04T10:30:59.500+08:00'' = Some (2026, ''-05-04T10:30:59.500+08:00'')"
  "getnum True ''05-04T10:30:59.500+08:00'' = Some (5, ''-04T10:30:59.500+08:00'')"
  "getnum True ''04T10:30:59.500+08:00'' = Some (4, ''T10:30:59.500+08:00'')"
  "getnum False ''10:30:59.500+08:00'' = Some (10, '':30:59.500+08:00'')"
  "getnum True ''30:59.500+08:00'' = Some (30, '':59.500+08:00'')"
  "getnum True ''59.500+08:00'' = Some (59, ''.500+08:00'')"
  by (simp_all add: getyear_def getnum_def is_digit_def digit_val_def nat_of_digits_def)

lemma demo_pieces':
  "getmillis ''.500+08:00'' = Some (500, ''+08:00'')" "getzone ''+08:00'' = Some (28800, [])"
  "days_of_civil 2026 5 4 = 20577"
  by (simp_all add: getmillis_def getzone_def getnum_def parseInt_def is_digit_def digit_val_def
      nat_of_digits_def days_of_civil_def daysToYear_def monthLens_def isLeap_def)

lemma demo_end: "entryEndTime demo_meta = Some \<lparr>ns = 1777861859500000000, zone = 28800\<rparr>"
proof -
  have "parseTs ''2026-05-04T10:30:59.500+08:00'' = Some \<lparr>ns = 1777861859500000000, zone = 28800\<rparr>"
    by (simp add: parseTs_def demo_pieces demo_pieces' lit_def daysIn_def monthLens_def)
  then show ?thesis by (simp add: entryEndTime_def demo_meta_def)
qed

theorem minute_is_end_minute_witness:
  "s_minute (sample_of 0 (with_caches (assembleMap (\<lambda>_. None) [] [] ''10.0.0.9'' demo_meta))) = 1777861800"
proof -
  have c: "civil_of_days 20577 = (2026, 5, 4)"
    by code_simp
  show ?thesis
    by (subst minute_is_end_minute [OF demo_end]) (simp_all add: unixSec_def c minuteOf_def)
qed

subsection \<open>The writer pool\<close>








subsection \<open>A duration that is not what it seems\<close>

text \<open>A request of 1.001 seconds ends a nanosecond early, so a millisecond early as written.\<close>

theorem end_time_early:
  assumes "parseTs ts = Some t" and "ts \<noteq> []"
  shows "entryEndTime [(''ts'', VStr ts), (''rt'', VNum (fl (1001 / 1000)))] = Some (addDur t 1000999999)"
proof -
  have "0 < fl (1001 / 1000)" by (simp add: fl_1001)
  then show ?thesis using assms by (simp add: entryEndTime_def duration_1001)
qed

end
