(* ===== verification/Store.thy ===== *)
theory Store
  imports Go_Strings Go_Time
begin

text \<open>
  The listener's data directory as retention and housekeeping see it
  (\<open>bodylog-listener-go/main.go\<close>, \<open>retention.go\<close>): the entries of \<open>BODYLOG_DIR\<close> and of
  \<open>metrics/details\<close>, by name, and \<open>isDateName\<close>.
\<close>

text \<open>A directory is the list of the regular files below it, by path relative to it: what
  \<open>filepath.Walk\<close> visits and what \<open>os.RemoveAll\<close> removes.  The compressed formats are known by
  what they decode to; \<open>Damaged\<close> is a file that does not decode.\<close>

type_synonym files = "(string \<times> bytes) list"

datatype content = Plain bytes | Gzip bytes | TarGz files | Parquet bytes | Damaged

datatype node = File content | Dir files

record store =
  root :: "(string \<times> node) list"
  ddir :: "(string \<times> node) list"

definition wf_store :: "store \<Rightarrow> bool" where
  "wf_store st \<longleftrightarrow> wf_map (root st) \<and> wf_map (ddir st)"

text \<open>\<open>os.Stat(path)\<close> succeeds.\<close>

definition exists_in :: "(string \<times> node) list \<Rightarrow> string \<Rightarrow> bool" where
  "exists_in m name \<longleftrightarrow> map_of m name \<noteq> None"

definition isDir :: "node \<Rightarrow> bool" where
  "isDir n = (case n of Dir _ \<Rightarrow> True | File _ \<Rightarrow> False)"

definition isDateName :: "string \<Rightarrow> bool" where
  "isDateName s =
    (if length s \<noteq> 10 \<or> s ! 4 \<noteq> CHR ''-'' \<or> s ! 7 \<noteq> CHR ''-'' then False
     else list_all (\<lambda>i. i = 4 \<or> i = 7 \<or> is_digit (s ! i)) [0..<10])"

text \<open>\<open>t.AddDate(0, 0, -n).Format("2006-01-02")\<close> in the local zone of \<open>t\<close>.\<close>

definition dateMinus :: "gotime \<Rightarrow> int \<Rightarrow> string" where
  "dateMinus t n = formatDay ((unixSec t + zone t) div 86400 - n)"

subsection \<open>Suffixes\<close>

lemma hasSuffix_append [simp]: "hasSuffix (s @ p) p"
  by (simp add: hasSuffix_def)

lemma hasSuffix_iff: "hasSuffix s p \<longleftrightarrow> (\<exists>q. s = q @ p)"
proof
  assume s: "hasSuffix s p"
  then show "\<exists>q. s = q @ p"
    by (intro exI [of _ "take (length s - length p) s"]) (metis append_take_drop_id hasSuffix_def)
qed auto

lemma trimSuffix_append [simp]: "trimSuffix (s @ p) p = s"
  by (simp add: trimSuffix_def)

lemma trimSuffix_eq: "hasSuffix s p \<Longrightarrow> trimSuffix s p @ p = s"
  by (auto simp: hasSuffix_iff)

lemma isDateName_length: "isDateName s \<Longrightarrow> length s = 10"
  by (simp add: isDateName_def split: if_splits)

lemma isDateName_chars: "isDateName s \<Longrightarrow> c \<in> set s \<Longrightarrow> c = CHR ''-'' \<or> is_digit c"
proof -
  assume d: "isDateName s" and "c \<in> set s"
  then obtain i where i: "i < 10" "c = s ! i" using isDateName_length [OF d] by (auto simp: in_set_conv_nth)
  then have "i \<in> set [0..<10]" by simp
  with d have "i = 4 \<or> i = 7 \<or> is_digit (s ! i)" by (simp add: isDateName_def list_all_iff split: if_splits)
  moreover have "s ! 4 = CHR ''-''" "s ! 7 = CHR ''-''" using d by (auto simp: isDateName_def split: if_splits)
  ultimately show ?thesis using i by auto
qed

text \<open>A date followed by an extension: the extension starts at the eleventh byte, so names with
  different extensions differ and a bare date has none.\<close>

lemma date_ext_inj:
  assumes "isDateName d" "isDateName e" "d @ x = e @ y"
  shows "d = e \<and> x = y"
  using assms isDateName_length by (metis append_eq_append_conv)

lemma date_no_dot: "isDateName d \<Longrightarrow> CHR ''.'' \<notin> set d"
  using isDateName_chars [of d "CHR ''.''"] by (auto simp: is_digit_def)

end
