(* ===== verification/Housekeep.thy ===== *)
theory Housekeep
  imports Store
begin

text \<open>
  Housekeeping (\<open>bodylog-listener-go/main.go\<close>: \<open>housekeep\<close>, \<open>rotateDetails\<close>, \<open>tarGzDir\<close>,
  \<open>verifyTarGz\<close>, \<open>gzipFile\<close>): day directories become archives, crashed temporary files go,
  legacy logs are compressed, closed details become parquet.

  What the operating system and the compression libraries do with one request is the \<open>io\<close>
  record, a parameter: whether a removal or rename succeeds, what a failed \<open>os.RemoveAll\<close>
  leaves, what the bytes written for an archive read back as.
\<close>

text \<open>Writing a file: not even created, failed half way leaving something behind, or done.\<close>

datatype write_out = NotCreated | Failed content | Written content

record io =
  io_rm :: "string \<Rightarrow> bool"
  io_rmAll :: "string \<Rightarrow> files \<Rightarrow> files option"
  io_tar :: "string \<Rightarrow> files \<Rightarrow> write_out"
  io_rename :: "string \<Rightarrow> bool"
  io_gzip :: "string \<Rightarrow> content \<Rightarrow> write_out"
  io_copy :: "string \<Rightarrow> content \<Rightarrow> write_out"

subsection \<open>Archiving a directory\<close>

text \<open>\<open>verifyTarGz\<close>: the archive decodes to the end and has every file of the directory.\<close>

definition verifyTarGz :: "content \<Rightarrow> files \<Rightarrow> bool" where
  "verifyTarGz c src = (case c of
      TarGz ms \<Rightarrow> list_all (\<lambda>(n, _). n \<in> set (map fst ms)) src
    | _ \<Rightarrow> False)"

text \<open>\<open>tarGzDir\<close>: the archive it leaves at \<open>dst\<close>, or an error; the temporary file is gone either
  way, renamed or removed.\<close>

definition tarGzDir :: "io \<Rightarrow> string \<Rightarrow> files \<Rightarrow> content option" where
  "tarGzDir ops dst src = (case io_tar ops dst src of
      Written c \<Rightarrow> if verifyTarGz c src \<and> io_rename ops dst then Some c else None
    | _ \<Rightarrow> None)"

definition removeAll :: "io \<Rightarrow> string \<Rightarrow> files \<Rightarrow> store \<Rightarrow> store" where
  "removeAll ops name fs st = (case io_rmAll ops name fs of
      None \<Rightarrow> st\<lparr>root := del name (root st)\<rparr>
    | Some rest \<Rightarrow> st\<lparr>root := put name (Dir rest) (root st)\<rparr>)"

definition archive_day :: "io \<Rightarrow> string \<Rightarrow> files \<Rightarrow> store \<Rightarrow> store" where
  "archive_day ops name fs st =
    (let dst = name @ ''.tar.gz'' in
     if exists_in (root st) dst then removeAll ops name fs st
     else case tarGzDir ops dst fs of
            None \<Rightarrow> st
          | Some c \<Rightarrow> removeAll ops name fs (st\<lparr>root := put dst (File c) (root st)\<rparr>))"

text \<open>The legacy branch: \<open>gzipFile\<close> writes the final name in place.\<close>

definition gzip_legacy :: "io \<Rightarrow> string \<Rightarrow> content \<Rightarrow> store \<Rightarrow> store" where
  "gzip_legacy ops name c st =
    (let dst = name @ ''.gz'' in
     if exists_in (root st) dst then st
     else case io_gzip ops dst c of
            NotCreated \<Rightarrow> st
          | Failed g \<Rightarrow> st\<lparr>root := put dst (File g) (root st)\<rparr>
          | Written g \<Rightarrow>
              (let st1 = st\<lparr>root := put dst (File g) (root st)\<rparr>
               in if io_rm ops name then st1\<lparr>root := del name (root st1)\<rparr> else st1))"

subsection \<open>housekeep\<close>

text \<open>One entry of the snapshot \<open>os.ReadDir\<close> took; a directory's files are read when it is
  packed.\<close>

definition house_entry :: "io \<Rightarrow> string \<Rightarrow> string \<times> node \<Rightarrow> store \<Rightarrow> store" where
  "house_entry ops today e st =
    (let name = fst e in
     if isDir (snd e) \<and> isDateName name then
       (if name = today then st
        else case map_of (root st) name of Some (Dir fs) \<Rightarrow> archive_day ops name fs st | _ \<Rightarrow> st)
     else if \<not> isDir (snd e) \<and> (hasSuffix name ''.tar.gz.tmp'' \<or> contains name ''.tar.gz.tmp-'') then
       (if io_rm ops name then st\<lparr>root := del name (root st)\<rparr> else st)
     else if \<not> isDir (snd e) \<and> hasSuffix name ''.jsonl'' then
       (let base = trimSuffix name ''.jsonl'' in
        if base = today \<or> \<not> isDateName base then st
        else case map_of (root st) name of Some (File c) \<Rightarrow> gzip_legacy ops name c st | _ \<Rightarrow> st)
     else st)"

text \<open>The details directory: removing a jsonl, converting one, one entry.\<close>

definition drop_jsonl :: "io \<Rightarrow> string \<Rightarrow> store \<Rightarrow> store" where
  "drop_jsonl ops name st = (if io_rm ops name then st\<lparr>ddir := del name (ddir st)\<rparr> else st)"

definition convert_jsonl :: "io \<Rightarrow> string \<Rightarrow> string \<Rightarrow> content \<Rightarrow> store \<Rightarrow> store" where
  "convert_jsonl ops name pq c st = (case io_copy ops pq c of
       Written p \<Rightarrow> drop_jsonl ops name (st\<lparr>ddir := put pq (File p) (ddir st)\<rparr>)
     | Failed p \<Rightarrow> if io_rm ops pq then st else st\<lparr>ddir := put pq (File p) (ddir st)\<rparr>
     | NotCreated \<Rightarrow> st)"

definition rotate_entry :: "io \<Rightarrow> bool \<Rightarrow> string \<Rightarrow> string \<Rightarrow> string \<times> node \<Rightarrow> store \<Rightarrow> store" where
  "rotate_entry ops duckDB today cutoff e st =
    (let name = fst e in
     if isDir (snd e) then st
     else if hasSuffix name ''.jsonl'' then
       (let date = trimSuffix name ''.jsonl'' in
        if \<not> isDateName date \<or> date = today then st
        else if date < cutoff then st
        else
          (let pq = date @ ''.parquet'' in
           if exists_in (ddir st) pq then drop_jsonl ops name st
           else if \<not> duckDB then st
           else case map_of (ddir st) name of
                  Some (File c) \<Rightarrow> convert_jsonl ops name pq c st
                | _ \<Rightarrow> st))
     else st)"

definition rotateDetails :: "io \<Rightarrow> bool \<Rightarrow> string \<Rightarrow> string \<Rightarrow> store \<Rightarrow> store" where
  "rotateDetails ops duckDB today cutoff st = fold (rotate_entry ops duckDB today cutoff) (ddir st) st"

definition housekeep :: "io \<Rightarrow> bool \<Rightarrow> string \<Rightarrow> string \<Rightarrow> store \<Rightarrow> store" where
  "housekeep ops duckDB today cutoff st =
     rotateDetails ops duckDB today cutoff (fold (house_entry ops today) (root st) st)"

end
