(* ===== verification/Retention.thy ===== *)
theory Retention
  imports Store
begin

text \<open>
  Retention (\<open>bodylog-listener-go/retention.go\<close>): the candidates for deletion in
  disk-pressure order and one pass of \<open>prune\<close>, by age and by disk usage.  Sizes and disk
  figures are 64-bit words and compare unsigned.

  A candidate's path is \<open>Join(dir, name)\<close> or \<open>Join(ddir, name)\<close>, so comparing the paths of two
  candidates of one list is comparing their names.
\<close>

record pruneCandidate =
  c_date :: string
  c_name :: string
  c_size :: int64
  c_details :: bool

text \<open>The switch on the file name, for an archive and for a details file: the date of a
  candidate, or nothing.\<close>

definition archive_date :: "store \<Rightarrow> string \<Rightarrow> string option" where
  "archive_date st name =
    (if hasSuffix name ''.tar.gz'' then Some (trimSuffix name ''.tar.gz'')
     else if hasSuffix name ''.jsonl.gz'' then
       (let date = trimSuffix name ''.jsonl.gz'' in
        if exists_in (root st) (date @ ''.jsonl'') then None else Some date)
     else None)"

definition details_date :: "bool \<Rightarrow> string \<Rightarrow> store \<Rightarrow> string \<Rightarrow> string option" where
  "details_date duckDB cutoff st name =
    (if hasSuffix name ''.parquet'' then
       (let date = trimSuffix name ''.parquet'' in
        if exists_in (ddir st) (date @ ''.jsonl'') then None else Some date)
     else if hasSuffix name ''.jsonl'' then
       (let date = trimSuffix name ''.jsonl'' in
        if duckDB \<and> date \<ge> cutoff then None else Some date)
     else None)"

definition archive_candidate :: "(content \<Rightarrow> int64) \<Rightarrow> store \<Rightarrow> string \<times> node \<Rightarrow> pruneCandidate option" where
  "archive_candidate sizeOf st e = (case snd e of
      Dir _ \<Rightarrow> None
    | File c \<Rightarrow>
       (case archive_date st (fst e) of
          Some date \<Rightarrow> if isDateName date
            then Some \<lparr>c_date = date, c_name = fst e, c_size = sizeOf c, c_details = False\<rparr> else None
        | None \<Rightarrow> None))"

definition details_candidate ::
  "(content \<Rightarrow> int64) \<Rightarrow> bool \<Rightarrow> string \<Rightarrow> string \<Rightarrow> store \<Rightarrow> string \<times> node \<Rightarrow> pruneCandidate option" where
  "details_candidate sizeOf duckDB today cutoff st e = (case snd e of
      Dir _ \<Rightarrow> None
    | File c \<Rightarrow>
       (case details_date duckDB cutoff st (fst e) of
          Some date \<Rightarrow> if isDateName date \<and> date \<noteq> today
            then Some \<lparr>c_date = date, c_name = fst e, c_size = sizeOf c, c_details = True\<rparr> else None
        | None \<Rightarrow> None))"

text \<open>\<open>byDate\<close>: by date, then by path.\<close>

definition byDate :: "pruneCandidate list \<Rightarrow> pruneCandidate list" where
  "byDate cs = sort_key c_date (sort_key c_name cs)"

definition pruneCandidates ::
  "(content \<Rightarrow> int64) \<Rightarrow> bool \<Rightarrow> string \<Rightarrow> string \<Rightarrow> store \<Rightarrow> pruneCandidate list" where
  "pruneCandidates sizeOf duckDB today cutoff st =
     byDate (List.map_filter (archive_candidate sizeOf st) (root st)) @
     byDate (List.map_filter (details_candidate sizeOf duckDB today cutoff st) (ddir st))"

subsection \<open>One pass\<close>

text \<open>The configuration and the disk-step state; times are in nanoseconds.\<close>

record prune_conf =
  keepDays :: int
  detailsKeepDays :: int
  diskUsagePct :: int
  hasDuckDB :: bool

record prune_state =
  lastDiskBatch :: int
  lastDiskWarn :: int

definition diskCooldown :: int where
  "diskCooldown = 10 * 60 * 1000000000"

definition diskWarnEvery :: int where
  "diskWarnEvery = 3600 * 1000000000"

definition remove_file :: "pruneCandidate \<Rightarrow> store \<Rightarrow> store" where
  "remove_file c st = (if c_details c then st\<lparr>ddir := del (c_name c) (ddir st)\<rparr>
     else st\<lparr>root := del (c_name c) (root st)\<rparr>)"

text \<open>\<open>rm c\<close>: whether \<open>os.Remove\<close> of the candidate succeeds.\<close>

definition expired :: "string \<Rightarrow> string \<Rightarrow> pruneCandidate \<Rightarrow> bool" where
  "expired archiveCutoff detailsCutoff c \<longleftrightarrow>
     (\<not> c_details c \<and> c_date c < archiveCutoff) \<or> (c_details c \<and> c_date c < detailsCutoff)"

text \<open>The age loop: what it removed, the bytes freed, the candidates left.\<close>

fun age_loop ::
  "(pruneCandidate \<Rightarrow> bool) \<Rightarrow> (pruneCandidate \<Rightarrow> bool) \<Rightarrow> pruneCandidate list
     \<Rightarrow> pruneCandidate list \<times> uint64 \<times> pruneCandidate list" where
  "age_loop rm old [] = ([], 0, [])"
| "age_loop rm old (c # cs) =
     (case age_loop rm old cs of (removed, freed, left) \<Rightarrow>
        if old c then (if rm c then (c # removed, c_size c + freed, left) else (removed, freed, left))
        else (removed, freed, c # left))"

text \<open>The disk loop: it stops once \<open>need\<close> bytes are freed.\<close>

fun disk_loop :: "(pruneCandidate \<Rightarrow> bool) \<Rightarrow> uint64 \<Rightarrow> uint64 \<Rightarrow> pruneCandidate list \<Rightarrow> pruneCandidate list" where
  "disk_loop rm need freed [] = []"
| "disk_loop rm need freed (c # cs) =
     (if freed \<ge> need then []
      else if rm c then c # disk_loop rm need (freed + c_size c) cs
      else disk_loop rm need freed cs)"

definition sum_sizes :: "pruneCandidate list \<Rightarrow> uint64" where
  "sum_sizes cs = sum_list (map c_size cs)"

definition disk_limit :: "uint64 \<Rightarrow> int \<Rightarrow> uint64" where
  "disk_limit tot p = tot * word_of_int p div 100"

text \<open>The used bytes, those of the age step counted as freed.\<close>

definition effective_used :: "uint64 \<Rightarrow> uint64 \<Rightarrow> uint64" where
  "effective_used ageFreed used0 = (if ageFreed \<ge> used0 then 0 else used0 - ageFreed)"

text \<open>The disk step: \<open>stat\<close> is what \<open>statfs\<close> reports (used, total), \<open>None\<close> on an error;
  \<open>now\<close>, \<open>now'\<close> and \<open>now''\<close> the readings of the clock.\<close>

definition disk_step ::
  "prune_conf \<Rightarrow> (pruneCandidate \<Rightarrow> bool) \<Rightarrow> (uint64 \<times> uint64) option \<Rightarrow> int \<Rightarrow> int \<Rightarrow> uint64
     \<Rightarrow> pruneCandidate list \<Rightarrow> prune_state \<Rightarrow> pruneCandidate list \<times> prune_state" where
  "disk_step conf rm stat now now' ageFreed left ps =
    (if diskUsagePct conf \<le> 0 then ([], ps)
     else case stat of
       None \<Rightarrow> ([], ps)
     | Some (used0, tot) \<Rightarrow>
        if tot = 0 then ([], ps)
        else
          (let used = effective_used ageFreed used0;
               limit = disk_limit tot (diskUsagePct conf) in
           if used < limit then ([], ps)
           else if now - lastDiskBatch ps < diskCooldown then ([], ps)
           else
             (let need = used - limit + 1; avail = sum_sizes left in
              if avail < need then
                ([], if now - lastDiskWarn ps \<ge> diskWarnEvery then ps\<lparr>lastDiskWarn := now\<rparr> else ps)
              else (disk_loop rm need 0 left, ps\<lparr>lastDiskBatch := now'\<rparr>))))"

definition prune ::
  "prune_conf \<Rightarrow> (content \<Rightarrow> int64) \<Rightarrow> (pruneCandidate \<Rightarrow> bool) \<Rightarrow> (uint64 \<times> uint64) option
     \<Rightarrow> gotime \<Rightarrow> int \<Rightarrow> int \<Rightarrow> store \<times> prune_state \<Rightarrow> pruneCandidate list \<times> store \<times> prune_state" where
  "prune conf sizeOf rm stat t now now' sp =
    (let archiveCutoff = dateMinus t (keepDays conf);
         detailsCutoff = dateMinus t (detailsKeepDays conf);
         cands = pruneCandidates sizeOf (hasDuckDB conf) (formatDate t) detailsCutoff (fst sp);
         (aged, ageFreed, left) = age_loop rm (expired archiveCutoff detailsCutoff) cands;
         (batch, ps) = disk_step conf rm stat now now' ageFreed left (snd sp)
     in (aged @ batch, fold remove_file (aged @ batch) (fst sp), ps))"

subsection \<open>Candidates\<close>

lemma set_map_filter: "set (List.map_filter f xs) = {y. \<exists>x \<in> set xs. f x = Some y}"
  by (induction xs) (auto simp: map_filter_def split: option.splits)

lemma byDate_set [simp]: "set (byDate cs) = set cs" "mset (byDate cs) = mset cs"
  by (simp_all add: byDate_def)

lemma ext_differ:
  "\<not> hasSuffix (d @ ''.jsonl.gz'') ''.tar.gz''" "\<not> hasSuffix (d @ ''.jsonl'') ''.parquet''"
  by (simp_all add: hasSuffix_def)

lemma archive_candidate_parts:
  "archive_candidate sizeOf st e = Some c \<longleftrightarrow> (\<exists>x. snd e = File x \<and> isDateName (c_date c) \<and> c_size c = sizeOf x
     \<and> c_name c = fst e \<and> \<not> c_details c
     \<and> (fst e = c_date c @ ''.tar.gz'' \<or> fst e = c_date c @ ''.jsonl.gz'' \<and> \<not> exists_in (root st) (c_date c @ ''.jsonl'')))"
  by (cases c; cases "snd e")
    (auto simp: archive_candidate_def archive_date_def Let_def ext_differ trimSuffix_eq hasSuffix_iff split: option.splits if_splits)

lemma details_candidate_parts:
  "details_candidate sizeOf duckDB today cutoff st e = Some c \<longleftrightarrow> (\<exists>x. snd e = File x \<and> isDateName (c_date c)
     \<and> c_size c = sizeOf x \<and> c_name c = fst e \<and> c_details c \<and> c_date c \<noteq> today
     \<and> (fst e = c_date c @ ''.parquet'' \<and> \<not> exists_in (ddir st) (c_date c @ ''.jsonl'')
        \<or> fst e = c_date c @ ''.jsonl'' \<and> (duckDB \<longrightarrow> c_date c < cutoff)))"
proof (cases "snd e")
  case (File x)
  show ?thesis
  proof (cases "hasSuffix (fst e) ''.parquet''")
    case True
    then obtain d where "fst e = d @ ''.parquet''" by (auto simp: hasSuffix_iff)
    then show ?thesis by (cases c) (auto simp: File details_candidate_def details_date_def Let_def ext_differ trimSuffix_eq hasSuffix_iff split: option.splits if_splits)
  next
    case False
    then show ?thesis by (cases c) (auto simp: File details_candidate_def details_date_def Let_def ext_differ trimSuffix_eq hasSuffix_iff split: option.splits if_splits)
  qed
qed (auto simp: details_candidate_def)

lemma archive_candidate_iff:
  "archive_candidate sizeOf st e = Some c \<longleftrightarrow> (\<exists>x. e = (c_name c, File x) \<and> isDateName (c_date c)
     \<and> c_size c = sizeOf x \<and> \<not> c_details c
     \<and> (c_name c = c_date c @ ''.tar.gz''
        \<or> c_name c = c_date c @ ''.jsonl.gz'' \<and> \<not> exists_in (root st) (c_date c @ ''.jsonl'')))"
  unfolding archive_candidate_parts by (intro ex_cong1) (auto simp: prod_eq_iff)

lemma details_candidate_iff:
  "details_candidate sizeOf duckDB today cutoff st e = Some c \<longleftrightarrow> (\<exists>x. e = (c_name c, File x) \<and> isDateName (c_date c)
     \<and> c_size c = sizeOf x \<and> c_details c \<and> c_date c \<noteq> today
     \<and> (c_name c = c_date c @ ''.parquet'' \<and> \<not> exists_in (ddir st) (c_date c @ ''.jsonl'')
        \<or> c_name c = c_date c @ ''.jsonl'' \<and> (duckDB \<longrightarrow> c_date c < cutoff)))"
  unfolding details_candidate_parts by (intro ex_cong1) (auto simp: prod_eq_iff)

end
