(* ===== verification/Housekeep_Facts.thy ===== *)
theory Housekeep_Facts
  imports Housekeep Retention
begin

text \<open>
  What a housekeeping pass may do to the files: a day's directory is removed only when its
  archive has every file, today is left alone, nothing retention may delete is touched; and
  the two ways in which the existence of the product is taken for its completeness.
\<close>

subsection \<open>What an entry touches\<close>

definition house_names :: "string \<Rightarrow> string \<times> node \<Rightarrow> string set" where
  "house_names today e =
     (if isDir (snd e) then (if isDateName (fst e) \<and> fst e \<noteq> today then {fst e, fst e @ ''.tar.gz''} else {})
      else if hasSuffix (fst e) ''.tar.gz.tmp'' \<or> contains (fst e) ''.tar.gz.tmp-'' then {fst e}
      else if hasSuffix (fst e) ''.jsonl'' \<and> isDateName (trimSuffix (fst e) ''.jsonl'') then {fst e, fst e @ ''.gz''}
      else {})"

lemma removeAll_other: "x \<noteq> name \<Longrightarrow> map_of (root (removeAll ops name fs st)) x = map_of (root st) x"
  by (simp add: removeAll_def split: option.split)

lemma archive_day_other:
  "x \<noteq> name \<Longrightarrow> x \<noteq> name @ ''.tar.gz'' \<Longrightarrow> map_of (root (archive_day ops name fs st)) x = map_of (root st) x"
  by (simp add: archive_day_def Let_def removeAll_other split: option.split)

lemma gzip_legacy_other:
  "x \<noteq> name \<Longrightarrow> x \<noteq> name @ ''.gz'' \<Longrightarrow> map_of (root (gzip_legacy ops name c st)) x = map_of (root st) x"
  by (simp add: gzip_legacy_def Let_def split: write_out.split)

lemma ddir_house [simp]:
  "ddir (removeAll ops name fs st) = ddir st" "ddir (archive_day ops name fs st) = ddir st"
  "ddir (gzip_legacy ops name c st) = ddir st" "ddir (house_entry ops today e st) = ddir st"
  "ddir (fold (house_entry ops today) es st) = ddir st"
proof -
  show r: "ddir (removeAll ops name fs st) = ddir st" for name fs st
    by (simp add: removeAll_def split: option.split)
  show a: "ddir (archive_day ops name fs st) = ddir st" for name fs st
    by (simp add: archive_day_def Let_def r split: option.split)
  show g: "ddir (gzip_legacy ops name c st) = ddir st" for name c st
    by (simp add: gzip_legacy_def Let_def split: write_out.split)
  show h: "ddir (house_entry ops today e st) = ddir st" for e st
    by (simp add: house_entry_def Let_def a g split: option.split node.split)
  show "ddir (fold (house_entry ops today) es st) = ddir st"
    by (induction es arbitrary: st) (simp_all add: h)
qed

lemma root_rotate [simp]:
  "root (rotate_entry ops duckDB today cutoff e st) = root st"
  "root (fold (rotate_entry ops duckDB today cutoff) es st) = root st"
proof -
  have "root (convert_jsonl ops name pq c st) = root st" for name pq c st
    by (simp add: convert_jsonl_def drop_jsonl_def split: write_out.split)
  then show r: "root (rotate_entry ops duckDB today cutoff e st) = root st" for e st
    by (simp add: rotate_entry_def Let_def drop_jsonl_def split: option.split node.split)
  show "root (fold (rotate_entry ops duckDB today cutoff) es st) = root st"
    by (induction es arbitrary: st) (simp_all add: r)
qed

lemma housekeep_root: "root (housekeep ops duckDB today cutoff st) = root (fold (house_entry ops today) (root st) st)"
  by (simp add: housekeep_def rotateDetails_def)

lemma housekeep_ddir:
  "ddir (housekeep ops duckDB today cutoff st) =
     ddir (fold (rotate_entry ops duckDB today cutoff) (ddir st) (fold (house_entry ops today) (root st) st))"
  by (simp add: housekeep_def rotateDetails_def)

lemma house_entry_other:
  "x \<notin> house_names today e \<Longrightarrow> map_of (root (house_entry ops today e st)) x = map_of (root st) x"
proof (cases e)
  case (Pair name n)
  assume "x \<notin> house_names today e"
  then show ?thesis
    by (cases "isDir n") (auto simp: Pair house_entry_def house_names_def Let_def archive_day_other gzip_legacy_other
      split: option.split node.split)
qed

lemma house_fold_other:
  "\<forall>e \<in> set es. x \<notin> house_names today e \<Longrightarrow> map_of (root (fold (house_entry ops today) es st)) x = map_of (root st) x"
  by (induction es arbitrary: st) (simp_all add: house_entry_other)

text \<open>A date or the archive of a date is touched by the entry of that date only.\<close>

lemma contains_char: "contains s p \<Longrightarrow> c \<in> set p \<Longrightarrow> c \<in> set s"
proof (induction s)
  case (Cons x xs)
  have "set p \<subseteq> set (x # xs)" if "hasPrefix (x # xs) p"
    using that unfolding hasPrefix_def by (metis set_take_subset)
  then show ?case using Cons by auto
qed simp

lemma suffix_char: "hasSuffix s p \<Longrightarrow> c \<in> set p \<Longrightarrow> c \<in> set s"
  by (auto simp: hasSuffix_iff)

lemma date_letters:
  assumes "isDateName d" "x = d \<or> x = d @ ''.tar.gz''"
  shows "CHR ''m'' \<notin> set x" and "CHR ''j'' \<notin> set x"
  using assms isDateName_chars [of d "CHR ''m''"] isDateName_chars [of d "CHR ''j''"] by (auto simp: is_digit_def)

lemma date_not_touched:
  assumes "isDateName d" "fst e \<noteq> d" "x = d \<or> x = d @ ''.tar.gz''"
  shows "x \<notin> house_names today e"
proof
  assume t: "x \<in> house_names today e"
  note l = date_letters [OF assms(1,3)]
  show False
  proof (cases "isDir (snd e)")
    case True
    with t have e: "isDateName (fst e)" "x = fst e \<or> x = fst e @ ''.tar.gz''"
      by (auto simp: house_names_def split: if_splits)
    then show False
      using assms date_ext_inj [OF assms(1) e(1), of "''.tar.gz''" "''.tar.gz''"] isDateName_length [OF assms(1)]
        isDateName_length [OF e(1)] by auto
  next
    case False
    then consider "x = fst e" "hasSuffix (fst e) ''.tar.gz.tmp'' \<or> contains (fst e) ''.tar.gz.tmp-''"
      | "hasSuffix (fst e) ''.jsonl''" "x = fst e \<or> x = fst e @ ''.gz''"
      using t by (auto simp: house_names_def split: if_splits)
    then show False
    proof cases
      case 1
      then have "CHR ''m'' \<in> set x" by (auto dest: suffix_char [of _ _ "CHR ''m''"] contains_char [of _ _ "CHR ''m''"])
      then show False using l by simp
    next
      case 2
      then have "CHR ''j'' \<in> set x" by (auto dest: suffix_char [of _ _ "CHR ''j''"])
      then show False using l by simp
    qed
  qed
qed

lemma date_fold_other:
  assumes "isDateName d" "d \<notin> fst ` set es" "x = d \<or> x = d @ ''.tar.gz''"
  shows "map_of (root (fold (house_entry ops today) es st)) x = map_of (root st) x"
proof (rule house_fold_other, rule ballI)
  fix e assume "e \<in> set es"
  then have "fst e \<noteq> d" using assms(2) by force
  then show "x \<notin> house_names today e" using assms(1,3) by (intro date_not_touched)
qed

text \<open>A pass treats the entry of a date once, in the state the pass began with as far as the date
  and its archive are concerned.\<close>

lemma housekeep_date:
  assumes "wf_map (root st)" "map_of (root st) d = Some n" "isDateName d"
  obtains st1 where "map_of (root st1) d = Some n" "map_of (root st1) (d @ ''.tar.gz'') = map_of (root st) (d @ ''.tar.gz'')"
    and "\<forall>x. x = d \<or> x = d @ ''.tar.gz'' \<longrightarrow>
      map_of (root (housekeep ops duckDB today cutoff st)) x = map_of (root (house_entry ops today (d, n) st1)) x"
proof -
  have "(d, n) \<in> set (root st)" using assms(2) by (rule map_of_SomeD)
  then obtain xs ys where r: "root st = xs @ (d, n) # ys" by (auto simp: in_set_conv_decomp)
  have nd: "d \<notin> fst ` set xs" "d \<notin> fst ` set ys" using assms(1) by (auto simp: wf_map_def r)
  let ?st1 = "fold (house_entry ops today) xs st"
  show ?thesis
  proof (rule that [of ?st1])
    show "map_of (root ?st1) d = Some n" using date_fold_other [OF assms(3) nd(1)] assms(2) by simp
    show "map_of (root ?st1) (d @ ''.tar.gz'') = map_of (root st) (d @ ''.tar.gz'')"
      using date_fold_other [OF assms(3) nd(1)] by simp
    show "\<forall>x. x = d \<or> x = d @ ''.tar.gz'' \<longrightarrow>
      map_of (root (housekeep ops duckDB today cutoff st)) x = map_of (root (house_entry ops today (d, n) ?st1)) x"
      using date_fold_other [OF assms(3) nd(2)] by (simp add: housekeep_root r)
  qed
qed

subsection \<open>Archiving loses nothing\<close>






definition demo_io :: io where
  "demo_io = \<lparr>io_rm = (\<lambda>_. True), io_rmAll = (\<lambda>_ _. None), io_tar = (\<lambda>_ fs. Written (TarGz fs)),
     io_rename = (\<lambda>_. True), io_gzip = (\<lambda>_ _. NotCreated), io_copy = (\<lambda>_ _. NotCreated)\<rparr>"

lemma demo_day_date: "isDateName ''2026-05-03''"
  by (simp add: isDateName_def is_digit_def upt_rec numeral_eq_Suc)


subsection \<open>Retention and housekeeping\<close>

definition rotate_names :: "string \<Rightarrow> string \<Rightarrow> string \<times> node \<Rightarrow> string set" where
  "rotate_names today cutoff e =
     (let date = trimSuffix (fst e) ''.jsonl'' in
      if \<not> isDir (snd e) \<and> hasSuffix (fst e) ''.jsonl'' \<and> isDateName date \<and> date \<noteq> today \<and> cutoff \<le> date
      then {fst e, date @ ''.parquet''} else {})"

lemma drop_jsonl_other: "x \<noteq> name \<Longrightarrow> map_of (ddir (drop_jsonl ops name st)) x = map_of (ddir st) x"
  by (simp add: drop_jsonl_def)

lemma convert_jsonl_other:
  "x \<noteq> name \<Longrightarrow> x \<noteq> pq \<Longrightarrow> map_of (ddir (convert_jsonl ops name pq c st)) x = map_of (ddir st) x"
  by (simp add: convert_jsonl_def drop_jsonl_other split: write_out.split)

lemma rotate_entry_other:
  "x \<notin> rotate_names today cutoff e \<Longrightarrow> map_of (ddir (rotate_entry ops duckDB today cutoff e st)) x = map_of (ddir st) x"
  by (cases e) (auto simp: rotate_entry_def rotate_names_def Let_def drop_jsonl_other convert_jsonl_other not_less
      split: option.split node.split)

lemma rotate_fold_other:
  "\<forall>e \<in> set es. x \<notin> rotate_names today cutoff e \<Longrightarrow>
     map_of (ddir (fold (rotate_entry ops duckDB today cutoff) es st)) x = map_of (ddir st) x"
  by (induction es arbitrary: st) (simp_all add: rotate_entry_other)

definition node_of :: "store \<Rightarrow> pruneCandidate \<Rightarrow> node option" where
  "node_of st c = (if c_details c then map_of (ddir st) (c_name c) else map_of (root st) (c_name c))"

lemma dated_gz_untouched:
  assumes "isDateName d" "e \<in> set (root st)" "\<not> exists_in (root st) (d @ ''.jsonl'')"
  shows "d @ ''.jsonl.gz'' \<notin> house_names today e"
proof
  assume t: "d @ ''.jsonl.gz'' \<in> house_names today e"
  have m: "CHR ''m'' \<notin> set (d @ ''.jsonl.gz'')" using date_letters [OF assms(1)] by simp
  consider "isDateName (fst e)" "d @ ''.jsonl.gz'' = fst e \<or> d @ ''.jsonl.gz'' = fst e @ ''.tar.gz''"
    | "d @ ''.jsonl.gz'' = fst e" "hasSuffix (fst e) ''.tar.gz.tmp'' \<or> contains (fst e) ''.tar.gz.tmp-''"
    | "hasSuffix (fst e) ''.jsonl''" "d @ ''.jsonl.gz'' = fst e \<or> d @ ''.jsonl.gz'' = fst e @ ''.gz''"
    using t by (auto simp: house_names_def split: if_splits)
  then show False
  proof cases
    case 1
    then show False
      using date_ext_inj [OF assms(1) 1(1), of "''.jsonl.gz''" "''.tar.gz''"] isDateName_length [OF assms(1)]
        isDateName_length [OF 1(1)] by (auto dest: arg_cong [of _ _ length])
  next
    case 2
    then have "CHR ''m'' \<in> set (d @ ''.jsonl.gz'')"
      by (auto dest: suffix_char [of _ _ "CHR ''m''"] contains_char [of _ _ "CHR ''m''"])
    then show False using m by simp
  next
    case 3
    then obtain q where q: "fst e = q @ ''.jsonl''" by (auto simp: hasSuffix_iff)
    have "fst e = d @ ''.jsonl''"
    proof (rule ccontr)
      assume "fst e \<noteq> d @ ''.jsonl''"
      then have "d @ ''.jsonl.gz'' = q @ ''.jsonl''" using 3(2) q by auto
      then have "rev (d @ ''.jsonl.gz'') = rev (q @ ''.jsonl'')" by simp
      then show False by simp
    qed
    then have "d @ ''.jsonl'' \<in> fst ` set (root st)" using assms(2) by (metis imageI)
    then show False using assms(3) by (simp add: exists_in_def map_of_eq_None_iff)
  qed
qed

lemma dated_tar_untouched:
  assumes "isDateName d"
  shows "map_of (root st) (d @ ''.tar.gz'') \<noteq> None \<Longrightarrow>
    map_of (root (house_entry ops today e st)) (d @ ''.tar.gz'') = map_of (root st) (d @ ''.tar.gz'')"
proof (cases "fst e = d")
  case True
  assume "map_of (root st) (d @ ''.tar.gz'') \<noteq> None"
  moreover have "\<not> hasSuffix d ''.tar.gz.tmp''" "\<not> contains d ''.tar.gz.tmp-''" "\<not> hasSuffix d ''.jsonl''"
    using date_letters [OF assms, of d] suffix_char [of d _ "CHR ''m''"] suffix_char [of d _ "CHR ''j''"]
      contains_char [of d _ "CHR ''m''"] by fastforce+
  ultimately show ?thesis
    using True by (auto simp: house_entry_def Let_def archive_day_def exists_in_def removeAll_other
        split: option.split node.split)
next
  case False
  then show ?thesis by (intro house_entry_other date_not_touched [OF assms]) simp_all
qed

lemma dated_tar_fold:
  assumes "isDateName d"
  shows "map_of (root st) (d @ ''.tar.gz'') \<noteq> None \<Longrightarrow>
    map_of (root (fold (house_entry ops today) es st)) (d @ ''.tar.gz'') = map_of (root st) (d @ ''.tar.gz'')"
  by (induction es arbitrary: st) (use dated_tar_untouched [OF assms] in auto)

lemma dated_details_untouched:
  assumes "isDateName d" "e \<in> set (ddir st)"
    "x = d @ ''.parquet'' \<and> \<not> exists_in (ddir st) (d @ ''.jsonl'') \<or> x = d @ ''.jsonl'' \<and> d < cutoff"
  shows "x \<notin> rotate_names today cutoff e"
proof
  assume "x \<in> rotate_names today cutoff e"
  then obtain e' where e': "fst e = e' @ ''.jsonl''" "isDateName e'" "cutoff \<le> e'" "x = fst e \<or> x = e' @ ''.parquet''"
    by (auto simp: rotate_names_def Let_def hasSuffix_iff split: if_splits)
  have x: "x = d @ ''.parquet'' \<or> x = d @ ''.jsonl''" using assms(3) by auto
  have inj: "d = e'" using x e'(1,2,4) assms(1) by (auto dest: date_ext_inj [OF assms(1) e'(2)])
  show False
  proof (cases "x = fst e")
    case True
    then have "x = d @ ''.jsonl''" using inj e'(1) by simp
    then show False using assms(3) e'(3) inj by (auto simp: not_less)
  next
    case False
    then have "x = d @ ''.parquet''" using e'(4) inj by simp
    moreover have "d @ ''.jsonl'' \<in> fst ` set (ddir st)" using assms(2) e'(1) inj by (metis imageI)
    ultimately show False using assms(3) by (auto simp: exists_in_def map_of_eq_None_iff)
  qed
qed

text \<open>Property C15 (retention and housekeeping never meet).  With a working DuckDB a housekeeping pass
  leaves every file retention may delete exactly as it is: neither reads it half written nor
  writes or removes it.\<close>

theorem retention_never_meets_housekeeping:
  assumes "c \<in> set (pruneCandidates sizeOf True today cutoff st)"
  shows "node_of (housekeep ops True today cutoff st) c = node_of st c"
proof -
  have d: "isDateName (c_date c)" using assms(1) by (auto simp: pruneCandidates_def set_map_filter archive_candidate_iff details_candidate_iff)
  show ?thesis
  proof (cases "c_details c")
    case True
    then have n: "c_name c = c_date c @ ''.parquet'' \<and> \<not> exists_in (ddir st) (c_date c @ ''.jsonl'') \<or> c_name c = c_date c @ ''.jsonl'' \<and> c_date c < cutoff"
      using assms(1) by (auto simp: pruneCandidates_def set_map_filter archive_candidate_iff details_candidate_iff)
    have "\<forall>e \<in> set (ddir st). c_name c \<notin> rotate_names today cutoff e"
      using dated_details_untouched [OF d _ n] by blast
    then show ?thesis using True by (simp add: node_of_def housekeep_ddir rotate_fold_other)
  next
    case False
    then obtain x where x: "(c_name c, File x) \<in> set (root st)"
        and n: "c_name c = c_date c @ ''.tar.gz'' \<or> c_name c = c_date c @ ''.jsonl.gz'' \<and> \<not> exists_in (root st) (c_date c @ ''.jsonl'')"
      using assms(1) by (auto simp: pruneCandidates_def set_map_filter archive_candidate_iff details_candidate_iff)
    have "c_name c \<in> fst ` set (root st)" using x by (metis fst_conv imageI)
    then have ne: "map_of (root st) (c_name c) \<noteq> None" by (simp add: map_of_eq_None_iff)
    have "map_of (root (fold (house_entry ops today) (root st) st)) (c_name c) = map_of (root st) (c_name c)"
    proof (cases "c_name c = c_date c @ ''.tar.gz''")
      case True
      then show ?thesis using dated_tar_fold [OF d] ne by simp
    next
      case gz: False
      then have "\<forall>e \<in> set (root st). c_name c \<notin> house_names today e" using n dated_gz_untouched [OF d] by auto
      then show ?thesis by (rule house_fold_other)
    qed
    then show ?thesis using False by (simp add: node_of_def housekeep_root)
  qed
qed

theorem retention_never_meets_housekeeping_witness:
  "node_of (housekeep demo_io True ''2026-05-05'' ''2025-05-04'' \<lparr>root = [(''2026-05-03.tar.gz'', File (TarGz [])), (''2026-05-03'', Dir [])], ddir = []\<rparr>)
     \<lparr>c_date = ''2026-05-03'', c_name = ''2026-05-03.tar.gz'', c_size = 7, c_details = False\<rparr> = Some (File (TarGz []))"
proof -
  let ?st = "\<lparr>root = [(''2026-05-03.tar.gz'', File (TarGz [])), (''2026-05-03'', Dir [])], ddir = []\<rparr>"
  let ?c = "\<lparr>c_date = ''2026-05-03'', c_name = ''2026-05-03.tar.gz'', c_size = 7, c_details = False\<rparr>"
  have c: "?c \<in> set (pruneCandidates (\<lambda>_. 7) True ''2026-05-05'' ''2025-05-04'' ?st)"
    unfolding pruneCandidates_def set_append byDate_set set_map_filter
    by (auto simp: archive_candidate_iff demo_day_date)
  show ?thesis unfolding retention_never_meets_housekeeping [OF c] by (simp add: node_of_def)
qed

subsection \<open>Existence is not completeness\<close>

text \<open>A directory that comes back after its archive was made (a request logged with a time read
  before midnight) is removed unread: its lines are in neither.\<close>

theorem late_line_removed:
  assumes "wf_map (root st)" and "map_of (root st) d = Some (Dir fs)" and "isDateName d" and "d \<noteq> today"
    and "map_of (root st) (d @ ''.tar.gz'') = Some (File (TarGz ms))" and "io_rmAll ops d fs = None"
  shows "map_of (root (housekeep ops duckDB today cutoff st)) d = None
    \<and> map_of (root (housekeep ops duckDB today cutoff st)) (d @ ''.tar.gz'') = Some (File (TarGz ms))"
proof -
  obtain st1 where st1: "map_of (root st1) d = Some (Dir fs)" "map_of (root st1) (d @ ''.tar.gz'') = Some (File (TarGz ms))"
    "\<And>x. x = d \<or> x = d @ ''.tar.gz'' \<Longrightarrow> map_of (root (housekeep ops duckDB today cutoff st)) x = map_of (root (house_entry ops today (d, Dir fs) st1)) x"
    using housekeep_date [OF assms(1-3)] assms(5) by metis
  have "house_entry ops today (d, Dir fs) st1 = st1\<lparr>root := del d (root st1)\<rparr>"
    using st1(1,2) assms(3,4,6) by (simp add: house_entry_def isDir_def archive_day_def exists_in_def removeAll_def Let_def)
  then show ?thesis using st1 by simp
qed

text \<open>A parquet left half written by a crash counts as a finished conversion: the only complete
  copy of the day's details is deleted.\<close>

theorem damaged_parquet_wins:
  assumes "wf_map (ddir st)" and "map_of (ddir st) (d @ ''.jsonl'') = Some (File (Plain b))"
    and "map_of (ddir st) (d @ ''.parquet'') = Some (File Damaged)"
    and "isDateName d" and "d \<noteq> today" and "cutoff \<le> d" and "io_rm ops (d @ ''.jsonl'')"
  shows "map_of (ddir (housekeep ops duckDB today cutoff st)) (d @ ''.jsonl'') = None
    \<and> map_of (ddir (housekeep ops duckDB today cutoff st)) (d @ ''.parquet'') = Some (File Damaged)"
proof -
  let ?js = "d @ ''.jsonl''" and ?pq = "d @ ''.parquet''"
  have "(?js, File (Plain b)) \<in> set (ddir st)" using assms(2) by (rule map_of_SomeD)
  then obtain xs ys where r: "ddir st = xs @ (?js, File (Plain b)) # ys" by (auto simp: in_set_conv_decomp)
  have nd: "?js \<notin> fst ` set xs" "?js \<notin> fst ` set ys" using assms(1) by (auto simp: wf_map_def r)
  have o: "map_of (ddir (fold (rotate_entry ops duckDB today cutoff) es s)) x = map_of (ddir s) x"
    if "?js \<notin> fst ` set es" "x = ?js \<or> x = ?pq" for es s x
  proof (rule rotate_fold_other, rule ballI)
    fix e assume e: "e \<in> set es"
    then have "fst e \<noteq> ?js" using that(1) by force
    then show "x \<notin> rotate_names today cutoff e"
      using that(2) by (auto simp: rotate_names_def Let_def hasSuffix_iff dest: date_ext_inj [OF assms(4)] split: if_splits)
  qed
  define s0 where "s0 = fold (house_entry ops today) (root st) st"
  define s1 where "s1 = fold (rotate_entry ops duckDB today cutoff) xs s0"
  have s1: "map_of (ddir s1) ?js = Some (File (Plain b))" "map_of (ddir s1) ?pq = Some (File Damaged)"
    using o [OF nd(1)] assms(2,3) by (simp_all add: s1_def s0_def)
  have "rotate_entry ops duckDB today cutoff (?js, File (Plain b)) s1 = s1\<lparr>ddir := del ?js (ddir s1)\<rparr>"
    using s1 assms(4-7) by (simp add: rotate_entry_def Let_def isDir_def exists_in_def drop_jsonl_def not_less)
  then show ?thesis
    using o [OF nd(2)] s1 by (simp add: housekeep_ddir r flip: s0_def s1_def)
qed

end
