(* ===== verification/Writers.thy ===== *)
theory Writers
  imports Housekeep_Facts
begin

text \<open>
  The two append-only writers of the listener (\<open>bodylog-listener-go/main.go\<close>: \<open>hourWriter\<close>,
  \<open>detailsWriter\<close>) on the data directory, and the configuration readers.
\<close>

text \<open>What the operating system does with one write: whether the directory and the file can be
  made, and after how many bytes the write fails, if it does.\<close>

record write_ops =
  mkdirOK :: bool
  openOK :: bool
  failsAfter :: "nat option"

text \<open>An open file is known by its path; a file that was removed while open still takes writes,
  which nobody can read back.\<close>

datatype handle = Open string string | Closed

record hourWriter =
  hw_day :: string
  hw_hour :: string
  hw_f :: "handle option"

definition new_hourWriter :: hourWriter where
  "new_hourWriter = \<lparr>hw_day = [], hw_hour = [], hw_f = None\<rparr>"

subsection \<open>hourWriter\<close>

definition hour_file :: "string \<Rightarrow> string" where
  "hour_file hour = hour @ ''.jsonl''"

definition mkdirAll :: "write_ops \<Rightarrow> string \<Rightarrow> store \<Rightarrow> store option" where
  "mkdirAll ops day st =
    (if \<not> mkdirOK ops then None
     else case map_of (root st) day of
            None \<Rightarrow> Some (st\<lparr>root := put day (Dir []) (root st)\<rparr>)
          | Some (Dir _) \<Rightarrow> Some st
          | Some (File _) \<Rightarrow> None)"

text \<open>Opening for append creates the file when it is missing.\<close>

definition openAppend :: "string \<Rightarrow> string \<Rightarrow> store \<Rightarrow> store" where
  "openAppend day name st = (case map_of (root st) day of
      Some (Dir fs) \<Rightarrow> if map_of fs name = None then st\<lparr>root := put day (Dir (put name [] fs)) (root st)\<rparr> else st
    | _ \<Rightarrow> st)"

definition appendFile :: "string \<Rightarrow> string \<Rightarrow> bytes \<Rightarrow> store \<Rightarrow> store" where
  "appendFile day name p st = (case map_of (root st) day of
      Some (Dir fs) \<Rightarrow>
        (case map_of fs name of
           Some b \<Rightarrow> st\<lparr>root := put day (Dir (put name (b @ p) fs)) (root st)\<rparr>
         | None \<Rightarrow> st)
    | _ \<Rightarrow> st)"

text \<open>The bytes a write gets out, and whether it reports success.\<close>

definition put_bytes :: "write_ops \<Rightarrow> bytes \<Rightarrow> bytes \<times> bool" where
  "put_bytes ops p = (case failsAfter ops of None \<Rightarrow> (p, True) | Some n \<Rightarrow> (take n p, False))"

record written =
  wr_ok :: bool
  wr_bytes :: bytes
  wr_housekeep :: bool

definition write_handle :: "write_ops \<Rightarrow> bytes \<Rightarrow> bool \<Rightarrow> hourWriter \<Rightarrow> store \<Rightarrow> written \<times> hourWriter \<times> store" where
  "write_handle ops p hk w st = (case hw_f w of
      Some (Open day name) \<Rightarrow>
        (case put_bytes ops p of (b, ok) \<Rightarrow> (\<lparr>wr_ok = ok, wr_bytes = b, wr_housekeep = hk\<rparr>, w, appendFile day name b st))
    | _ \<Rightarrow> (\<lparr>wr_ok = False, wr_bytes = [], wr_housekeep = hk\<rparr>, w, st))"

text \<open>\<open>write\<close>: \<open>today\<close> and \<open>hour\<close> are the clock as read before the lock was taken.\<close>

definition hour_write ::
  "write_ops \<Rightarrow> string \<Rightarrow> string \<Rightarrow> bytes \<Rightarrow> hourWriter \<Rightarrow> store \<Rightarrow> written \<times> hourWriter \<times> store" where
  "hour_write ops today hour p w st =
    (let dayChanged = hw_day w \<noteq> today; hourChanged = (dayChanged \<or> hw_hour w \<noteq> hour) in
     if hourChanged then
       (let w1 = w\<lparr>hw_f := map_option (\<lambda>_. Closed) (hw_f w)\<rparr>;
            failed = \<lparr>wr_ok = False, wr_bytes = [], wr_housekeep = False\<rparr> in
        case mkdirAll ops today st of
          None \<Rightarrow> (failed, w1, st)
        | Some st1 \<Rightarrow>
            if \<not> openOK ops then (failed, w1, st1)
            else write_handle ops p dayChanged
                   \<lparr>hw_day = today, hw_hour = hour, hw_f = Some (Open today (hour_file hour))\<rparr>
                   (openAppend today (hour_file hour) st1))
     else write_handle ops p False w st)"

definition hour_close :: "hourWriter \<Rightarrow> hourWriter" where
  "hour_close w = w\<lparr>hw_f := None\<rparr>"

subsection \<open>detailsWriter\<close>

record detailsWriter =
  dw_day :: string
  dw_f :: "handle option"

definition new_detailsWriter :: detailsWriter where
  "new_detailsWriter = \<lparr>dw_day = [], dw_f = None\<rparr>"

definition openDetails :: "string \<Rightarrow> store \<Rightarrow> store" where
  "openDetails name st = (if map_of (ddir st) name = None then st\<lparr>ddir := put name (File (Plain [])) (ddir st)\<rparr> else st)"

definition appendDetails :: "string \<Rightarrow> bytes \<Rightarrow> store \<Rightarrow> store" where
  "appendDetails name p st = (case map_of (ddir st) name of
      Some (File (Plain b)) \<Rightarrow> st\<lparr>ddir := put name (File (Plain (b @ p))) (ddir st)\<rparr>
    | _ \<Rightarrow> st)"

text \<open>\<open>json\<close> is the record's encoding, \<open>None\<close> when it cannot be encoded.\<close>

definition details_write ::
  "write_ops \<Rightarrow> string \<Rightarrow> bytes option \<Rightarrow> detailsWriter \<Rightarrow> store \<Rightarrow> written \<times> detailsWriter \<times> store" where
  "details_write ops today json w st =
    (let failed = \<lparr>wr_ok = False, wr_bytes = [], wr_housekeep = False\<rparr>;
         emit = (\<lambda>w st. case json of
             None \<Rightarrow> (failed, w, st)
           | Some line \<Rightarrow>
              (case dw_f w of
                 Some (Open _ name) \<Rightarrow>
                   (case put_bytes ops (line @ [CHR 0x0A]) of (b, ok) \<Rightarrow>
                      (\<lparr>wr_ok = ok, wr_bytes = b, wr_housekeep = False\<rparr>, w, appendDetails name b st))
               | _ \<Rightarrow> (failed, w, st))) in
     if dw_day w \<noteq> today then
       (let w1 = w\<lparr>dw_f := map_option (\<lambda>_. Closed) (dw_f w)\<rparr> in
        if \<not> mkdirOK ops \<or> \<not> openOK ops then (failed, w1, st)
        else emit \<lparr>dw_day = today, dw_f = Some (Open [] (today @ ''.jsonl''))\<rparr> (openDetails (today @ ''.jsonl'') st))
     else emit w st)"

definition details_close :: "detailsWriter \<Rightarrow> detailsWriter" where
  "details_close w = w\<lparr>dw_f := None\<rparr>"

subsection \<open>Configuration\<close>

definition envOr :: "string \<Rightarrow> string \<Rightarrow> string" where
  "envOr v dflt = (if v \<noteq> [] then v else dflt)"

definition envOrInt :: "string \<Rightarrow> int \<Rightarrow> int" where
  "envOrInt v dflt = (if v \<noteq> [] then (case atoi v of (n, err) \<Rightarrow> if err = None \<and> n > 0 then n else dflt) else dflt)"

definition envOrIntRange :: "string \<Rightarrow> int \<Rightarrow> int \<Rightarrow> int \<Rightarrow> int" where
  "envOrIntRange v dflt lo hi =
    (if v \<noteq> [] then (case atoi v of (n, err) \<Rightarrow> if err = None \<and> n \<ge> lo \<and> n \<le> hi then n else dflt) else dflt)"

subsection \<open>What is acknowledged is on disk\<close>

definition hour_content :: "store \<Rightarrow> string \<Rightarrow> string \<Rightarrow> bytes" where
  "hour_content st day hour = (case map_of (root st) day of
      Some (Dir fs) \<Rightarrow> (case map_of fs (hour_file hour) of Some b \<Rightarrow> b | None \<Rightarrow> [])
    | _ \<Rightarrow> [])"

text \<open>The open file is the one of the stamp the writer remembers, and it is still there.\<close>

definition linked :: "hourWriter \<Rightarrow> store \<Rightarrow> bool" where
  "linked w st \<longleftrightarrow> (case hw_f w of
      Some (Open d n) \<Rightarrow> d = hw_day w \<and> n = hour_file (hw_hour w) \<and>
        (\<exists>fs b. map_of (root st) d = Some (Dir fs) \<and> map_of fs n = Some b)
    | _ \<Rightarrow> True)"

lemma hour_file_eq [simp]: "hour_file h = hour_file h' \<longleftrightarrow> h = h'"
  by (simp add: hour_file_def)

lemma mkdirAll_content: "mkdirAll ops day st = Some st1 \<Longrightarrow>
    hour_content st1 d h = hour_content st d h \<and> (\<exists>fs. map_of (root st1) day = Some (Dir fs))"
  by (auto simp: mkdirAll_def hour_content_def split: if_splits option.splits node.splits)

lemma openAppend_content: "map_of (root st) day = Some (Dir fs) \<Longrightarrow>
    hour_content (openAppend day (hour_file hour) st) d h = hour_content st d h
    \<and> (\<exists>fs b. map_of (root (openAppend day (hour_file hour) st)) day = Some (Dir fs) \<and> map_of fs (hour_file hour) = Some b)"
  by (auto simp: openAppend_def hour_content_def split: option.split node.split)

lemma appendFile_content:
  assumes "map_of (root st) day = Some (Dir fs)" "map_of fs (hour_file hour) = Some b"
  shows "hour_content (appendFile day (hour_file hour) p st) d h = hour_content st d h @ (if d = day \<and> h = hour then p else [])"
    and "\<exists>fs b. map_of (root (appendFile day (hour_file hour) p st)) day = Some (Dir fs) \<and> map_of fs (hour_file hour) = Some b"
  using assms by (auto simp: appendFile_def hour_content_def split: option.split node.split)

lemma write_handle_content:
  assumes "linked w st" "write_handle ops p hk w st = (r, w', st')"
  shows "linked w' st' \<and> hour_content st' d h = hour_content st d h @ (if d = hw_day w \<and> h = hw_hour w then wr_bytes r else [])
    \<and> (wr_ok r \<longrightarrow> wr_bytes r = p)"
proof (cases "\<exists>dy n. hw_f w = Some (Open dy n)")
  case True
  then obtain fs b where f: "hw_f w = Some (Open (hw_day w) (hour_file (hw_hour w)))"
    "map_of (root st) (hw_day w) = Some (Dir fs)" "map_of fs (hour_file (hw_hour w)) = Some b"
    using assms(1) by (auto simp: linked_def)
  obtain q ok where q: "put_bytes ops p = (q, ok)" by fastforce
  have r: "r = \<lparr>wr_ok = ok, wr_bytes = q, wr_housekeep = hk\<rparr>" "w' = w" "st' = appendFile (hw_day w) (hour_file (hw_hour w)) q st"
    using assms(2) by (auto simp: write_handle_def f(1) q)
  have "ok \<longrightarrow> q = p" using q by (auto simp: put_bytes_def split: option.splits)
  then show ?thesis
    using appendFile_content [OF f(2,3)] f(1) by (simp add: r linked_def)
next
  case False
  then have "w' = w \<and> st' = st \<and> \<not> wr_ok r \<and> wr_bytes r = []"
    using assms(2) by (auto simp: write_handle_def split: option.splits handle.splits)
  then show ?thesis using assms(1) by simp
qed

lemma hour_write_content:
  assumes "linked w st" "hour_write ops today hour p w st = (r, w', st')"
  shows "linked w' st' \<and> hour_content st' d h = hour_content st d h @ (if d = today \<and> h = hour then wr_bytes r else [])
    \<and> (wr_ok r \<longrightarrow> wr_bytes r = p)"
proof (cases "hw_day w \<noteq> today \<or> hw_hour w \<noteq> hour")
  case False
  then show ?thesis
    using assms write_handle_content [OF assms(1), of ops p False r w' st' d h] by (simp add: hour_write_def)
next
  case True
  let ?w1 = "w\<lparr>hw_f := map_option (\<lambda>_. Closed) (hw_f w)\<rparr>"
  have w1: "linked ?w1 s" for s by (simp add: linked_def split: option.split)
  show ?thesis
  proof (cases "mkdirAll ops today st")
    case None
    then show ?thesis using assms(2) True w1 by (auto simp: hour_write_def Let_def)
  next
    case (Some st1)
    obtain fs where st1: "\<And>d h. hour_content st1 d h = hour_content st d h" "map_of (root st1) today = Some (Dir fs)"
      using mkdirAll_content [OF Some] by blast
    show ?thesis
    proof (cases "openOK ops")
      case False
      then show ?thesis using assms(2) True Some w1 st1(1) by (auto simp: hour_write_def Let_def)
    next
      case o: True
      let ?w = "\<lparr>hw_day = today, hw_hour = hour, hw_f = Some (Open today (hour_file hour))\<rparr>"
      let ?st = "openAppend today (hour_file hour) st1"
      have "linked ?w ?st" using openAppend_content [OF st1(2)] by (simp add: linked_def)
      moreover have "write_handle ops p (hw_day w \<noteq> today) ?w ?st = (r, w', st')"
        using assms(2) True Some o by (simp add: hour_write_def Let_def)
      ultimately show ?thesis
        using write_handle_content [of ?w ?st ops p _ r w' st' d h] openAppend_content [OF st1(2), of hour d h] st1(1) by simp
    qed
  qed
qed

text \<open>The lines a writer was given, with the clock each read and what the system did with it.\<close>

fun hour_run :: "(write_ops \<times> string \<times> string \<times> bytes) list \<Rightarrow> hourWriter \<times> store \<Rightarrow> written list \<times> hourWriter \<times> store" where
  "hour_run [] s = ([], s)"
| "hour_run ((ops, day, hour, p) # ws) (w, st) =
     (case hour_write ops day hour p w st of
        (r, w', st') \<Rightarrow> map_prod ((#) r) id (hour_run ws (w', st')))"

definition stamped :: "string \<Rightarrow> string \<Rightarrow> (write_ops \<times> string \<times> string \<times> bytes) list \<Rightarrow> written list \<Rightarrow> bytes" where
  "stamped day hour ws rs = concat (map (\<lambda>((_, d, h, _), r). if d = day \<and> h = hour then wr_bytes r else []) (zip ws rs))"

lemma hour_run_content:
  assumes "linked w st" "hour_run ws (w, st) = (rs, w', st')"
  shows "hour_content st' day hour = hour_content st day hour @ stamped day hour ws rs
    \<and> list_all2 (\<lambda>(_, _, _, p) r. wr_ok r \<longrightarrow> wr_bytes r = p) ws rs"
  using assms
proof (induction ws arbitrary: w st rs)
  case (Cons x ws)
  obtain ops d h p where x: "x = (ops, d, h, p)" using prod_cases4 by blast
  obtain r w1 st1 where s: "hour_write ops d h p w st = (r, w1, st1)" using prod_cases3 by blast
  obtain rs1 where rs: "rs = r # rs1" "hour_run ws (w1, st1) = (rs1, w', st')"
    using Cons.prems(2) by (cases "hour_run ws (w1, st1)") (auto simp: x s map_prod_def)
  note step = hour_write_content [OF Cons.prems(1) s]
  have "hour_content st' day hour = hour_content st1 day hour @ stamped day hour ws rs1
      \<and> list_all2 (\<lambda>(_, _, _, p) r. wr_ok r \<longrightarrow> wr_bytes r = p) ws rs1"
    using Cons.IH [OF _ rs(2)] step by blast
  then show ?case using step [of day hour] by (auto simp: x rs(1) stamped_def)
qed (simp add: stamped_def)

text \<open>Property C18 (the hour files).  Whatever clocks the lines carry and whatever the system does, the
  file of an hour grows by exactly the bytes reported for the lines of that hour, in order, and
  a line reported as written is there in full.\<close>

theorem hour_files_hold_the_lines:
  assumes "hour_run ws (new_hourWriter, st) = (rs, w', st')"
  shows "hour_content st' day hour = hour_content st day hour @ stamped day hour ws rs
    \<and> list_all2 (\<lambda>(_, _, _, p) r. wr_ok r \<longrightarrow> wr_bytes r = p) ws rs"
  by (rule hour_run_content [OF _ assms]) (simp add: new_hourWriter_def linked_def)

definition fine :: write_ops where
  "fine = \<lparr>mkdirOK = True, openOK = True, failsAfter = None\<rparr>"

definition demo_lines :: "(write_ops \<times> string \<times> string \<times> bytes) list" where
  "demo_lines = [(fine, ''2026-05-03'', ''23'', ''a''), (fine, ''2026-05-04'', ''00'', ''b''), (fine, ''2026-05-03'', ''23'', ''c'')]"

theorem hour_files_hold_the_lines_witness:
  "hour_content (snd (snd (hour_run demo_lines (new_hourWriter, \<lparr>root = [], ddir = []\<rparr>)))) ''2026-05-03'' ''23'' = ''ac''"
proof -
  let ?st = "\<lparr>root = [], ddir = []\<rparr>"
  obtain rs w st' where r: "hour_run demo_lines (new_hourWriter, ?st) = (rs, w, st')" using prod_cases3 by blast
  have "map wr_bytes (fst (hour_run demo_lines (new_hourWriter, ?st))) = [''a'', ''b'', ''c'']"
    by (simp add: demo_lines_def fine_def new_hourWriter_def hour_write_def write_handle_def mkdirAll_def openAppend_def
        appendFile_def put_bytes_def hour_file_def Let_def)
  then obtain r1 r2 r3 where "rs = [r1, r2, r3]" "wr_bytes r1 = ''a''" "wr_bytes r2 = ''b''" "wr_bytes r3 = ''c''"
    using r by (auto simp: map_eq_Cons_conv)
  then show ?thesis
    using hour_files_hold_the_lines [OF r, of "''2026-05-03''" "''23''"] r
    by (simp add: hour_content_def stamped_def demo_lines_def)
qed

text \<open>Fact (the late line).  A line whose clock was read before midnight and which gets the
  lock only after its day was archived is acknowledged as written; the housekeeping pass that
  very write triggers then removes it, and it is not in the archive.\<close>

theorem late_line_acknowledged_and_lost:
  assumes "wf_map (root st)" and "map_of (root st) d = None" and "isDateName d"
    and "map_of (root st) (d @ ''.tar.gz'') = Some (File (TarGz ms))" and "hw_day w \<noteq> d"
    and "d \<noteq> today" and "\<forall>fs. io_rmAll ops d fs = None"
    and "hour_write fine d hour line w st = (r, w', st')"
  shows "wr_ok r \<and> wr_housekeep r \<and> hour_content st' d hour = line
    \<and> hour_content (housekeep ops duckDB today cutoff st') d hour = []
    \<and> map_of (root (housekeep ops duckDB today cutoff st')) (d @ ''.tar.gz'') = Some (File (TarGz ms))"
proof -
  let ?fs = "[(hour_file hour, line)]"
  have st': "r = \<lparr>wr_ok = True, wr_bytes = line, wr_housekeep = True\<rparr>" "root st' = put d (Dir ?fs) (put d (Dir [(hour_file hour, [])]) (put d (Dir []) (root st)))"
    using assms(2,5,8) by (auto simp: hour_write_def fine_def mkdirAll_def openAppend_def write_handle_def put_bytes_def appendFile_def Let_def)
  have m: "map_of (root st') d = Some (Dir ?fs)" "map_of (root st') (d @ ''.tar.gz'') = Some (File (TarGz ms))"
    using assms(4) by (simp_all add: st')
  have "wf_map (root st')" unfolding st' using assms(1) by blast
  from late_line_removed [OF this m(1) assms(3,6) m(2)] assms(7) show ?thesis
    using m(1) by (simp add: st'(1) hour_content_def)
qed

theorem late_line_acknowledged_and_lost_witness:
  "let w = \<lparr>hw_day = ''2026-05-04'', hw_hour = ''00'', hw_f = Some (Open ''2026-05-04'' ''00.jsonl'')\<rparr>;
       st = \<lparr>root = [(''2026-05-03.tar.gz'', File (TarGz [])), (''2026-05-04'', Dir [(''00.jsonl'', ''x'')])], ddir = []\<rparr>;
       (r, w', st') = hour_write fine ''2026-05-03'' ''23'' ''late'' w st
   in wr_ok r \<and> hour_content (housekeep demo_io True ''2026-05-04'' ''2025-05-04'' st') ''2026-05-03'' ''23'' = []"
proof -
  let ?w = "\<lparr>hw_day = ''2026-05-04'', hw_hour = ''00'', hw_f = Some (Open ''2026-05-04'' ''00.jsonl'')\<rparr>"
  let ?st = "\<lparr>root = [(''2026-05-03.tar.gz'', File (TarGz [])), (''2026-05-04'', Dir [(''00.jsonl'', ''x'')])], ddir = []\<rparr>"
  obtain r w' st' where r: "hour_write fine ''2026-05-03'' ''23'' ''late'' ?w ?st = (r, w', st')" using prod_cases3 by blast
  have "wr_ok r \<and> hour_content (housekeep demo_io True ''2026-05-04'' ''2025-05-04'' st') ''2026-05-03'' ''23'' = []"
    using late_line_acknowledged_and_lost [OF _ _ _ _ _ _ _ r, of "[]" "''2026-05-04''" demo_io True "''2025-05-04''"]
    by (simp add: wf_map_def demo_day_date demo_io_def)
  then show ?thesis by (simp add: r)
qed

end
