(* ===== verification/Listener.thy ===== *)
theory Listener
  imports Process Writers Aggregator_Log Retention
begin

text \<open>
  The listener as a whole (\<open>bodylog-listener-go/main.go\<close>: \<open>main\<close>, \<open>processFrame\<close>): the configuration,
  the connections, the frame queue, the pool of writers, the flusher, housekeeping and
  retention as goroutines that interleave, and the shutdown.

  Each step of a goroutine is what it does under one mutex or with one channel operation.
  Parameters: \<open>encoding/json\<close>, the local calendar, the clock and what the operating system does at
  each step.  What a connection will still deliver is fixed when it is accepted; closing it
  cuts that short at an arbitrary frame.
\<close>

subsection \<open>Configuration\<close>

record listener_conf =
  lc_host :: string
  lc_port :: string
  lc_dir :: string
  lc_keepDays :: int
  lc_detailsKeepDays :: int
  lc_httpToken :: string
  lc_diskUsagePct :: int
  lc_pruneInterval :: int64
  lc_details :: bool
  lc_httpAddr :: string

definition listenerConf :: "(string \<Rightarrow> string) \<Rightarrow> listener_conf" where
  "listenerConf env =
    \<lparr>lc_host = envOr (env ''BODYLOG_HOST'') ''127.0.0.1'',
     lc_port = envOr (env ''BODYLOG_PORT'') ''9999'',
     lc_dir = envOr (env ''BODYLOG_DIR'') ''/mnt/nvme0n1/nginx/bodylog'',
     lc_keepDays = envOrInt (env ''BODYLOG_KEEP_DAYS'') 90,
     lc_detailsKeepDays = envOrInt (env ''BODYLOG_DETAILS_KEEP_DAYS'') 365,
     lc_httpToken = envOr (env ''BODYLOG_HTTP_TOKEN'') [],
     lc_diskUsagePct = envOrIntRange (env ''BODYLOG_DISK_USAGE_PCT'') 90 0 99,
     lc_pruneInterval = word_of_int (envOrIntRange (env ''BODYLOG_PRUNE_INTERVAL_SECONDS'') 3600 1 86400) * 1000000000,
     lc_details = (envOr (env ''BODYLOG_DETAILS'') ''on'' \<noteq> ''off''),
     lc_httpAddr = envOr (env ''BODYLOG_HTTP_HOST'') ''0.0.0.0'' @ '':'' @ envOr (env ''BODYLOG_HTTP_PORT'') ''9998''\<rparr>"

text \<open>The intervals the program can be configured to: never zero, which would panic the ticker.\<close>

lemma pruneInterval_range: "1000000000 \<le> sint (lc_pruneInterval (listenerConf env)) \<and> sint (lc_pruneInterval (listenerConf env)) \<le> 86400000000000"
proof -
  let ?n = "envOrIntRange (env ''BODYLOG_PRUNE_INTERVAL_SECONDS'') 3600 1 86400"
  have n: "1 \<le> ?n" "?n \<le> 86400" by (auto simp: envOrIntRange_def split: prod.split)
  have "word_of_int ?n * 1000000000 = (word_of_int (?n * 1000000000) :: int64)" by simp
  moreover have "sint (word_of_int (?n * 1000000000) :: int64) = ?n * 1000000000"
    unfolding signed_of_int using n by (simp add: signed_take_bit_int_eq_self)
  ultimately show ?thesis using n by (simp add: listenerConf_def)
qed

text \<open>\<open>statfsBytes\<close>: used and total bytes as \<open>df\<close> counts them, in \<open>uint64\<close>.\<close>

record statfs =
  st_Bsize :: uint64
  st_Blocks :: uint64
  st_Bfree :: uint64
  st_Bavail :: uint64

definition statfsBytes :: "statfs option \<Rightarrow> (uint64 \<times> uint64) option" where
  "statfsBytes st = map_option (\<lambda>s. let used = (st_Blocks s - st_Bfree s) * st_Bsize s in
     (used, used + st_Bavail s * st_Bsize s)) st"

subsection \<open>One frame\<close>

text \<open>What the program is linked with: the JSON coders, the local date of a minute and the coding of
  an aggregate line.\<close>

record 'l libs =
  lb_unmarshal :: unmarshal
  lb_marshal :: "obj \<Rightarrow> bytes option"
  lb_detail :: "detailRecord \<Rightarrow> bytes option"
  lb_dayOf :: "int \<Rightarrow> string"
  lb_enc :: "bucket \<Rightarrow> 'l"

text \<open>The clock and the system at one step: the hour log's write, the details' write, the minute a
  frame without a time counts in.\<close>

record moment =
  mo_ops :: write_ops
  mo_today :: string
  mo_hour :: string
  mo_dops :: write_ops
  mo_dtoday :: string
  mo_now :: int

text \<open>What the goroutines share; \<open>li_house\<close> counts the housekeeping passes started and not yet run.\<close>

record 'l listener =
  li_w :: hourWriter
  li_dw :: "detailsWriter option"
  li_agg :: aggregator
  li_files :: "'l Aggregator.files"
  li_store :: store
  li_house :: nat

definition log_line :: "moment \<Rightarrow> bytes \<Rightarrow> 'l listener \<Rightarrow> bool \<times> 'l listener" where
  "log_line mo out li = (case hour_write (mo_ops mo) (mo_today mo) (mo_hour mo) out (li_w li) (li_store li) of
     (r, w, st) \<Rightarrow> (wr_ok r, li\<lparr>li_w := w, li_store := st, li_house := li_house li + (if wr_housekeep r then 1 else 0)\<rparr>))"

definition log_detail :: "'l libs \<Rightarrow> moment \<Rightarrow> obj \<Rightarrow> 'l listener \<Rightarrow> 'l listener" where
  "log_detail lb mo m li = (case li_dw li of
      None \<Rightarrow> li
    | Some dw \<Rightarrow> (case details_write (mo_dops mo) (mo_dtoday mo) (lb_detail lb (extractDetail m)) dw (li_store li) of
        (r, dw1, st) \<Rightarrow> li\<lparr>li_dw := Some dw1, li_store := st\<rparr>))"

text \<open>\<open>processFrame\<close>; \<open>None\<close> is a panic.\<close>

definition processFrame :: "'l libs \<Rightarrow> moment \<Rightarrow> rawFrame \<Rightarrow> 'l listener \<Rightarrow> 'l listener option" where
  "processFrame lb mo rf li =
    (case assembleEntry (lb_unmarshal lb) (lb_marshal lb) (meta (frm rf)) (req (frm rf)) (resp (frm rf)) (src rf) of
       Panic \<Rightarrow> None
     | outcome.Failed \<Rightarrow> Some li
     | Done (m, out) \<Rightarrow>
         (case log_line mo out li of (ok, li1) \<Rightarrow>
            if \<not> ok then Some li1
            else (let m1 = with_caches m; li2 = li1\<lparr>li_agg := ingest (sample_of (mo_now mo) m1) (li_agg li1)\<rparr>
                  in Some (log_detail lb mo m1 li2))))"

text \<open>The same in the steps other goroutines can come between: assembling needs no lock, then one
  lock each for the log, the aggregator and the details.\<close>

datatype worker = Idle | Assembling rawFrame | Writing rawFrame obj bytes | Counting rawFrame obj | Detailing rawFrame obj | Gone

definition stage :: "'l libs \<Rightarrow> moment \<Rightarrow> worker \<Rightarrow> 'l listener \<Rightarrow> (worker \<times> 'l listener) option" where
  "stage lb mo w li = (case w of
      Assembling rf \<Rightarrow>
        (case assembleEntry (lb_unmarshal lb) (lb_marshal lb) (meta (frm rf)) (req (frm rf)) (resp (frm rf)) (src rf) of
           Panic \<Rightarrow> None
         | outcome.Failed \<Rightarrow> Some (Idle, li)
         | Done (m, out) \<Rightarrow> Some (Writing rf m out, li))
    | Writing rf m out \<Rightarrow> (case log_line mo out li of (ok, li1) \<Rightarrow> Some (if ok then Counting rf (with_caches m) else Idle, li1))
    | Counting rf m \<Rightarrow> Some (Detailing rf m, li\<lparr>li_agg := ingest (sample_of (mo_now mo) m) (li_agg li)\<rparr>)
    | Detailing rf m \<Rightarrow> Some (Idle, log_detail lb mo m li)
    | _ \<Rightarrow> Some (w, li))"

text \<open>One writer alone goes through the stages as \<open>processFrame\<close> does.\<close>

definition stages :: "'l libs \<Rightarrow> moment \<Rightarrow> nat \<Rightarrow> worker \<times> 'l listener \<Rightarrow> (worker \<times> 'l listener) option" where
  "stages lb mo n s = ((\<lambda>r. Option.bind r (\<lambda>(w, li). stage lb mo w li)) ^^ n) (Some s)"

lemma processFrame_stages: "stages lb mo 4 (Assembling rf, li) = map_option (Pair Idle) (processFrame lb mo rf li)"
  by (simp add: stages_def eval_nat_numeral stage_def processFrame_def Let_def split: outcome.split prod.split)

subsection \<open>The program\<close>

definition numFrameWriters :: nat where
  "numFrameWriters = 8"

definition frameChanBuf :: nat where
  "frameChanBuf = 16384"

text \<open>A connection in \<open>handleConn\<close>: the frames it still delivers, and the one it has read and waits to
  put on the queue.\<close>

record connection =
  cn_todo :: "rawFrame list"
  cn_hand :: "rawFrame option"

text \<open>Where the flusher is: between two flushes; past the lock of one, with the lines it still has to
  append, and whether it is the last; or gone.\<close>

datatype flusher = Ticking | Appending bool "bucket list list" | Ended

text \<open>Where \<open>main\<close> is: in the accept loop, waiting for the connections, waiting for the writers, done;
  or a panic has taken the process down.\<close>

datatype phase = Serving | WaitConns | WaitWriters | Exited | Crashed

text \<open>The phases in the order \<open>main\<close> goes through them.\<close>

primrec phase_rank :: "phase \<Rightarrow> nat" where
  "phase_rank Serving = 0"
| "phase_rank WaitConns = 1"
| "phase_rank WaitWriters = 2"
| "phase_rank Exited = 3"
| "phase_rank Crashed = 4"

instantiation phase :: linorder
begin

definition less_eq_phase :: "phase \<Rightarrow> phase \<Rightarrow> bool" where
  "less_eq_phase p q \<longleftrightarrow> phase_rank p \<le> phase_rank q"

definition less_phase :: "phase \<Rightarrow> phase \<Rightarrow> bool" where
  "less_phase p q \<longleftrightarrow> phase_rank p < phase_rank q"

instance
proof
  fix p q :: phase
  show "p \<le> q \<Longrightarrow> q \<le> p \<Longrightarrow> p = q" by (cases p; cases q) (simp_all add: less_eq_phase_def)
qed (auto simp: less_eq_phase_def less_phase_def)

end

text \<open>\<open>sv_stop\<close>: the signal has come; \<open>sv_lnclosed\<close> and \<open>sv_cut\<close>: the shutdown goroutine has closed
  the listener, and all connections.  The last four are no state of the program: the frames read
  from connections, the requests counted with the frame each came from, the frames given up, the
  aggregate lines given up because their file did not open.\<close>

record 'l server =
  sv_phase :: phase
  sv_stop :: bool
  sv_lnclosed :: bool
  sv_cut :: bool
  sv_conns :: "connection list"
  sv_queue :: "rawFrame list"
  sv_chclosed :: bool
  sv_workers :: "worker list"
  sv_flusher :: flusher
  sv_prune :: prune_state
  sv_li :: "'l listener"
  sv_read :: "rawFrame list"
  sv_counted :: "(rawFrame \<times> sample) list"
  sv_failed :: "rawFrame list"
  sv_dropped :: "bucket list"

abbreviation alive :: "'l server \<Rightarrow> bool" where
  "alive s \<equiv> sv_phase s \<notin> {Exited, Crashed}"

text \<open>\<open>main\<close> up to the accept loop, on a directory with the aggregate files \<open>fs\<close>.\<close>

definition start_listener :: "('l \<Rightarrow> bucket option) \<Rightarrow> string \<Rightarrow> bool \<Rightarrow> store \<Rightarrow> 'l Aggregator.files \<Rightarrow> 'l listener" where
  "start_listener dec today details st fs =
    \<lparr>li_w = new_hourWriter, li_dw = (if details then Some new_detailsWriter else None),
     li_agg = reload dec today fs (newAggregator (7 * 24 * 60)), li_files = fs, li_store = st, li_house = 0\<rparr>"

definition start_server :: "'l listener \<Rightarrow> 'l server" where
  "start_server li =
    \<lparr>sv_phase = Serving, sv_stop = False, sv_lnclosed = False, sv_cut = False, sv_conns = [], sv_queue = [], sv_chclosed = False,
     sv_workers = replicate numFrameWriters Idle, sv_flusher = Ticking, sv_prune = \<lparr>lastDiskBatch = 0, lastDiskWarn = 0\<rparr>, sv_li = li,
     sv_read = [], sv_counted = [], sv_failed = [], sv_dropped = []\<rparr>"

text \<open>The books: what a writer's step counts or gives up.\<close>

definition tally :: "moment \<Rightarrow> worker \<Rightarrow> worker \<Rightarrow> 'l server \<Rightarrow> 'l server" where
  "tally mo w w' s = (case w of
      Assembling rf \<Rightarrow> if w' = Idle then s\<lparr>sv_failed := sv_failed s @ [rf]\<rparr> else s
    | Writing rf m out \<Rightarrow> if w' = Idle then s\<lparr>sv_failed := sv_failed s @ [rf]\<rparr> else s
    | Counting rf m \<Rightarrow> s\<lparr>sv_counted := sv_counted s @ [(rf, sample_of (mo_now mo) m)]\<rparr>
    | _ \<Rightarrow> s)"

definition main_exit :: "'l listener \<Rightarrow> 'l listener" where
  "main_exit li = li\<lparr>li_w := hour_close (li_w li), li_dw := map_option details_close (li_dw li)\<rparr>"

text \<open>The path of a frame: accepting, reading, queueing, the writers, and \<open>main\<close>'s shutdown sequence.\<close>

inductive pipeline :: "'l libs \<Rightarrow> 'l server \<Rightarrow> 'l server \<Rightarrow> bool" for lb where
  accept: "sv_phase s = Serving \<Longrightarrow> \<not> sv_lnclosed s \<Longrightarrow> fs = fst (handleConn remote c) \<Longrightarrow>
    pipeline lb s (s\<lparr>sv_conns := sv_conns s @ [\<lparr>cn_todo = (if sv_stop s then take k fs else fs), cn_hand = None\<rparr>]\<rparr>)"
| read: "alive s \<Longrightarrow> i < length (sv_conns s) \<Longrightarrow> sv_conns s ! i = \<lparr>cn_todo = f # fs, cn_hand = None\<rparr> \<Longrightarrow>
    pipeline lb s (s\<lparr>sv_conns := (sv_conns s)[i := \<lparr>cn_todo = fs, cn_hand = Some f\<rparr>], sv_read := sv_read s @ [f]\<rparr>)"
| send: "alive s \<Longrightarrow> i < length (sv_conns s) \<Longrightarrow> sv_conns s ! i = \<lparr>cn_todo = fs, cn_hand = Some f\<rparr> \<Longrightarrow>
    \<not> sv_chclosed s \<Longrightarrow> length (sv_queue s) < frameChanBuf \<Longrightarrow>
    pipeline lb s (s\<lparr>sv_conns := (sv_conns s)[i := \<lparr>cn_todo = fs, cn_hand = None\<rparr>], sv_queue := sv_queue s @ [f]\<rparr>)"
| send_closed: "alive s \<Longrightarrow> i < length (sv_conns s) \<Longrightarrow> cn_hand (sv_conns s ! i) \<noteq> None \<Longrightarrow> sv_chclosed s \<Longrightarrow>
    pipeline lb s (s\<lparr>sv_phase := Crashed\<rparr>)"
| hangup: "alive s \<Longrightarrow> i < length (sv_conns s) \<Longrightarrow> sv_conns s ! i = \<lparr>cn_todo = [], cn_hand = None\<rparr> \<Longrightarrow>
    pipeline lb s (s\<lparr>sv_conns := take i (sv_conns s) @ drop (Suc i) (sv_conns s)\<rparr>)"
| take_frame: "alive s \<Longrightarrow> i < length (sv_workers s) \<Longrightarrow> sv_workers s ! i = Idle \<Longrightarrow> sv_queue s = f # q \<Longrightarrow>
    pipeline lb s (s\<lparr>sv_workers := (sv_workers s)[i := Assembling f], sv_queue := q\<rparr>)"
| work: "alive s \<Longrightarrow> i < length (sv_workers s) \<Longrightarrow> sv_workers s ! i = w \<Longrightarrow> w \<notin> {Idle, Gone} \<Longrightarrow>
    stage lb mo w (sv_li s) = Some (w', li) \<Longrightarrow>
    pipeline lb s (tally mo w w' (s\<lparr>sv_workers := (sv_workers s)[i := w'], sv_li := li\<rparr>))"
| crash: "alive s \<Longrightarrow> i < length (sv_workers s) \<Longrightarrow> stage lb mo (sv_workers s ! i) (sv_li s) = None \<Longrightarrow>
    pipeline lb s (s\<lparr>sv_phase := Crashed\<rparr>)"
| serve_end: "sv_phase s = Serving \<Longrightarrow> sv_lnclosed s \<Longrightarrow> pipeline lb s (s\<lparr>sv_phase := WaitConns\<rparr>)"
| close_channel: "sv_phase s = WaitConns \<Longrightarrow> sv_conns s = [] \<Longrightarrow> pipeline lb s (s\<lparr>sv_phase := WaitWriters, sv_chclosed := True\<rparr>)"
| writer_exit: "alive s \<Longrightarrow> i < length (sv_workers s) \<Longrightarrow> sv_workers s ! i = Idle \<Longrightarrow> sv_queue s = [] \<Longrightarrow> sv_chclosed s \<Longrightarrow>
    pipeline lb s (s\<lparr>sv_workers := (sv_workers s)[i := Gone]\<rparr>)"
| exit: "sv_phase s = WaitWriters \<Longrightarrow> list_all (\<lambda>w. w = Gone) (sv_workers s) \<Longrightarrow>
    pipeline lb s (s\<lparr>sv_phase := Exited, sv_li := main_exit (sv_li s)\<rparr>)"

text \<open>The other goroutines: the signal and the shutdown goroutine, the flusher, housekeeping, retention.\<close>

text \<open>\<open>flushClosedMinutes\<close> takes the lines under the lock and appends them after it; requests can be
  counted in between.\<close>

definition flush_take :: "int \<Rightarrow> int \<Rightarrow> 'l listener \<Rightarrow> bucket list list \<times> 'l listener" where
  "flush_take now1 now2 li = (case flush_locked now1 now2 (li_agg li) of
     (cls, dirty, a) \<Rightarrow> (filter (\<lambda>bs. bs \<noteq> []) [cls, dirty], li\<lparr>li_agg := a\<rparr>))"

definition flush_put :: "'l libs \<Rightarrow> (string \<Rightarrow> bool) \<Rightarrow> bucket list \<Rightarrow> 'l listener \<Rightarrow> 'l listener" where
  "flush_put lb opens bs li = li\<lparr>li_files := appendToFile opens (lb_dayOf lb) (lb_enc lb) bs (li_files li)\<rparr>"

lemma flush_parts:
  "(case flush_take now1 now2 li of (pend, li1) \<Rightarrow> fold (flush_put lb opens) pend li1)
    = (case flushClosedMinutes opens (lb_dayOf lb) (lb_enc lb) now1 now2 (li_agg li, li_files li) of
         (a, fs) \<Rightarrow> li\<lparr>li_agg := a, li_files := fs\<rparr>)"
  by (simp add: flush_take_def flush_put_def flushClosedMinutes_def Let_def split: prod.split)

definition run_prune ::
  "prune_conf \<Rightarrow> (content \<Rightarrow> int64) \<Rightarrow> (pruneCandidate \<Rightarrow> bool) \<Rightarrow> (uint64 \<times> uint64) option \<Rightarrow> gotime \<Rightarrow> int \<Rightarrow> int \<Rightarrow> 'l server \<Rightarrow> 'l server" where
  "run_prune conf sizeOf rm stat t now now' s =
    (case prune conf sizeOf rm stat t now now' (li_store (sv_li s), sv_prune s) of
       (gone, st, ps) \<Rightarrow> s\<lparr>sv_li := (sv_li s)\<lparr>li_store := st\<rparr>, sv_prune := ps\<rparr>)"

lemma run_prune_keeps [simp]:
  "sv_phase (run_prune conf sizeOf rm stat t now now' s) = sv_phase s" "sv_stop (run_prune conf sizeOf rm stat t now now' s) = sv_stop s"
  "sv_lnclosed (run_prune conf sizeOf rm stat t now now' s) = sv_lnclosed s" "sv_cut (run_prune conf sizeOf rm stat t now now' s) = sv_cut s"
  "sv_conns (run_prune conf sizeOf rm stat t now now' s) = sv_conns s" "sv_queue (run_prune conf sizeOf rm stat t now now' s) = sv_queue s"
  "sv_chclosed (run_prune conf sizeOf rm stat t now now' s) = sv_chclosed s" "sv_workers (run_prune conf sizeOf rm stat t now now' s) = sv_workers s"
  "sv_read (run_prune conf sizeOf rm stat t now now' s) = sv_read s" "sv_counted (run_prune conf sizeOf rm stat t now now' s) = sv_counted s"
  "sv_failed (run_prune conf sizeOf rm stat t now now' s) = sv_failed s"
  "sv_flusher (run_prune conf sizeOf rm stat t now now' s) = sv_flusher s" "sv_dropped (run_prune conf sizeOf rm stat t now now' s) = sv_dropped s"
  "li_agg (sv_li (run_prune conf sizeOf rm stat t now now' s)) = li_agg (sv_li s)"
  "li_files (sv_li (run_prune conf sizeOf rm stat t now now' s)) = li_files (sv_li s)"
  by (simp_all add: run_prune_def split: prod.split)

inductive background :: "'l libs \<Rightarrow> 'l server \<Rightarrow> 'l server \<Rightarrow> bool" for lb where
  signal: "alive s \<Longrightarrow> background lb s (s\<lparr>sv_stop := True\<rparr>)"
| close_listener: "alive s \<Longrightarrow> sv_stop s \<Longrightarrow> background lb s (s\<lparr>sv_lnclosed := True\<rparr>)"
| close_conns: "alive s \<Longrightarrow> sv_lnclosed s \<Longrightarrow> \<not> sv_cut s \<Longrightarrow>
    list_all2 (\<lambda>c c'. cn_hand c' = cn_hand c \<and> (\<exists>k. cn_todo c' = take k (cn_todo c))) (sv_conns s) cs \<Longrightarrow>
    background lb s (s\<lparr>sv_cut := True, sv_conns := cs\<rparr>)"
| tick: "alive s \<Longrightarrow> sv_flusher s = Ticking \<Longrightarrow> flush_take now1 now2 (sv_li s) = (pend, li) \<Longrightarrow> final \<longrightarrow> sv_stop s \<Longrightarrow>
    background lb s (s\<lparr>sv_li := li, sv_flusher := Appending final pend\<rparr>)"
| append: "alive s \<Longrightarrow> sv_flusher s = Appending final (bs # pend) \<Longrightarrow>
    background lb s (s\<lparr>sv_li := flush_put lb opens bs (sv_li s), sv_flusher := Appending final pend,
      sv_dropped := sv_dropped s @ filter (\<lambda>b. \<not> opens (lb_dayOf lb (Minute b))) bs\<rparr>)"
| flushed: "alive s \<Longrightarrow> sv_flusher s = Appending final [] \<Longrightarrow>
    background lb s (s\<lparr>sv_flusher := (if final then Ended else Ticking)\<rparr>)"
| archive: "alive s \<Longrightarrow> li_house (sv_li s) > 0 \<Longrightarrow>
    background lb s (s\<lparr>sv_li := (sv_li s)\<lparr>li_store := housekeep ops duckDB today cutoff (li_store (sv_li s)),
      li_house := li_house (sv_li s) - 1\<rparr>\<rparr>)"
| retain: "alive s \<Longrightarrow> background lb s (run_prune conf sizeOf rm (statfsBytes stat) t now now' s)"

inductive_cases pipelineE: "pipeline lb s s'"

inductive_cases backgroundE: "background lb s s'"

definition server_step :: "'l libs \<Rightarrow> 'l server \<Rightarrow> 'l server \<Rightarrow> bool" where
  "server_step lb s s' \<longleftrightarrow> pipeline lb s s' \<or> background lb s s'"

definition reachable :: "'l libs \<Rightarrow> 'l listener \<Rightarrow> 'l server \<Rightarrow> bool" where
  "reachable lb li s \<longleftrightarrow> (server_step lb)\<^sup>*\<^sup>* (start_server li) s"

end
