(* ===== verification/Step_Systems.thy ===== *)
theory Step_Systems
  imports Main
begin

text \<open>
  The interfaces of the goroutines that interleave: what every step keeps holds in every reachable
  state, and what every step brings nearer to an end, and is never stuck before it, ends.
\<close>

locale step_system =
  fixes init :: "'s \<Rightarrow> bool" and step :: "'s \<Rightarrow> 's \<Rightarrow> bool" and inv :: "'s \<Rightarrow> bool"
  assumes inv_init: "init s \<Longrightarrow> inv s"
    and inv_step: "step s s' \<Longrightarrow> inv s \<Longrightarrow> inv s'"
begin

lemma inv_star: "step\<^sup>*\<^sup>* s s' \<Longrightarrow> inv s \<Longrightarrow> inv s'"
  by (induction rule: rtranclp_induct) (auto intro: inv_step)

lemma inv_reachable: "init s \<Longrightarrow> step\<^sup>*\<^sup>* s s' \<Longrightarrow> inv s'"
  by (rule inv_star [OF _ inv_init])

lemma inv_power: "(step ^^ n) s s' \<Longrightarrow> inv s \<Longrightarrow> inv s'"
  by (rule inv_star [OF relpowp_imp_rtranclp])

end

text \<open>A system that drains once \<open>closed\<close>: each step lowers \<open>left\<close>, and one is possible while \<open>busy\<close>.\<close>

locale draining_system = step_system init step inv
  for init :: "'s \<Rightarrow> bool" and step :: "'s \<Rightarrow> 's \<Rightarrow> bool" and inv :: "'s \<Rightarrow> bool" +
  fixes closed :: "'s \<Rightarrow> bool" and busy :: "'s \<Rightarrow> bool" and left :: "'s \<Rightarrow> nat"
  assumes closed_step: "step s s' \<Longrightarrow> closed s \<Longrightarrow> closed s'"
    and left_step: "step s s' \<Longrightarrow> closed s \<Longrightarrow> left s' < left s"
    and progress: "inv s \<Longrightarrow> closed s \<Longrightarrow> busy s \<Longrightarrow> \<exists>s'. step s s'"
begin

lemma bound: "(step ^^ n) s s' \<Longrightarrow> closed s \<Longrightarrow> n + left s' \<le> left s \<and> closed s'"
proof (induction n arbitrary: s')
  case (Suc n)
  then obtain y where y: "(step ^^ n) s y" "step y s'" by auto
  then show ?case using Suc.IH [OF y(1) Suc.prems(2)] left_step [OF y(2)] closed_step [OF y(2)] by simp
qed simp

lemma drains: "inv s \<Longrightarrow> closed s \<Longrightarrow> \<exists>n s'. (step ^^ n) s s' \<and> \<not> busy s'"
proof (induction "left s" arbitrary: s rule: less_induct)
  case less
  show ?case
  proof (cases "busy s")
    case False
    then show ?thesis by (intro exI [of _ 0] exI [of _ s]) simp
  next
    case True
    then obtain y where y: "step s y" using progress less.prems by blast
    obtain n s' where "(step ^^ n) y s'" "\<not> busy s'"
      using less.hyps [OF left_step [OF y less.prems(2)] inv_step [OF y less.prems(1)] closed_step [OF y less.prems(2)]] by blast
    then show ?thesis using relpowp_Suc_I2 [of step, OF y] by blast
  qed
qed

end

end
