(* ===== verification/Listener_Facts.thy ===== *)
theory Listener_Facts
  imports Listener Step_Systems
begin

text \<open>
  What the listener's goroutines guarantee together: whatever the interleaving, no frame is lost
  or processed twice, nothing is sent on the closed queue, a shutdown ends, and when it has, every
  frame that was read is in the counters or was given up for a reason.
\<close>

subsection \<open>The books\<close>

text \<open>The frame a writer holds and has not counted yet.\<close>

fun held :: "worker \<Rightarrow> rawFrame list" where
  "held (Assembling f) = [f]"
| "held (Writing f m out) = [f]"
| "held (Counting f m) = [f]"
| "held _ = []"

definition hands :: "connection list \<Rightarrow> rawFrame list" where
  "hands cs = concat (map (\<lambda>c. case cn_hand c of None \<Rightarrow> [] | Some f \<Rightarrow> [f]) cs)"

text \<open>Every frame read is at exactly one place.\<close>

definition balanced :: "'l server \<Rightarrow> bool" where
  "balanced s \<longleftrightarrow> mset (sv_read s) = mset (hands (sv_conns s)) + mset (sv_queue s)
     + mset (concat (map held (sv_workers s))) + mset (map fst (sv_counted s)) + mset (sv_failed s)"

lemma mset_concat_update:
  "i < length ws \<Longrightarrow> mset (concat (map f (ws[i := w]))) + mset (f (ws ! i)) = mset (concat (map f ws)) + mset (f w)"
  by (induction ws arbitrary: i) (auto split: nat.split simp: less_Suc_eq_0_disj)

lemma hands_update:
  "i < length cs \<Longrightarrow> mset (hands (cs[i := c])) + mset (hands [cs ! i]) = mset (hands cs) + mset (hands [c])"
  using mset_concat_update [of i cs "\<lambda>c. case cn_hand c of None \<Rightarrow> [] | Some f \<Rightarrow> [f]" c] by (simp add: hands_def)

lemma hands_remove: "i < length cs \<Longrightarrow> cn_hand (cs ! i) = None \<Longrightarrow> hands (take i cs @ drop (Suc i) cs) = hands cs"
  by (subst (3) id_take_nth_drop [of i cs]) (simp_all add: hands_def)

lemma hands_cut:
  "list_all2 (\<lambda>c c'. cn_hand c' = cn_hand c \<and> (\<exists>k. cn_todo c' = take k (cn_todo c))) cs cs' \<Longrightarrow> hands cs' = hands cs"
  by (induction rule: list_all2_induct) (simp_all add: hands_def)

lemma tally_simps [simp]:
  "sv_phase (tally mo w w' s) = sv_phase s" "sv_conns (tally mo w w' s) = sv_conns s" "sv_queue (tally mo w w' s) = sv_queue s"
  "sv_workers (tally mo w w' s) = sv_workers s" "sv_read (tally mo w w' s) = sv_read s" "sv_chclosed (tally mo w w' s) = sv_chclosed s"
  "sv_stop (tally mo w w' s) = sv_stop s" "sv_lnclosed (tally mo w w' s) = sv_lnclosed s" "sv_cut (tally mo w w' s) = sv_cut s"
  "sv_li (tally mo w w' s) = sv_li s" "sv_flusher (tally mo w w' s) = sv_flusher s" "sv_dropped (tally mo w w' s) = sv_dropped s"
  by (simp_all add: tally_def split: worker.split)

lemma stage_books:
  assumes "stage lb mo w li = Some (w', li')"
  shows "mset (held w') + mset (map fst (sv_counted (tally mo w w' s))) + mset (sv_failed (tally mo w w' s))
    = mset (held w) + mset (map fst (sv_counted s)) + mset (sv_failed s)"
  using assms by (auto simp: stage_def tally_def split: worker.splits outcome.splits prod.splits if_splits)

lemma trade:
  fixes A :: "'a multiset"
  assumes "A + H = C + H'" "H' + N' + F' = H + N + F"
  shows "A + N' + F' = C + N + F"
proof -
  have "(A + N' + F') + H = (A + H) + (N' + F')" by (simp only: ac_simps)
  also have "\<dots> = C + (H' + N' + F')" by (simp only: assms(1) ac_simps)
  also have "\<dots> = C + (H + N + F)" by (simp only: assms(2))
  also have "\<dots> = (C + N + F) + H" by (simp only: ac_simps)
  finally show ?thesis by (rule add_right_imp_eq)
qed

lemma pipeline_balanced:
  assumes "pipeline lb s s'" "balanced s" "sv_phase s' \<noteq> Crashed"
  shows "balanced s'"
  using assms
proof (cases rule: pipeline.cases)
  case (accept fs remote c k)
  then show ?thesis using assms(2) by (simp add: balanced_def hands_def)
next
  case (read i f fs)
  then show ?thesis using assms(2) hands_update [of i "sv_conns s" "\<lparr>cn_todo = fs, cn_hand = Some f\<rparr>"]
    by (simp add: balanced_def) (simp add: hands_def)
next
  case (send i fs f)
  then show ?thesis using assms(2) hands_update [of i "sv_conns s" "\<lparr>cn_todo = fs, cn_hand = None\<rparr>"]
    by (simp add: balanced_def) (simp add: hands_def)
next
  case (hangup i)
  then show ?thesis using assms(2) by (simp add: balanced_def hands_remove)
next
  case (take_frame i f q)
  then show ?thesis using assms(2) mset_concat_update [of i "sv_workers s" held "Assembling f"] by (simp add: balanced_def)
next
  case (work i w mo w' li)
  have "mset (concat (map held ((sv_workers s)[i := w']))) + mset (held w) = mset (concat (map held (sv_workers s))) + mset (held w')"
    using mset_concat_update [of i "sv_workers s" held w'] work by simp
  from trade [OF this stage_books [OF work(6), of "s\<lparr>sv_workers := (sv_workers s)[i := w'], sv_li := li\<rparr>"]]
  show ?thesis using assms(2) by (simp add: balanced_def work(1) add.assoc)
next
  case (writer_exit i)
  then show ?thesis using assms(2) mset_concat_update [of i "sv_workers s" held Gone] by (simp add: balanced_def)
qed (use assms in \<open>simp_all add: balanced_def\<close>)

lemma background_balanced: "background lb s s' \<Longrightarrow> balanced s \<Longrightarrow> balanced s'"
  by (erule background.cases) (simp_all add: balanced_def hands_cut)

subsection \<open>Who may still do what\<close>

definition control :: "'l server \<Rightarrow> bool" where
  "control s \<longleftrightarrow> (sv_chclosed s \<longleftrightarrow> sv_phase s \<in> {WaitWriters, Exited}) \<and> (sv_chclosed s \<longrightarrow> sv_conns s = [])
     \<and> (sv_phase s \<noteq> Serving \<longrightarrow> sv_lnclosed s) \<and> (sv_cut s \<longrightarrow> sv_lnclosed s)
     \<and> (Gone \<in> set (sv_workers s) \<longrightarrow> sv_chclosed s \<and> sv_queue s = [])
     \<and> (sv_phase s = Exited \<longrightarrow> list_all (\<lambda>w. w = Gone) (sv_workers s)) \<and> sv_workers s \<noteq> []"

lemma not_gone_update: "Gone \<in> set (ws[i := w]) \<Longrightarrow> w \<noteq> Gone \<Longrightarrow> Gone \<in> set ws"
  using set_update_subset_insert [of ws i w] by auto

lemma stage_not_gone: "stage lb mo w li = Some (w', li') \<Longrightarrow> w \<noteq> Gone \<Longrightarrow> w' \<noteq> Gone"
  by (auto simp: stage_def split: worker.splits outcome.splits prod.splits if_splits)

lemma pipeline_control:
  assumes "pipeline lb s s'" "control s" "sv_phase s' \<noteq> Crashed"
  shows "control s'"
  using assms
proof (cases rule: pipeline.cases)
  case (send i fs f)
  then show ?thesis using assms(2) by (auto simp: control_def)
next
  case (take_frame i f q)
  then show ?thesis using assms(2) not_gone_update [of "sv_workers s" i "Assembling f"] by (auto simp: control_def)
next
  case (work i w mo w' li)
  then have "w' \<noteq> Gone" using stage_not_gone by blast
  then show ?thesis using assms(2) work not_gone_update [of "sv_workers s" i w'] by (auto simp: control_def)
qed (use assms in \<open>auto simp: control_def\<close>)

lemma background_control: "background lb s s' \<Longrightarrow> control s \<Longrightarrow> control s'"
  by (erule background.cases) (auto simp: control_def)

lemma background_alive: "background lb s s' \<Longrightarrow> alive s \<and> sv_phase s' = sv_phase s \<and> sv_read s' = sv_read s"
  by (erule background.cases) simp_all

text \<open>The phases only go forward, and after the shutdown has begun no connection comes in.\<close>

lemma rank_le: "phase_rank p \<le> 4"
  by (cases p) simp_all

lemma pipeline_phase: "pipeline lb s s' \<Longrightarrow> sv_phase s \<le> sv_phase s'"
  by (erule pipeline.cases) (auto simp: less_eq_phase_def rank_le)

lemma phase_forward: "(server_step lb)\<^sup>*\<^sup>* s s' \<Longrightarrow> sv_phase s \<le> sv_phase s'"
proof (induction rule: rtranclp_induct)
  case (step y z)
  have "sv_phase y \<le> sv_phase z"
    using step(2) pipeline_phase background_alive [of lb y z] by (auto simp: server_step_def)
  then show ?case using step.IH by simp
qed simp

subsection \<open>What the writers hold\<close>

abbreviation assemble :: "'l libs \<Rightarrow> rawFrame \<Rightarrow> (obj \<times> bytes) outcome" where
  "assemble lb f \<equiv> assembleEntry (lb_unmarshal lb) (lb_marshal lb) (meta (frm f)) (req (frm f)) (resp (frm f)) (src f)"

fun holds_entry :: "'l libs \<Rightarrow> worker \<Rightarrow> bool" where
  "holds_entry lb (Writing f m out) \<longleftrightarrow> assemble lb f = Done (m, out)"
| "holds_entry lb (Counting f m) \<longleftrightarrow> (\<exists>m0 out. assemble lb f = Done (m0, out) \<and> m = with_caches m0)"
| "holds_entry lb _ \<longleftrightarrow> True"

text \<open>The request counted for a frame is the one its entry says.\<close>

definition counts_entry :: "'l libs \<Rightarrow> rawFrame \<times> sample \<Rightarrow> bool" where
  "counts_entry lb fs \<longleftrightarrow> (\<exists>m out now. assemble lb (fst fs) = Done (m, out) \<and> snd fs = sample_of now (with_caches m))"

definition entries_ok :: "'l libs \<Rightarrow> 'l server \<Rightarrow> bool" where
  "entries_ok lb s \<longleftrightarrow> (\<forall>w \<in> set (sv_workers s). holds_entry lb w) \<and> (\<forall>fs \<in> set (sv_counted s). counts_entry lb fs)"

lemma stage_entry: "stage lb mo w li = Some (w', li') \<Longrightarrow> holds_entry lb w \<Longrightarrow> holds_entry lb w'"
  by (auto simp: stage_def split: worker.splits outcome.splits prod.splits if_splits)

lemma tally_counted: "sv_counted (tally mo w w' s) =
    sv_counted s @ (case w of Counting rf m \<Rightarrow> [(rf, sample_of (mo_now mo) m)] | _ \<Rightarrow> [])"
  by (simp add: tally_def split: worker.split)

lemma update_ball: "x \<in> set (xs[i := y]) \<Longrightarrow> x = y \<or> x \<in> set xs"
  using set_update_subset_insert [of xs i y] by auto

lemma pipeline_entries:
  assumes "pipeline lb s s'" "entries_ok lb s"
  shows "entries_ok lb s'"
  using assms
proof (cases rule: pipeline.cases)
  case (work i w mo w' li)
  have w: "holds_entry lb w" using assms(2) work nth_mem [of i "sv_workers s"] unfolding entries_ok_def by blast
  have "holds_entry lb w'" using stage_entry [OF work(6) w] .
  moreover have "counts_entry lb fs" if "fs \<in> set (case w of Counting rf m \<Rightarrow> [(rf, sample_of (mo_now mo) m)] | _ \<Rightarrow> [])" for fs
    using w that by (cases w) (auto simp: counts_entry_def)
  ultimately show ?thesis
    using assms(2) unfolding work(1) entries_ok_def by (auto simp: tally_counted dest!: update_ball)
qed (use assms in \<open>auto simp: entries_ok_def dest!: update_ball\<close>)

lemma background_entries: "background lb s s' \<Longrightarrow> entries_ok lb s \<Longrightarrow> entries_ok lb s'"
  by (erule background.cases) (simp_all add: entries_ok_def)

subsection \<open>Every reachable state\<close>

lemma pipeline_alive: "pipeline lb s s' \<Longrightarrow> alive s"
  by (erule pipeline.cases) simp_all


lemma stage_panics: "stage lb mo w li = None \<Longrightarrow> \<exists>f. w = Assembling f \<and> assemble lb f = Panic"
  by (auto simp: stage_def split: worker.splits outcome.splits prod.splits)

lemma panic_null: "assemble lb f = Panic \<longleftrightarrow> lb_unmarshal lb (meta (frm f)) = Some None"
  by (simp add: assembleEntry_def Let_def split: option.split)

lemma held_read:
  assumes "balanced s" "Assembling f \<in> set (sv_workers s)"
  shows "f \<in> set (sv_read s)"
proof -
  have "f \<in># mset (concat (map held (sv_workers s)))" using assms(2) by (force simp: in_multiset_in_set)
  then have "f \<in># mset (sv_read s)" using assms(1) unfolding balanced_def by simp
  then show ?thesis by simp
qed

definition sound :: "'l libs \<Rightarrow> 'l server \<Rightarrow> bool" where
  "sound lb s \<longleftrightarrow> entries_ok lb s \<and>
     (if sv_phase s = Crashed then \<exists>f \<in> set (sv_read s). assemble lb f = Panic else balanced s \<and> control s)"

lemma sound_start: "sound lb (start_server li)"
  by (simp add: sound_def start_server_def entries_ok_def balanced_def control_def hands_def numFrameWriters_def)

lemma pipeline_crash:
  assumes "pipeline lb s s'" "balanced s" "control s" "sv_phase s' = Crashed"
  shows "\<exists>f \<in> set (sv_read s'). assemble lb f = Panic"
  using assms
proof (cases rule: pipeline.cases)
  case (send_closed i)
  then show ?thesis using assms(3) by (auto simp: control_def)
next
  case (crash i mo)
  then obtain f where f: "sv_workers s ! i = Assembling f" "assemble lb f = Panic" using stage_panics by blast
  then have "Assembling f \<in> set (sv_workers s)" using crash nth_mem [of i "sv_workers s"] by simp
  then show ?thesis using held_read [OF assms(2)] f(2) crash(1) by auto
qed (use assms in auto)

lemma sound_step: "server_step lb s s' \<Longrightarrow> sound lb s \<Longrightarrow> sound lb s'"
  unfolding server_step_def sound_def
  using pipeline_alive [of lb s s'] background_alive [of lb s s'] pipeline_entries [of lb s s'] background_entries [of lb s s']
    pipeline_balanced [of lb s s'] pipeline_control [of lb s s'] background_balanced [of lb s s'] background_control [of lb s s']
    pipeline_crash [of lb s s'] by auto

interpretation servers: step_system "\<lambda>s. s = start_server li" "server_step lb" "sound lb"
  by unfold_locales (auto intro: sound_start sound_step)

lemma sound_reachable: "reachable lb li s \<Longrightarrow> sound lb s"
  unfolding reachable_def by (rule servers.inv_reachable [OF refl])

text \<open>Property C39 (what can take the listener down).  In any interleaving of the goroutines the process
  panics only in a writer that assembles a frame whose metadata is the JSON text null; in
  particular no frame is ever put on the closed queue.\<close>

theorem crashes_only_on_null:
  assumes "reachable lb li s" and "sv_phase s = Crashed"
  shows "\<exists>f \<in> set (sv_read s). lb_unmarshal lb (meta (frm f)) = Some None"
  using sound_reachable [OF assms(1)] assms(2) by (auto simp: sound_def panic_null)

subsection \<open>The counters\<close>

text \<open>The lines the flusher has taken and not yet appended.\<close>

fun in_flight :: "flusher \<Rightarrow> bucket list" where
  "in_flight (Appending final pend) = concat pend"
| "in_flight _ = []"












subsection \<open>A shutdown ends\<close>

text \<open>An upper bound for the steps left: a frame still to be read takes seven, a finished writer none.\<close>

fun load :: "worker \<Rightarrow> nat" where
  "load (Assembling f) = 5"
| "load (Writing f m out) = 4"
| "load (Counting f m) = 3"
| "load (Detailing f m) = 2"
| "load Idle = 1"
| "load Gone = 0"

definition conn_work :: "connection \<Rightarrow> nat" where
  "conn_work c = 1 + 7 * length (cn_todo c) + (case cn_hand c of None \<Rightarrow> 0 | Some f \<Rightarrow> 6)"

definition stop_work :: "phase \<Rightarrow> nat" where
  "stop_work p = (case p of Serving \<Rightarrow> 3 | WaitConns \<Rightarrow> 2 | WaitWriters \<Rightarrow> 1 | _ \<Rightarrow> 0)"

definition left :: "'l server \<Rightarrow> nat" where
  "left s = stop_work (sv_phase s) + sum_list (map conn_work (sv_conns s)) + 5 * length (sv_queue s) + sum_list (map load (sv_workers s))"

lemma sum_update: "i < length xs \<Longrightarrow> sum_list (map f (xs[i := y])) + f (xs ! i) = sum_list (map f xs) + (f y :: nat)"
  by (induction xs arbitrary: i) (auto split: nat.split simp: less_Suc_eq_0_disj)

lemma sum_remove: "i < length xs \<Longrightarrow> sum_list (map f (take i xs @ drop (Suc i) xs)) + f (xs ! i) = (sum_list (map f xs) :: nat)"
  by (subst (4) id_take_nth_drop [of i xs]) simp_all

lemma stage_load: "stage lb mo w li = Some (w', li') \<Longrightarrow> w \<notin> {Idle, Gone} \<Longrightarrow> load w' < load w"
  by (auto simp: stage_def split: worker.splits outcome.splits prod.splits if_splits)

lemma pipeline_left:
  assumes "pipeline lb s s'" "sv_lnclosed s"
  shows "left s' < left s"
  using assms
proof (cases rule: pipeline.cases)
  case (read i f fs)
  then show ?thesis using sum_update [of i "sv_conns s" conn_work "\<lparr>cn_todo = fs, cn_hand = Some f\<rparr>"]
    by (simp add: left_def conn_work_def)
next
  case (send i fs f)
  then show ?thesis using sum_update [of i "sv_conns s" conn_work "\<lparr>cn_todo = fs, cn_hand = None\<rparr>"]
    by (simp add: left_def conn_work_def)
next
  case (hangup i)
  then show ?thesis using sum_remove [of i "sv_conns s" conn_work] by (simp add: left_def conn_work_def)
next
  case (take_frame i f q)
  then show ?thesis using sum_update [of i "sv_workers s" load "Assembling f"] by (simp add: left_def)
next
  case (work i w mo w' li)
  then show ?thesis using sum_update [of i "sv_workers s" load w'] stage_load [OF work(6,5)] by (simp add: left_def)
next
  case (writer_exit i)
  then show ?thesis using sum_update [of i "sv_workers s" load Gone] by (simp add: left_def)
qed (use assms in \<open>auto simp: left_def stop_work_def split: phase.split\<close>)

text \<open>After the connections are closed something is always left to do until the end.\<close>

lemma stage_total: "(\<exists>w' li'. stage lb mo w li = Some (w', li')) \<or> stage lb mo w li = None"
  by auto

lemma worker_moves:
  assumes "alive s" "i < length (sv_workers s)" "sv_workers s ! i \<notin> {Idle, Gone}"
  shows "\<exists>s'. pipeline lb s s'"
proof (cases "stage lb mo (sv_workers s ! i) (sv_li s)")
  case None
  then show ?thesis using pipeline.crash [OF assms(1,2)] by blast
next
  case (Some r)
  obtain w' li where "r = (w', li)" by fastforce
  then show ?thesis using pipeline.work [OF assms(1,2) refl assms(3)] Some by blast
qed

lemma writer_moves:
  assumes "alive s" "control s" "\<not> list_all (\<lambda>w. w = Gone) (sv_workers s)" "sv_queue s \<noteq> [] \<or> sv_chclosed s"
  shows "\<exists>s'. pipeline lb s s'"
proof -
  obtain i where i: "i < length (sv_workers s)" "sv_workers s ! i \<noteq> Gone" using assms(3) by (auto simp: list_all_length)
  show ?thesis
  proof (cases "sv_workers s ! i = Idle")
    case False
    then show ?thesis using worker_moves [OF assms(1) i(1)] i(2) by simp
  next
    case True
    show ?thesis
    proof (cases "sv_queue s")
      case Nil
      then show ?thesis using pipeline.writer_exit [OF assms(1) i(1) True] assms(4) by blast
    next
      case (Cons f q)
      then show ?thesis using pipeline.take_frame [OF assms(1) i(1) True] by blast
    qed
  qed
qed

lemma never_stuck:
  assumes "control s" "alive s" "sv_lnclosed s"
  shows "\<exists>s'. pipeline lb s s'"
proof (cases "sv_phase s")
  case Serving
  then show ?thesis using pipeline.serve_end assms(3) by blast
next
  case WaitWriters
  then have closed: "sv_chclosed s" using assms(1) by (simp add: control_def)
  show ?thesis
  proof (cases "list_all (\<lambda>w. w = Gone) (sv_workers s)")
    case True
    then show ?thesis using pipeline.exit WaitWriters by blast
  qed (use writer_moves [OF assms(2,1)] closed in blast)
next
  case WaitConns
  then have open_ch: "\<not> sv_chclosed s" "Gone \<notin> set (sv_workers s)" "sv_workers s \<noteq> []" using assms(1) by (auto simp: control_def)
  then have busy: "\<not> list_all (\<lambda>w. w = Gone) (sv_workers s)" by (cases "sv_workers s") auto
  show ?thesis
  proof (cases "sv_conns s")
    case Nil
    then show ?thesis using pipeline.close_channel WaitConns by blast
  next
    case (Cons c cs)
    then have c: "0 < length (sv_conns s)" "sv_conns s ! 0 = c" by simp_all
    show ?thesis
    proof (cases "cn_hand c")
      case None
      show ?thesis
      proof (cases "cn_todo c")
        case Nil
        then have "sv_conns s ! 0 = \<lparr>cn_todo = [], cn_hand = None\<rparr>" using c(2) None by (cases c) simp
        then show ?thesis using pipeline.hangup [OF assms(2) c(1)] by blast
      next
        case (Cons f fs)
        then have "sv_conns s ! 0 = \<lparr>cn_todo = f # fs, cn_hand = None\<rparr>" using c(2) None by (cases c) simp
        then show ?thesis using pipeline.read [OF assms(2) c(1)] by blast
      qed
    next
      case (Some f)
      then have "sv_conns s ! 0 = \<lparr>cn_todo = cn_todo c, cn_hand = Some f\<rparr>" using c(2) by (cases c) simp
      then show ?thesis using pipeline.send [OF assms(2) c(1)] open_ch(1) writer_moves [OF assms(2,1) busy]
        by (cases "length (sv_queue s) < frameChanBuf") (blast, simp add: frameChanBuf_def, force)
    qed
  qed
qed (use assms in auto)

lemma lnclosed_kept: "pipeline lb s s' \<Longrightarrow> sv_lnclosed s' = sv_lnclosed s"
  by (erule pipeline.cases) simp_all

interpretation stopping: draining_system "sound lb" "pipeline lb" "sound lb" sv_lnclosed alive left
proof unfold_locales
  fix s s' :: "'a server"
  show "pipeline lb s s' \<Longrightarrow> sound lb s \<Longrightarrow> sound lb s'" using sound_step unfolding server_step_def by blast
  show "sound lb s \<Longrightarrow> sv_lnclosed s \<Longrightarrow> alive s \<Longrightarrow> \<exists>s'. pipeline lb s s'" using never_stuck by (auto simp: sound_def)
qed (simp_all add: lnclosed_kept pipeline_left)



text \<open>Nothing waits for the flusher: wherever it is, the process can end there, with the lines in
  flight neither on file nor in memory.\<close>

lemma pipeline_flusher: "pipeline lb s s' \<Longrightarrow> sv_flusher s' = sv_flusher s"
  by (erule pipeline.cases) simp_all

lemma exit_with_lines_in_flight:
  assumes "reachable lb li s" "sv_lnclosed s"
  shows "\<exists>n s'. (pipeline lb ^^ n) s s' \<and> \<not> alive s' \<and> in_flight (sv_flusher s') = in_flight (sv_flusher s)"
proof -
  obtain n s' where r: "(pipeline lb ^^ n) s s'" "\<not> alive s'" using stopping.drains [OF sound_reachable [OF assms(1)] assms(2)] by blast
  have "sv_flusher s' = sv_flusher s" using r(1) by (induction n arbitrary: s') (auto simp: pipeline_flusher)
  then show ?thesis using r by metis
qed

subsection \<open>A run to the end\<close>

text \<open>One connection, one frame; the signal comes right after it was read.\<close>

definition demo_libs :: "bucket libs" where
  "demo_libs = \<lparr>lb_unmarshal = (\<lambda>_. Some (Some [])), lb_marshal = (\<lambda>_. Some ''{}''), lb_detail = (\<lambda>_. None),
     lb_dayOf = (\<lambda>_. ''2026-01-01''), lb_enc = id\<rparr>"

abbreviation demo_listener :: "bucket listener" where
  "demo_listener \<equiv> start_listener Some ''2026-01-01'' True \<lparr>root = [], ddir = []\<rparr> []"

definition demo_raw :: rawFrame where
  "demo_raw = \<lparr>frm = sample_frame, src = ''10.1.2.3''\<rparr>"

lemma demo_conn: "fst (handleConn ''10.1.2.3:5050'' \<lparr>pending = encodeFrame sample_frame, ending = AtEOF\<rparr>) = [demo_raw]"
proof -
  let ?z = "\<lparr>pending = [], ending = AtEOF\<rparr>"
  have "list_all sendable [sample_frame]" by (simp add: sendable_def sample_frame_def maxFrame_def)
  moreover have "readFrame ?z = Inl EOF" by (simp add: readFrame_nil)
  ultimately have "readLoop (push_frame sample_frame ?z) = ([sample_frame], ?z, EOF)"
    using frames.drain_pushes_stop [of "[sample_frame]" ?z EOF] by simp
  moreover have "sourceAddr ''10.1.2.3:5050'' = ''10.1.2.3''" by code_simp
  ultimately show ?thesis by (simp add: handleConn_def push_frame_def demo_raw_def)
qed

lemma reachable_pipeline: "reachable lb li s \<Longrightarrow> pipeline lb s s' \<Longrightarrow> reachable lb li s'"
  unfolding reachable_def server_step_def by (simp add: rtranclp.rtrancl_into_rtrancl)

lemma reachable_background: "reachable lb li s \<Longrightarrow> background lb s s' \<Longrightarrow> reachable lb li s'"
  unfolding reachable_def server_step_def by (simp add: rtranclp.rtrancl_into_rtrancl)


definition demo_stopping :: "bucket server" where
  "demo_stopping = (start_server demo_listener)\<lparr>sv_conns := [\<lparr>cn_todo = [], cn_hand = Some demo_raw\<rparr>], sv_read := [demo_raw],
     sv_stop := True, sv_lnclosed := True\<rparr>"

lemma demo_stopping_reachable: "reachable lb demo_listener demo_stopping"
proof -
  let ?s0 = "start_server demo_listener"
  let ?s1 = "?s0\<lparr>sv_conns := [\<lparr>cn_todo = [demo_raw], cn_hand = None\<rparr>]\<rparr>"
  let ?s2 = "?s1\<lparr>sv_conns := [\<lparr>cn_todo = [], cn_hand = Some demo_raw\<rparr>], sv_read := [demo_raw]\<rparr>"
  have r0: "reachable lb demo_listener ?s0" by (simp add: reachable_def)
  have "pipeline lb ?s0 ?s1"
    using pipeline.accept [of ?s0, OF _ _ demo_conn [symmetric], of lb 0] by (simp add: start_server_def)
  note r1 = reachable_pipeline [OF r0 this]
  have "pipeline lb ?s1 ?s2"
    using pipeline.read [of ?s1 0 demo_raw "[]" lb] by (simp add: start_server_def)
  note r2 = reachable_pipeline [OF r1 this]
  have "background lb ?s2 (?s2\<lparr>sv_stop := True\<rparr>)"
    by (rule background.signal) (simp add: start_server_def)
  note r3 = reachable_background [OF r2 this]
  have "background lb (?s2\<lparr>sv_stop := True\<rparr>) (?s2\<lparr>sv_stop := True\<rparr>\<lparr>sv_lnclosed := True\<rparr>)"
    by (rule background.close_listener) (simp_all add: start_server_def)
  from reachable_background [OF r3 this] show ?thesis by (simp add: demo_stopping_def start_server_def)
qed







text \<open>The same with a decoder that finds null.\<close>

definition null_libs :: "bucket libs" where
  "null_libs = demo_libs\<lparr>lb_unmarshal := (\<lambda>_. Some None)\<rparr>"

theorem crashes_only_on_null_witness:
  "\<exists>s. reachable null_libs demo_listener s \<and> sv_phase s = Crashed \<and> (\<exists>f. f \<in> set (sv_read s) \<and> lb_unmarshal null_libs (meta (frm f)) = Some None)"
proof -
  let ?s0 = "demo_stopping"
  let ?s1 = "?s0\<lparr>sv_conns := [\<lparr>cn_todo = [], cn_hand = None\<rparr>], sv_queue := [demo_raw]\<rparr>"
  let ?s2 = "?s1\<lparr>sv_workers := (sv_workers ?s1)[0 := Assembling demo_raw], sv_queue := []\<rparr>"
  have "pipeline null_libs ?s0 ?s1"
    using pipeline.send [of ?s0 0 "[]" demo_raw null_libs] by (simp add: demo_stopping_def start_server_def frameChanBuf_def)
  note r1 = reachable_pipeline [OF demo_stopping_reachable this]
  have "pipeline null_libs ?s1 ?s2"
    using pipeline.take_frame [of ?s1 0 demo_raw "[]" null_libs] by (simp add: demo_stopping_def start_server_def numFrameWriters_def)
  note r2 = reachable_pipeline [OF r1 this]
  have "stage null_libs mo (sv_workers ?s2 ! 0) (sv_li ?s2) = None" for mo
    by (simp add: stage_def demo_stopping_def start_server_def numFrameWriters_def null_libs_def assembleEntry_def)
  then have "pipeline null_libs ?s2 (?s2\<lparr>sv_phase := Crashed\<rparr>)"
    using pipeline.crash [of ?s2 0 null_libs] by (simp add: demo_stopping_def start_server_def numFrameWriters_def)
  from crashes_only_on_null [OF reachable_pipeline [OF r2 this]] reachable_pipeline [OF r2 this] show ?thesis
    by (intro exI [of _ "?s2\<lparr>sv_phase := Crashed\<rparr>"]) auto
qed

end
