(* ===== verification/Http_Text.thy ===== *)
theory Http_Text
  imports Go_Encoding
begin

text \<open>
  Text-level parts of the listener's HTTP API (\<open>bodylog-listener-go/httpapi.go\<close>, \<open>main.go\<close>): the
  token check, SQL string literals, the pagination cursor.
\<close>

text \<open>What a handler reads of a request: a header and query parameters, both empty when
  absent.\<close>

record httpRequest =
  authorization :: string
  query :: "string \<Rightarrow> string"

definition authOK :: "string \<Rightarrow> httpRequest \<Rightarrow> bool" where
  "authOK httpToken r =
    (if httpToken = [] then True
     else if hasPrefix (authorization r) ''Bearer '' \<and> trimPrefix (authorization r) ''Bearer '' = httpToken
     then True
     else if query r ''token'' \<noteq> [] \<and> query r ''token'' = httpToken then True
     else False)"

definition sqlStr :: "string \<Rightarrow> string" where
  "sqlStr s = [CHR 0x27] @ replaceByte CHR 0x27 [CHR 0x27, CHR 0x27] s @ [CHR 0x27]"

definition makeCursor :: "string \<Rightarrow> string \<Rightarrow> string" where
  "makeCursor ts rid = rawURLEncode (ts @ ''|'' @ rid)"

datatype cursor_error = NotBase64url | Malformed

text \<open>\<open>Inr None\<close> when there is no cursor.\<close>

definition parseCursor :: "string \<Rightarrow> cursor_error + (string \<times> string) option" where
  "parseCursor s =
    (if s = [] then Inr None
     else case rawURLDecode s of
            None \<Rightarrow> Inl NotBase64url
          | Some b \<Rightarrow>
              (case indexByte b CHR ''|'' of
                 None \<Rightarrow> Inl Malformed
               | Some i \<Rightarrow> Inr (Some (take i b, drop (i + 1) b))))"

subsection \<open>Authorisation\<close>

text \<open>Fact (authorisation).  With a token configured, a request passes exactly when its bearer
  header or its token parameter is that token; a header of another scheme, a prefix of the
  token or an empty parameter never does.\<close>

theorem authOK_iff:
  assumes "token \<noteq> []"
  shows "authOK token r \<longleftrightarrow> authorization r = ''Bearer '' @ token \<or> query r ''token'' = token"
proof -
  have "hasPrefix h p \<and> trimPrefix h p = t \<longleftrightarrow> h = p @ t" for h p t
    by (auto simp: hasPrefix_def trimPrefix_def) (metis append_take_drop_id)
  then show ?thesis using assms by (auto simp: authOK_def)
qed

theorem authOK_iff_witness:
  "\<not> authOK ''s3'' \<lparr>authorization = ''Bearer s33'', query = (\<lambda>_. [])\<rparr> \<and> authOK ''s3'' \<lparr>authorization = ''Bearer s3'', query = (\<lambda>_. [])\<rparr>"
  by (simp add: authOK_iff)

subsection \<open>SQL literals\<close>

text \<open>How SQL reads a string literal: the characters up to a quote that is not doubled.\<close>

fun sql_chars :: "string \<Rightarrow> (string \<times> string) option" where
  "sql_chars [] = None"
| "sql_chars (c # s) =
     (if c = CHR 0x27 then
        (case s of
           d # s' \<Rightarrow> if d = CHR 0x27 then map_option (apfst ((#) CHR 0x27)) (sql_chars s') else Some ([], s)
         | [] \<Rightarrow> Some ([], []))
      else map_option (apfst ((#) c)) (sql_chars s))"

definition sql_literal :: "string \<Rightarrow> (string \<times> string) option" where
  "sql_literal s = (case s of c # r \<Rightarrow> if c = CHR 0x27 then sql_chars r else None | [] \<Rightarrow> None)"

lemma replaceByte_simps [simp]:
  "replaceByte c r [] = []" "replaceByte c r (x # s) = (if x = c then r else [x]) @ replaceByte c r s"
  by (simp_all add: replaceByte_def)

lemma sql_chars_quoted:
  "rest = [] \<or> hd rest \<noteq> CHR 0x27 \<Longrightarrow>
     sql_chars (replaceByte CHR 0x27 [CHR 0x27, CHR 0x27] s @ CHR 0x27 # rest) = Some (s, rest)"
  by (induction s) (auto split: list.split)

text \<open>Property C37 (no SQL injection).  Whatever the string, the SQL reader takes the quoted text as
  one literal with exactly that value and continues with what the program wrote after it.\<close>

theorem sqlStr_literal:
  assumes "rest = [] \<or> hd rest \<noteq> CHR 0x27"
  shows "sql_literal (sqlStr s @ rest) = Some (s, rest)"
  using sql_chars_quoted [OF assms] by (simp add: sql_literal_def sqlStr_def)

theorem sqlStr_literal_witness:
  "sql_literal (sqlStr (''x'' @ [CHR 0x27] @ '' OR 1=1 --'') @ '' AND stream = true'')
     = Some (''x'' @ [CHR 0x27] @ '' OR 1=1 --'', '' AND stream = true'')"
  by (rule sqlStr_literal) simp

subsection \<open>Cursors\<close>

lemma indexByte_append: "c \<notin> set s \<Longrightarrow> indexByte (s @ c # r) c = Some (length s)"
  by (induction s) auto

lemma b64_nonempty: "b \<noteq> [] \<Longrightarrow> rawURLEncode b \<noteq> []"
  unfolding rawURLEncode_def by (cases "(url_digit, [] :: string, b)" rule: b64encode.cases) auto

lemma cursor_read:
  "CHR ''|'' \<notin> set ts \<Longrightarrow> parseCursor (makeCursor ts rid) = Inr (Some (ts, rid))"
  using indexByte_append [of _ ts rid] b64_nonempty [of "ts @ ''|'' @ rid"]
  by (simp add: parseCursor_def makeCursor_def rawURL_roundtrip)

text \<open>Fact (cursors).  A cursor made from a timestamp and any request id is read back as that
  pair, even when the id holds the separator or no text at all.\<close>

theorem cursor_roundtrip:
  assumes "CHR ''|'' \<notin> set ts"
  shows "parseCursor (makeCursor ts rid) = Inr (Some (ts, rid))"
  by (rule cursor_read [OF assms])

theorem cursor_roundtrip_witness:
  "parseCursor (makeCursor ''2026-05-04T10:30:59.5+08:00'' ''a|b'') = Inr (Some (''2026-05-04T10:30:59.5+08:00'', ''a|b''))"
  by (rule cursor_roundtrip) simp

end
