(* ===== verification/Summary.thy ===== *)
theory Summary
  imports Aggregator_Reload Http_Text Values "HOL-Library.Product_Lexorder"
begin

text \<open>
  \<open>GET /summary\<close> (\<open>bodylog-listener-go/httpapi.go\<close>): the rows of the window, the totals of each
  peer and the optional breakdown merged back to one row per minute and peer.
\<close>

record peerSummary =
  ps_Peer :: string
  ps_Requests :: int64
  ps_Status2xx :: int64
  ps_Status4xx :: int64
  ps_Status5xx :: int64
  ps_PromptTokens :: int64
  ps_CachedTokens :: int64
  ps_CompletionTokens :: int64
  ps_TotalTokens :: int64
  ps_ReqBodyBytes :: int64
  ps_RespBodyBytes :: int64
  ps_RTAvgMs :: int64
  ps_RTMaxMs :: int64
  ps_FrtAvgMs :: int64
  ps_FrtMaxMs :: int64
  ps_FrtN :: int64

text \<open>Go's integer division truncates towards zero.\<close>

definition quot :: "int64 \<Rightarrow> int64 \<Rightarrow> int64" where
  "quot a b = word_of_int (sgn (sint a) * sgn (sint b) * (\<bar>sint a\<bar> div \<bar>sint b\<bar>))"

definition peer_summary :: "bucket \<Rightarrow> peerSummary" where
  "peer_summary p =
    (let avg = (if sint (Requests p) > 0 then quot (RTSumMs p) (Requests p) else 0);
         frtAvg = (if sint (FrtN p) > 0 then quot (FrtSumMs p) (FrtN p) else 0) in
     \<lparr>ps_Peer = Peer p, ps_Requests = Requests p, ps_Status2xx = Status2xx p,
      ps_Status4xx = Status4xx p, ps_Status5xx = Status5xx p, ps_PromptTokens = PromptTok p,
      ps_CachedTokens = CachedTok p, ps_CompletionTokens = ComplTok p, ps_TotalTokens = TotalTok p,
      ps_ReqBodyBytes = ReqBytes p, ps_RespBodyBytes = RespBytes p, ps_RTAvgMs = avg,
      ps_RTMaxMs = RTMaxMs p, ps_FrtAvgMs = frtAvg, ps_FrtMaxMs = FrtMaxMs p, ps_FrtN = FrtN p\<rparr>)"

subsection \<open>The window\<close>

text \<open>\<open>minutes\<close>: the parameter, 5 when it is missing, unreadable or not positive, at most
  what the archive keeps.\<close>

definition summary_minutes :: "int \<Rightarrow> string \<Rightarrow> int" where
  "summary_minutes keep v =
    (let m0 = fst (atoi v); m1 = (if m0 \<le> 0 then 5 else m0)
     in if keep > 0 \<and> m1 > keep then keep else m1)"

text \<open>The start of the window, aligned to a minute, in 64-bit arithmetic.\<close>

definition summary_cutoff :: "int \<Rightarrow> int \<Rightarrow> int" where
  "summary_cutoff now minutes = minuteOf (sint (word_of_int (now - minutes * 60) :: int64))"

definition summary_rows :: "int \<Rightarrow> aggregator \<Rightarrow> bucket list" where
  "summary_rows cutoff a =
    map (heap a) (filter (\<lambda>p. Minute (heap a p) \<ge> cutoff) (archive a)) @
    concat (map (\<lambda>(m, bk). if m \<ge> cutoff then map (heap a \<circ> snd) bk else []) (active a))"

subsection \<open>Totals per peer\<close>

definition add_peer :: "bucket \<Rightarrow> (string \<times> bucket) list \<Rightarrow> (string \<times> bucket) list" where
  "add_peer b perPeer =
    (let p = (case map_of perPeer (Peer b) of Some p \<Rightarrow> p | None \<Rightarrow> new_bucket 0 (Peer b) [])
     in put (Peer b) (bucket_add p b) perPeer)"

definition peer_totals :: "bucket list \<Rightarrow> peerSummary list" where
  "peer_totals rows = sort_key ps_Peer (map (peer_summary \<circ> snd) (fold add_peer rows []))"

subsection \<open>mergeBucketsByPeer\<close>

text \<open>The map from keys to the buckets in \<open>order\<close>: the association list itself, in order of first
  appearance.\<close>

definition merge_key :: "bucket \<Rightarrow> string" where
  "merge_key b = formatInt (Minute b) @ CHR 0x00 # Peer b"

definition merge_step :: "bucket \<Rightarrow> (string \<times> bucket) list \<Rightarrow> (string \<times> bucket) list" where
  "merge_step b mg =
    (case map_of mg (merge_key b) of
       None \<Rightarrow> mg @ [(merge_key b, b\<lparr>Stream := []\<rparr>)]
     | Some e \<Rightarrow> put (merge_key b) (bucket_add e b) mg)"

definition mergeBucketsByPeer :: "bucket list \<Rightarrow> bucket list" where
  "mergeBucketsByPeer rows = map snd (fold merge_step rows [])"

subsection \<open>The handler\<close>

record summary =
  sm_from :: int
  sm_minutes :: int
  sm_peers :: "peerSummary list"
  sm_buckets :: "bucket list option"

datatype 'a reply = Unauthorized | BadRequest string | OK 'a

definition stream_filter :: "string \<Rightarrow> bucket list \<Rightarrow> bucket list" where
  "stream_filter f rows =
    (if f \<noteq> [] then
       (let want = (if f = ''true'' \<or> f = ''1'' then ''true'' else ''false'')
        in filter (\<lambda>b. Stream b = want) rows)
     else rows)"

definition summaryHandler :: "string \<Rightarrow> httpRequest \<Rightarrow> int \<Rightarrow> aggregator \<Rightarrow> summary reply" where
  "summaryHandler httpToken r now a =
    (if \<not> authOK httpToken r then Unauthorized
     else
       (let minutes = summary_minutes (archiveKeepMin a) (query r ''minutes'');
            f = query r ''stream'' in
        if f \<notin> {'''', ''true'', ''1'', ''false'', ''0''}
        then BadRequest ''bad stream (want true/1/false/0 or empty)''
        else
          (let cutoff = summary_cutoff now minutes;
               rows = stream_filter f (summary_rows cutoff a)
           in OK \<lparr>sm_from = cutoff, sm_minutes = minutes, sm_peers = peer_totals rows,
                sm_buckets =
                  (if query r ''breakdown'' = ''true''
                   then Some (sort_key (\<lambda>b. (Minute b, Peer b))
                          (if f = [] then mergeBucketsByPeer rows else rows))
                   else None)\<rparr>)))"

end
