(* ===== verification/Go_Layouts.thy ===== *)
theory Go_Layouts
  imports Go_Time
begin

text \<open>
  The other layouts of package \<open>time\<close> the two programs use: RFC 3339 with and without a fraction, a
  local date and time, and the date of a file name.
\<close>

text \<open>\<open>time.Parse\<close> after a layout that ends in seconds takes a fraction too: at most nine of its
  digits count.\<close>

definition getfrac :: "string \<Rightarrow> int \<times> string" where
  "getfrac s = (case s of
      c # d # r \<Rightarrow>
        if (c = CHR ''.'' \<or> c = CHR '','') \<and> is_digit d then
          (let ds = takeWhile is_digit (d # r); use = take 9 ds
           in (int (nat_of_digits use * 10 ^ (9 - length use)), drop (length ds) (d # r)))
        else (0, s)
    | _ \<Rightarrow> (0, s))"

text \<open>The zone of RFC 3339, and the local one that takes no text.\<close>

definition zoneRFC3339 :: "string \<Rightarrow> (int \<times> string) option" where
  "zoneRFC3339 s = (case s of c # r \<Rightarrow> if c = CHR ''Z'' then Some (0, r) else getzone s | [] \<Rightarrow> None)"

definition parseLayout :: "char \<Rightarrow> (string \<Rightarrow> (int \<times> string) option) \<Rightarrow> string \<Rightarrow> gotime option" where
  "parseLayout sep getz s =
     Option.bind (getyear s) (\<lambda>(y, s). Option.bind (lit CHR ''-'' s) (\<lambda>s.
     Option.bind (getnum True s) (\<lambda>(mo, s). if mo < 1 \<or> mo > 12 then None else
     Option.bind (lit CHR ''-'' s) (\<lambda>s. Option.bind (getnum True s) (\<lambda>(d, s).
     Option.bind (lit sep s) (\<lambda>s. Option.bind (getnum False s) (\<lambda>(h, s). if h \<ge> 24 then None else
     Option.bind (lit CHR '':'' s) (\<lambda>s. Option.bind (getnum True s) (\<lambda>(mi, s). if mi \<ge> 60 then None else
     Option.bind (lit CHR '':'' s) (\<lambda>s. Option.bind (getnum True s) (\<lambda>(se, s). if se \<ge> 60 then None else
     (case getfrac s of (fr, s) \<Rightarrow> Option.bind (getz s) (\<lambda>(z, s).
       if s \<noteq> [] \<or> d < 1 \<or> d > daysIn mo y then None
       else Some \<lparr>ns = (days_of_civil y mo d * 86400 + h * 3600 + mi * 60 + se - z) * 1000000000 + fr,
                  zone = z\<rparr>)))))))))))))"

text \<open>\<open>t.Format(time.RFC3339Nano)\<close>: a fraction without trailing zeros, \<open>Z\<close> for offset 0.\<close>

definition formatNano :: "gotime \<Rightarrow> string" where
  "formatNano t =
     (let s = unixSec t + zone t; sod = s mod 86400; az = nat \<bar>zone t\<bar> div 60;
          fr = rev (dropWhile (\<lambda>c. c = CHR ''0'') (rev (padNat 9 (nat (ns t mod 1000000000))))) in
      formatDay (s div 86400) @ ''T'' @ padNat 2 (nat (sod div 3600)) @ '':'' @
      padNat 2 (nat (sod mod 3600 div 60)) @ '':'' @ padNat 2 (nat (sod mod 60)) @
      (if fr = [] then [] else ''.'' @ fr) @
      (if zone t = 0 then ''Z''
       else (if zone t \<le> - 60 then ''-'' else ''+'') @ padNat 2 (az div 60) @ '':'' @ padNat 2 (az mod 60)))"

text \<open>\<open>time.ParseInLocation("2006-01-02", s, loc)\<close> in a zone with a fixed offset.\<close>

definition parseDay :: "int \<Rightarrow> string \<Rightarrow> gotime option" where
  "parseDay tz s =
     Option.bind (getyear s) (\<lambda>(y, s). Option.bind (lit CHR ''-'' s) (\<lambda>s.
     Option.bind (getnum True s) (\<lambda>(mo, s). if mo < 1 \<or> mo > 12 then None else
     Option.bind (lit CHR ''-'' s) (\<lambda>s. Option.bind (getnum True s) (\<lambda>(d, s).
       if s \<noteq> [] \<or> d < 1 \<or> d > daysIn mo y then None
       else Some \<lparr>ns = (days_of_civil y mo d * 86400 - tz) * 1000000000, zone = tz\<rparr>)))))"

subsection \<open>Evaluating a date\<close>

lemma digit_chars: "char_of (48 :: nat) = CHR ''0''" "char_of (49 :: nat) = CHR ''1''" "char_of (50 :: nat) = CHR ''2''"
  "char_of (51 :: nat) = CHR ''3''" "char_of (52 :: nat) = CHR ''4''" "char_of (53 :: nat) = CHR ''5''" "char_of (54 :: nat) = CHR ''6''"
  "char_of (55 :: nat) = CHR ''7''" "char_of (56 :: nat) = CHR ''8''" "char_of (57 :: nat) = CHR ''9''"
  by code_simp+

lemma formatDay_eval: "civil_of_days n = (y, m, d) \<Longrightarrow> formatDay n = appendInt y 4 @ ''-'' @ padNat 2 (nat m) @ ''-'' @ padNat 2 (nat d)"
  by (simp add: formatDay_def)

end
