(* ===== verification/Metrics_Api.thy ===== *)
theory Metrics_Api
  imports Http_Text Store Go_Float Go_Layouts
begin

text \<open>
  \<open>GET /metrics\<close> (\<open>bodylog-listener-go/httpapi.go\<close>): the time parameters, the choice of files, the
  SQL text, the page and its cursor.  DuckDB is a parameter: what a query returns.  The local
  zone is one with a fixed offset \<open>tz\<close>, in seconds.
\<close>

subsection \<open>Times\<close>

definition parseTimeParam :: "int \<Rightarrow> string \<Rightarrow> gotime option" where
  "parseTimeParam tz s =
    (if s = [] then None
     else case parseInt s of
       (n, None) \<Rightarrow> Some \<lparr>ns = n * 1000000000, zone = tz\<rparr>
     | (n, Some e) \<Rightarrow>
        (case parseLayout CHR ''T'' zoneRFC3339 s of
           Some t \<Rightarrow> Some t
         | None \<Rightarrow>
            (case parseLayout CHR ''T'' (\<lambda>s. Some (tz, s)) s of
               Some t \<Rightarrow> Some t
             | None \<Rightarrow> parseLayout CHR '' '' (\<lambda>s. Some (tz, s)) s)))"

definition localDay :: "int \<Rightarrow> gotime \<Rightarrow> int" where
  "localDay tz t = (unixSec t + tz) div 86400"

subsection \<open>Rows\<close>

text \<open>A value the driver scans: text, a timestamp or a number of the column types in use, each
  but text with what \<open>%v\<close> prints for it; anything else is known by that alone.\<close>

datatype cell = CNull | CStr string | CTime gotime string | CFlt float64 string | COther string

type_synonym row = "(string \<times> cell) list"

definition column :: "row \<Rightarrow> string \<Rightarrow> cell" where
  "column row k = (case map_of row k of Some v \<Rightarrow> v | None \<Rightarrow> CNull)"

definition tsString :: "cell \<Rightarrow> string" where
  "tsString v = (case v of CStr s \<Rightarrow> s | CTime t _ \<Rightarrow> formatNano t | CFlt _ s \<Rightarrow> s | COther s \<Rightarrow> s | CNull \<Rightarrow> ''<nil>'')"

definition anyStr :: "cell \<Rightarrow> string" where
  "anyStr v = (case v of CNull \<Rightarrow> [] | CStr s \<Rightarrow> s | CTime _ s \<Rightarrow> s | CFlt _ s \<Rightarrow> s | COther s \<Rightarrow> s)"

definition rowEndTs :: "int \<Rightarrow> row \<Rightarrow> string" where
  "rowEndTs tz row =
    (let e = column row ''ts_end'' in
     if e \<noteq> CNull \<and> tsString e \<noteq> [] then tsString e
     else
       (let tsStr = tsString (column row ''ts'');
            rt = (case column row ''rt'' of CFlt x _ \<Rightarrow> x | _ \<Rightarrow> 0) in
        if tsStr = [] then tsStr
        else if rt = 0 then tsStr
        else case parseTimeParam tz tsStr of
               None \<Rightarrow> tsStr
             | Some t \<Rightarrow> formatNano (addDur t (sint (f2i (fmul rt 1000000000))))))"

subsection \<open>The query\<close>

text \<open>\<open>min_frt\<close> is given by the text the program prints for it.\<close>

datatype clause = ModelIs string | BackendIs string | StatusIs int | FrtAtLeast string
  | StreamIs bool | StreamNull

datatype lower = From gotime | After string string

record metrics_query =
  mq_parquets :: "string list"
  mq_jsonls :: "string list"
  mq_end :: gotime
  mq_lower :: lower
  mq_clauses :: "clause list"
  mq_limit :: nat

definition squoted :: "string \<Rightarrow> string" where
  "squoted s = [CHR 0x27] @ s @ [CHR 0x27]"

definition detailsColumns :: string where
  "detailsColumns = ''{'' @ joinWith '','' (map (\<lambda>(n, t). squoted n @ '':'' @ squoted t)
    [(''ts'', ''VARCHAR''), (''ts_end'', ''VARCHAR''), (''request_id'', ''VARCHAR''), (''source_addr'', ''VARCHAR''),
     (''uri'', ''VARCHAR''), (''method'', ''VARCHAR''), (''stream'', ''BOOLEAN''), (''status'', ''BIGINT''),
     (''peer'', ''VARCHAR''), (''forwarded_to'', ''VARCHAR''), (''backend'', ''VARCHAR''), (''mode'', ''VARCHAR''),
     (''session_src'', ''VARCHAR''), (''model'', ''VARCHAR''), (''finish_reason'', ''VARCHAR''), (''frt'', ''DOUBLE''),
     (''lct'', ''DOUBLE''), (''rt'', ''DOUBLE''), (''chunk_count'', ''BIGINT''), (''req_bytes'', ''BIGINT''),
     (''resp_bytes'', ''BIGINT''), (''prompt_tokens'', ''BIGINT''), (''completion_tokens'', ''BIGINT''),
     (''cached_tokens'', ''BIGINT''), (''total_tokens'', ''BIGINT''), (''reasoning_tokens'', ''BIGINT'')]) @ ''}''"

definition readDetailsJSON :: "string \<Rightarrow> string" where
  "readDetailsJSON arg = ''read_json('' @ arg @ '', columns='' @ detailsColumns @ '', format='' @
     squoted ''newline_delimited'' @ '', ignore_errors=true)''"

definition fileList :: "string list \<Rightarrow> string" where
  "fileList ps = ''['' @ joinWith '','' (map sqlStr ps) @ '']''"

definition endTsSql :: string where
  "endTsSql = ''COALESCE(ts_end::TIMESTAMPTZ, to_timestamp(epoch_us(ts::TIMESTAMPTZ) / 1000000.0 + COALESCE(rt, 0)))''"

definition clause_sql :: "clause \<Rightarrow> string" where
  "clause_sql c = (case c of
      ModelIs v \<Rightarrow> ''model = '' @ sqlStr v
    | BackendIs v \<Rightarrow> ''(backend = '' @ sqlStr v @ '' OR peer = '' @ sqlStr v @ '')''
    | StatusIs n \<Rightarrow> ''status = '' @ formatInt n
    | FrtAtLeast f \<Rightarrow> ''frt >= '' @ f
    | StreamIs b \<Rightarrow> if b then ''stream = true'' else ''stream = false''
    | StreamNull \<Rightarrow> ''stream IS NULL'')"

definition lower_sql :: "lower \<Rightarrow> string" where
  "lower_sql l = (case l of
      After ts rid \<Rightarrow> ''('' @ endTsSql @ '', COALESCE(request_id,'' @ squoted [] @ '')) > (TIMESTAMPTZ '' @ sqlStr ts @ '', '' @ sqlStr rid @ '')''
    | From t \<Rightarrow> endTsSql @ '' >= TIMESTAMPTZ '' @ sqlStr (formatNano t))"

definition metrics_sql :: "metrics_query \<Rightarrow> string" where
  "metrics_sql q =
    (let branches = (if mq_parquets q \<noteq> [] then [''SELECT * FROM read_parquet('' @ fileList (mq_parquets q) @ '')''] else []) @
                    (if mq_jsonls q \<noteq> [] then [''SELECT * FROM '' @ readDetailsJSON (fileList (mq_jsonls q))] else []);
         conds = [endTsSql @ '' < TIMESTAMPTZ '' @ sqlStr (formatNano (mq_end q)), lower_sql (mq_lower q)] @ map clause_sql (mq_clauses q)
     in ''SELECT * FROM ('' @ joinWith '' UNION ALL BY NAME '' branches @ '') WHERE '' @ joinWith '' AND '' conds @
        '' ORDER BY '' @ endTsSql @ '', COALESCE(request_id,'' @ squoted [] @ '') LIMIT '' @ formatNat (mq_limit q + 1))"

subsection \<open>Files\<close>

definition metricsMaxRows :: nat where
  "metricsMaxRows = 5000"

definition metrics_limit :: "string \<Rightarrow> nat" where
  "metrics_limit v = (if v \<noteq> [] then
      (case atoi v of (n, None) \<Rightarrow> if n > 0 \<and> n < int metricsMaxRows then nat n else metricsMaxRows
       | (n, Some _) \<Rightarrow> metricsMaxRows)
     else metricsMaxRows)"

text \<open>The days of \<open>[lo, end]\<close> and one more, as day numbers of the local calendar.\<close>

definition metrics_days :: "int \<Rightarrow> gotime \<Rightarrow> gotime \<Rightarrow> int list" where
  "metrics_days tz lo end = [localDay tz lo .. localDay tz end + 1]"

definition day_parquet :: "int \<Rightarrow> string" where
  "day_parquet d = formatDay d @ ''.parquet''"

definition day_jsonl :: "int \<Rightarrow> string" where
  "day_jsonl d = formatDay d @ ''.jsonl''"

definition metrics_files :: "store \<Rightarrow> int list \<Rightarrow> string list \<times> string list" where
  "metrics_files st days =
    (map day_parquet (filter (\<lambda>d. exists_in (ddir st) (day_parquet d)) days),
     map day_jsonl (filter (\<lambda>d. \<not> exists_in (ddir st) (day_parquet d) \<and> exists_in (ddir st) (day_jsonl d)) days))"

subsection \<open>The handler\<close>

text \<open>What the driver does with a query: an error, an error on the columns, or rows one by one,
  each of which may fail to scan, then a clean end or a failure.\<close>

datatype query_result = QueryErr string | ColumnsErr string | Rowset "(string + row) list" bool

record metrics_page =
  mp_rows :: "row list"
  mp_truncated :: bool
  mp_from :: "string option"
  mp_to :: "string option"
  mp_next :: "string option"

datatype metrics_reply = Denied | HttpErr nat string | Page metrics_page

fun scan_rows :: "nat \<Rightarrow> row list \<Rightarrow> (string + row) list \<Rightarrow> string + (row list \<times> bool)" where
  "scan_rows limit out [] = Inr (out, False)"
| "scan_rows limit out (x # xs) =
     (if length out \<ge> limit then Inr (out, True)
      else case x of Inl e \<Rightarrow> Inl e | Inr row \<Rightarrow> scan_rows limit (out @ [row]) xs)"

definition metrics_page_of :: "int \<Rightarrow> row list \<Rightarrow> bool \<Rightarrow> metrics_page" where
  "metrics_page_of tz out truncated =
    (if truncated \<and> out \<noteq> [] then
       (let l = List.last out; to = rowEndTs tz l in
        \<lparr>mp_rows = out, mp_truncated = truncated, mp_from = Some (rowEndTs tz (hd out)), mp_to = Some to,
         mp_next = Some (makeCursor to (anyStr (column l ''request_id'')))\<rparr>)
     else \<lparr>mp_rows = out, mp_truncated = truncated, mp_from = None, mp_to = None, mp_next = None\<rparr>)"

definition run_metrics :: "int \<Rightarrow> (metrics_query \<Rightarrow> query_result) \<Rightarrow> metrics_query \<Rightarrow> metrics_reply" where
  "run_metrics tz engine q = (case engine q of
      QueryErr e \<Rightarrow> HttpErr 500 (''query failed: '' @ e)
    | ColumnsErr e \<Rightarrow> HttpErr 500 (''columns: '' @ e)
    | Rowset rs _ \<Rightarrow>
        (case scan_rows (mq_limit q) [] rs of
           Inl e \<Rightarrow> HttpErr 500 (''scan: '' @ e)
         | Inr (out, truncated) \<Rightarrow> Page (metrics_page_of tz out truncated)))"

text \<open>The optional filters, in the order the code reads them; \<open>ftext\<close> is \<open>strconv.ParseFloat\<close>
  followed by \<open>%g\<close>.\<close>

definition metrics_clauses :: "(string \<Rightarrow> string option) \<Rightarrow> httpRequest \<Rightarrow> string + clause list" where
  "metrics_clauses ftext r =
    (let m = (if query r ''model'' \<noteq> [] then [ModelIs (query r ''model'')] else []);
         p = (if query r ''peer'' \<noteq> [] then [BackendIs (query r ''peer'')] else []);
         v = query r ''status'' in
     if v \<noteq> [] \<and> snd (atoi v) \<noteq> None then Inl ''bad status (want int)''
     else
       (let s = (if v \<noteq> [] then [StatusIs (fst (atoi v))] else []); f = query r ''min_frt'' in
        if f \<noteq> [] \<and> ftext f = None then Inl ''bad min_frt (want number, seconds)''
        else
          (let fr = (if f \<noteq> [] then [FrtAtLeast (the (ftext f))] else []); x = query r ''stream'' in
           if x = [] then Inr (m @ p @ s @ fr)
           else if x = ''true'' \<or> x = ''1'' then Inr (m @ p @ s @ fr @ [StreamIs True])
           else if x = ''false'' \<or> x = ''0'' then Inr (m @ p @ s @ fr @ [StreamIs False])
           else if x = ''null'' \<or> x = ''unknown'' then Inr (m @ p @ s @ fr @ [StreamNull])
           else Inl ''bad stream (want true/false/null)'')))"

text \<open>The lower bound: where the enumeration of files starts, and the condition on rows.\<close>

definition metrics_lower :: "int \<Rightarrow> httpRequest \<Rightarrow> gotime \<Rightarrow> string + (gotime \<times> lower)" where
  "metrics_lower tz r end = (case parseCursor (query r ''cursor'') of
      Inl _ \<Rightarrow> Inl ''bad cursor''
    | Inr (Some (ts, rid)) \<Rightarrow>
        (case parseTimeParam tz ts of None \<Rightarrow> Inl ''bad cursor ts'' | Some lo \<Rightarrow> Inr (lo, After ts rid))
    | Inr None \<Rightarrow>
        (case parseTimeParam tz (query r ''start'') of
           None \<Rightarrow> Inl ''bad start (or pass cursor)''
         | Some lo \<Rightarrow> if \<not> ns lo < ns end then Inl ''end must be after start'' else Inr (lo, From lo)))"

definition metricsHandler ::
  "string \<Rightarrow> (metrics_query \<Rightarrow> query_result) option \<Rightarrow> (string \<Rightarrow> string option) \<Rightarrow> string \<Rightarrow> int \<Rightarrow> store
     \<Rightarrow> httpRequest \<Rightarrow> metrics_reply" where
  "metricsHandler httpToken duckDB ftext path tz st r =
    (if \<not> authOK httpToken r then Denied
     else case duckDB of
       None \<Rightarrow> HttpErr 503 ''duckdb unavailable (built without CGO/go-duckdb?)''
     | Some engine \<Rightarrow>
        (case parseTimeParam tz (query r ''end'') of
           None \<Rightarrow> HttpErr 400 ''bad end''
         | Some end \<Rightarrow>
            (case metrics_lower tz r end of
               Inl e \<Rightarrow> HttpErr 400 e
             | Inr (lo, lower) \<Rightarrow>
                (let limit = metrics_limit (query r ''limit'');
                     (ps, js) = metrics_files st (metrics_days tz lo end) in
                 if ps = [] \<and> js = [] then Page (metrics_page_of tz [] False)
                 else case metrics_clauses ftext r of
                        Inl e \<Rightarrow> HttpErr 400 e
                      | Inr cs \<Rightarrow> run_metrics tz engine
                          \<lparr>mq_parquets = map (\<lambda>n. path @ ''/'' @ n) ps, mq_jsonls = map (\<lambda>n. path @ ''/'' @ n) js,
                           mq_end = end, mq_lower = lower, mq_clauses = cs, mq_limit = limit\<rparr>))))"

end
