(* ===== verification/Http_Server.thy ===== *)
theory Http_Server
  imports Summary Metrics_Api
begin

text \<open>
  The listener's HTTP server (\<open>serveHTTP\<close> in \<open>bodylog-listener-go/httpapi.go\<close>): which handler a path
  reaches, and what a client without the token learns.  \<open>ServeMux\<close> sends any other path to a 404.
\<close>

datatype answer = Healthy | SummaryReply "summary reply" | MetricsReply metrics_reply | NotFound

text \<open>What the handlers read besides the request: the token, the clock, the aggregator, DuckDB, the
  zone and the data directory.\<close>

record http_env =
  he_token :: string
  he_now :: int
  he_agg :: aggregator
  he_engine :: "(metrics_query \<Rightarrow> query_result) option"
  he_ftext :: "string \<Rightarrow> string option"
  he_path :: string
  he_tz :: int
  he_store :: store

definition serveHTTP :: "http_env \<Rightarrow> string \<Rightarrow> httpRequest \<Rightarrow> answer" where
  "serveHTTP he path r =
    (if path = ''/healthz'' then Healthy
     else if path = ''/summary'' then SummaryReply (summaryHandler (he_token he) r (he_now he) (he_agg he))
     else if path = ''/metrics'' then MetricsReply (metricsHandler (he_token he) (he_engine he) (he_ftext he) (he_path he) (he_tz he) (he_store he) r)
     else NotFound)"

text \<open>The token is there: as a bearer, or as the parameter.\<close>

definition presents :: "string \<Rightarrow> httpRequest \<Rightarrow> bool" where
  "presents tok r \<longleftrightarrow> authorization r = ''Bearer '' @ tok \<or> query r ''token'' = tok"

lemma authOK_presents: "tok \<noteq> [] \<Longrightarrow> authOK tok r \<Longrightarrow> presents tok r"
  by (simp add: authOK_iff presents_def)

text \<open>Property C40 (nothing without the token).  When a token is configured, the answer to a request
  that does not present it is the same whatever the listener has counted and stored: it depends
  on the path alone.  The health check stays open.\<close>

theorem nothing_without_token:
  assumes "he_token he \<noteq> []" and "he_token he' \<noteq> []"
    and "\<not> presents (he_token he) r" and "\<not> presents (he_token he') r'"
  shows "serveHTTP he path r = serveHTTP he' path r' \<and>
    serveHTTP he path r \<in> {Healthy, NotFound, SummaryReply Unauthorized, MetricsReply Denied}
    \<and> serveHTTP he ''/healthz'' r = Healthy"
proof -
  have "\<not> authOK (he_token he) r" "\<not> authOK (he_token he') r'" using assms authOK_presents by blast+
  then show ?thesis by (simp add: serveHTTP_def summaryHandler_def metricsHandler_def)
qed

definition demo_http_env :: "aggregator \<Rightarrow> http_env" where
  "demo_http_env a = \<lparr>he_token = ''s3'', he_now = 0, he_agg = a, he_engine = None, he_ftext = (\<lambda>_. None), he_path = [], he_tz = 0,
     he_store = \<lparr>root = [], ddir = []\<rparr>\<rparr>"

theorem nothing_without_token_witness:
  "serveHTTP (demo_http_env (newAggregator 5)) ''/summary'' \<lparr>authorization = ''Bearer s'', query = (\<lambda>_. [])\<rparr>
     = serveHTTP (demo_http_env ((newAggregator 7)\<lparr>nxt := 3\<rparr>)) ''/summary'' \<lparr>authorization = [], query = (\<lambda>_. ''s33'')\<rparr>"
  using nothing_without_token [of "demo_http_env (newAggregator 5)" "demo_http_env ((newAggregator 7)\<lparr>nxt := 3\<rparr>)"
      "\<lparr>authorization = ''Bearer s'', query = (\<lambda>_. [])\<rparr>" "\<lparr>authorization = [], query = (\<lambda>_. ''s33'')\<rparr>" "''/summary''"]
  by (simp add: demo_http_env_def presents_def)

end
