(* ===== verification/Summary_Facts.thy ===== *)
theory Summary_Facts
  imports Summary
begin

text \<open>
  What \<open>/summary\<close> answers: every live bucket of the window exactly once, per peer the exact
  sums in peer order, and in the default breakdown one row per minute and peer.
\<close>

subsection \<open>The two groupings\<close>

definition peers_ok :: "(string \<times> bucket) list \<Rightarrow> bool" where
  "peers_ok pp \<longleftrightarrow> wf_map pp \<and> (\<forall>k b. map_of pp k = Some b \<longrightarrow> Peer b = k)"

interpretation peers: grouping Peer "\<lambda>b. bucket_add (new_bucket 0 (Peer b) []) b" peers_ok "[]" add_peer map_of
  by unfold_locales (auto simp: peers_ok_def add_peer_def Let_def split: option.split)

definition merging_ok :: "(string \<times> bucket) list \<Rightarrow> bool" where
  "merging_ok mg \<longleftrightarrow> wf_map mg \<and> (\<forall>k b. map_of mg k = Some b \<longrightarrow> merge_key b = k \<and> Stream b = [])"

lemma wf_map_snoc [simp]: "wf_map (m @ [(k, v)]) \<longleftrightarrow> wf_map m \<and> map_of m k = None"
  by (auto simp: wf_map_def map_of_eq_None_iff)

lemma merge_key_simps [simp]: "merge_key (bucket_add e b) = merge_key e" "merge_key (b\<lparr>Stream := s\<rparr>) = merge_key b"
  by (simp_all add: merge_key_def)

interpretation merging: grouping merge_key "\<lambda>b. b\<lparr>Stream := []\<rparr>" merging_ok "[]" merge_step map_of
  by unfold_locales
    (auto simp: merging_ok_def merge_step_def map_add_def split: option.splits if_splits)

lemma ctr_Stream [simp]: "ctr c (b\<lparr>Stream := s\<rparr>) = ctr c b"
  by (cases c) simp_all

text \<open>The merge key determines the minute and the peer: the decimal digits hold no NUL.\<close>

lemma formatNat_digits: "list_all is_digit (formatNat n) \<and> nat_of_digits (formatNat n) = n \<and> formatNat n \<noteq> []"
proof (induction n rule: formatNat.induct)
  case (1 n)
  show ?case
  proof (cases "n < 10")
    case True
    then show ?thesis by (simp add: formatNat.simps [of n] nat_of_digits_def)
  next
    case False
    with 1 show ?thesis by (simp add: formatNat.simps [of n])
  qed
qed

lemma formatInt_inj: "formatInt i = formatInt j \<Longrightarrow> i = j"
proof -
  assume eq: "formatInt i = formatInt j"
  have ne: "formatNat n \<noteq> CHR ''-'' # s" for n s
    using formatNat_digits [of n] by (auto simp: is_digit_def)
  have inj: "formatNat m = formatNat n \<Longrightarrow> m = n" for m n
    using formatNat_digits [of m] formatNat_digits [of n] by metis
  show ?thesis
  proof (cases "i < 0"; cases "j < 0")
    assume "i < 0" "j < 0"
    with eq have "nat (- i) = nat (- j)" by (simp add: formatInt_def inj)
    with \<open>i < 0\<close> \<open>j < 0\<close> show ?thesis by simp
  next
    assume "\<not> i < 0" "\<not> j < 0"
    with eq have "nat i = nat j" by (simp add: formatInt_def inj)
    with \<open>\<not> i < 0\<close> \<open>\<not> j < 0\<close> show ?thesis by simp
  qed (use eq ne [of "nat i"] ne [of "nat j"] in \<open>auto simp: formatInt_def dest: sym\<close>)
qed

lemma formatInt_no_nul: "CHR 0x00 \<notin> set (formatInt i)"
proof -
  have "CHR 0x00 \<notin> set (formatNat n)" for n
    using formatNat_digits [of n] by (auto simp: list_all_iff is_digit_def)
  then show ?thesis by (simp add: formatInt_def)
qed

lemma merge_key_iff: "merge_key b = merge_key b' \<longleftrightarrow> Minute b = Minute b' \<and> Peer b = Peer b'"
proof
  assume eq: "merge_key b = merge_key b'"
  have tw: "takeWhile (\<lambda>c. c \<noteq> CHR 0x00) (formatInt i @ CHR 0x00 # s) = formatInt i" for i s
    by (rule takeWhile_eq_prefix) (use formatInt_no_nul [of i] in auto)
  have "formatInt (Minute b) = formatInt (Minute b')"
    using arg_cong [OF eq, of "takeWhile (\<lambda>c. c \<noteq> CHR 0x00)"] by (simp add: merge_key_def tw)
  with eq show "Minute b = Minute b' \<and> Peer b = Peer b'"
    by (auto simp: merge_key_def dest: formatInt_inj)
qed (simp add: merge_key_def)

subsection \<open>The window\<close>

lemma archive_Minute:
  "agg_ok a \<Longrightarrow> slot (archiveIdx a) mk = Some p \<or> slot (active a) mk = Some p \<Longrightarrow>
     p < nxt a \<and> bucket_key (heap a p) = mk \<and> Minute (heap a p) = fst mk"
  using agg_okD(4,5) [of a mk p] by (auto simp: bucket_key_def)

text \<open>The rows are read through distinct pointers, those of the cells of the window.\<close>

definition row_ptrs :: "int \<Rightarrow> aggregator \<Rightarrow> ptr list" where
  "row_ptrs cutoff a = filter (\<lambda>p. Minute (heap a p) \<ge> cutoff) (archive a @ ptrs (active a))"

lemma active_rows:
  assumes "\<And>m bk k p. (m, bk) \<in> set M \<Longrightarrow> (k, p) \<in> set bk \<Longrightarrow> Minute (h p) = m"
  shows "concat (map (\<lambda>(m, bk). if m \<ge> cutoff then map (h \<circ> snd) bk else []) M) =
    map h (filter (\<lambda>p. Minute (h p) \<ge> cutoff) (ptrs M))"
  using assms
proof (induction M)
  case (Cons e M)
  obtain m bk where e: "e = (m, bk)" by fastforce
  have ih: "concat (map (\<lambda>(m, bk). if m \<ge> cutoff then map (h \<circ> snd) bk else []) M) =
      map h (filter (\<lambda>p. Minute (h p) \<ge> cutoff) (ptrs M))"
    using Cons by (metis list.set_intros(2))
  have "\<forall>p \<in> set (map snd bk). Minute (h p) = m" using Cons.prems [of m bk] by (auto simp: e)
  then have "filter (\<lambda>p. Minute (h p) \<ge> cutoff) (map snd bk) = (if m \<ge> cutoff then map snd bk else [])"
    by (auto intro: filter_True filter_False)
  then show ?case by (auto simp: e ih)
qed simp

lemma summary_rows_ptrs: "agg_ok a \<Longrightarrow> summary_rows cutoff a = map (heap a) (row_ptrs cutoff a)"
proof -
  assume ok: "agg_ok a"
  have "Minute (heap a p) = m" if "(m, bk) \<in> set (active a)" "(k, p) \<in> set bk" for m bk k p
  proof -
    have "map_of (active a) m = Some bk" "map_of bk k = Some p"
      using that agg_okD(1) [OF ok] by (auto simp: wf2_def map_of_SomeI)
    then have "slot (active a) (m, k) = Some p" by (simp add: slot_active_Some)
    then show ?thesis using archive_Minute [OF ok, of "(m, k)" p] by simp
  qed
  from active_rows [of "active a" "heap a", OF this] show ?thesis
    by (simp add: summary_rows_def row_ptrs_def)
qed

lemma row_ptrs_iff:
  "agg_ok a \<Longrightarrow> p \<in> set (row_ptrs cutoff a) \<longleftrightarrow> (\<exists>mk. cell a mk = Some p \<and> cutoff \<le> fst mk)"
proof -
  assume ok: "agg_ok a"
  have "p \<in> set (archive a) \<or> p \<in> set (ptrs (active a)) \<longleftrightarrow> (\<exists>mk. cell a mk = Some p)"
    using slot_disjoint [OF ok]
    by (auto simp: archive_iff [OF ok] ptrs_iff [OF agg_okD(1) [OF ok]] cell_alt [OF ok] split: option.splits)
      fastforce+
  moreover have "Minute (heap a p) = fst mk" if "cell a mk = Some p" for mk
    using cell_key [OF ok that] by (auto simp: bucket_key_def)
  ultimately show ?thesis unfolding row_ptrs_def by (metis (mono_tags, lifting) mem_Collect_eq set_filter set_append Un_iff)
qed

lemma distinct_row_ptrs: "agg_ok a \<Longrightarrow> distinct (row_ptrs cutoff a)"
proof -
  assume ok: "agg_ok a"
  have "distinct (ptrs (active a))"
    by (rule distinct_ptrs [OF agg_okD(1) [OF ok]]) (use agg_okD(4) [OF ok] in metis)
  moreover have "p \<notin> set (archive a)" if "p \<in> set (ptrs (active a))" for p
    using that active_not_archived(1) [OF ok] by (auto simp: ptrs_iff [OF agg_okD(1) [OF ok]])
  ultimately show ?thesis using agg_okD(6) [OF ok] by (auto simp: row_ptrs_def)
qed

text \<open>Fact (the window).  The rows \<open>/summary\<close> reads are exactly the live buckets whose
  minute is in the window, archived or still active, each of them once.\<close>

theorem summary_rows_correct:
  assumes "agg_ok a"
  shows "set (summary_rows cutoff a) = {b. \<exists>mk. view a mk = Some b \<and> cutoff \<le> fst mk}
    \<and> distinct (map bucket_key (summary_rows cutoff a))"
proof
  show "set (summary_rows cutoff a) = {b. \<exists>mk. view a mk = Some b \<and> cutoff \<le> fst mk}"
  proof (intro set_eqI)
    fix b
    have "b \<in> set (summary_rows cutoff a) \<longleftrightarrow> (\<exists>p \<in> set (row_ptrs cutoff a). heap a p = b)"
      by (auto simp: summary_rows_ptrs [OF assms])
    also have "\<dots> \<longleftrightarrow> (\<exists>mk p. cell a mk = Some p \<and> cutoff \<le> fst mk \<and> heap a p = b)"
      unfolding Bex_def row_ptrs_iff [OF assms] by blast
    finally show "b \<in> set (summary_rows cutoff a) \<longleftrightarrow> b \<in> {b. \<exists>mk. view a mk = Some b \<and> cutoff \<le> fst mk}"
      by (auto simp: view_def)
  qed
  have "inj_on (\<lambda>p. bucket_key (heap a p)) (set (row_ptrs cutoff a))"
    by (rule inj_onI) (metis row_ptrs_iff [OF assms] cell_key [OF assms] option.inject)
  then show "distinct (map bucket_key (summary_rows cutoff a))"
    by (simp add: summary_rows_ptrs [OF assms] distinct_map distinct_row_ptrs [OF assms] comp_def)
qed

theorem summary_rows_correct_witness:
  "set (summary_rows 0 (ingest (demo_sample 60) (newAggregator 5))) = {demo_bucket 60}"
proof -
  have v: "view (ingest (demo_sample 60) (newAggregator 5)) mk =
      (if mk = sample_key (demo_sample 60) then Some (demo_bucket 60) else None)" for mk
    by (simp add: ingest_correct(2) [OF agg_ok_new] bucket_or_new_def demo_bucket_def)
      (simp add: view_def cell_def newAggregator_def demo_sample_def)
  let ?a = "ingest (demo_sample 60) (newAggregator 5)"
  have "set (summary_rows 0 ?a) = {b. \<exists>mk. view ?a mk = Some b \<and> 0 \<le> fst mk}"
    using summary_rows_correct [OF ingest_correct(1) [OF agg_ok_new [of 5]], of 0 "demo_sample 60"] by blast
  also have "\<dots> = {b. \<exists>mk. mk = sample_key (demo_sample 60) \<and> b = demo_bucket 60 \<and> 0 \<le> fst mk}"
    unfolding v by (metis (no_types, lifting) option.distinct(1) option.inject)
  also have "\<dots> = {demo_bucket 60}" by (simp add: sample_key_def demo_sample_def)
  finally show ?thesis .
qed

subsection \<open>Totals per peer\<close>

text \<open>The counters a summary shows.\<close>

definition ps_ctr :: "counter \<Rightarrow> peerSummary \<Rightarrow> int64 option" where
  "ps_ctr c s = (case c of
      CRequests \<Rightarrow> Some (ps_Requests s) | C2xx \<Rightarrow> Some (ps_Status2xx s) | C4xx \<Rightarrow> Some (ps_Status4xx s)
    | C5xx \<Rightarrow> Some (ps_Status5xx s) | CPrompt \<Rightarrow> Some (ps_PromptTokens s)
    | CCached \<Rightarrow> Some (ps_CachedTokens s) | CCompl \<Rightarrow> Some (ps_CompletionTokens s)
    | CTotal \<Rightarrow> Some (ps_TotalTokens s) | CReqBytes \<Rightarrow> Some (ps_ReqBodyBytes s)
    | CRespBytes \<Rightarrow> Some (ps_RespBodyBytes s) | CFrtN \<Rightarrow> Some (ps_FrtN s) | _ \<Rightarrow> None)"

lemma ps_ctr_summary: "ps_ctr c (peer_summary b) = (if c = CRTSum \<or> c = CFrtSum then None else Some (ctr c b))"
  by (cases c) (simp_all add: ps_ctr_def peer_summary_def Let_def)

lemma ps_Peer_summary [simp]: "ps_Peer (peer_summary b) = Peer b"
  by (simp add: peer_summary_def Let_def)

lemma peer_totals_props:
  shows "sorted_wrt (<) (map ps_Peer (peer_totals rows))"
    and "s \<in> set (peer_totals rows) \<longleftrightarrow>
      (\<exists>b. merged_from (\<lambda>b. bucket_add (new_bucket 0 (Peer b) []) b) Peer rows (ps_Peer s) = Some b \<and> s = peer_summary b)"
proof -
  let ?pp = "fold add_peer rows []"
  have ok: "peers_ok ?pp" by (rule peers.group_ok)
  then have wf: "wf_map ?pp" and key: "\<And>k b. map_of ?pp k = Some b \<Longrightarrow> Peer b = k"
    by (auto simp: peers_ok_def)
  have eq: "map (Peer \<circ> snd) ?pp = map fst ?pp"
    using wf key by (intro map_cong) (auto simp: wf_map_of_Some_iff)
  have "distinct (map (Peer \<circ> snd) ?pp)" unfolding eq using wf by (simp add: wf_map_def)
  moreover have "mset (map ps_Peer (peer_totals rows)) = mset (map (Peer \<circ> snd) ?pp)"
    by (simp add: peer_totals_def comp_def multiset.map_comp)
  ultimately have "distinct (map ps_Peer (peer_totals rows))" using mset_eq_imp_distinct_iff by blast
  then show "sorted_wrt (<) (map ps_Peer (peer_totals rows))"
    unfolding strict_sorted_iff by (simp add: peer_totals_def)
  have "s \<in> set (peer_totals rows) \<longleftrightarrow> (\<exists>k b. map_of ?pp k = Some b \<and> s = peer_summary b)"
    unfolding peer_totals_def wf_map_of_Some_iff [OF wf] by (auto simp: image_def Bex_def split_paired_Ex)
  also have "\<dots> \<longleftrightarrow> (\<exists>b. map_of ?pp (ps_Peer s) = Some b \<and> s = peer_summary b)"
    using key by (metis ps_Peer_summary)
  finally show "s \<in> set (peer_totals rows) \<longleftrightarrow>
      (\<exists>b. merged_from (\<lambda>b. bucket_add (new_bucket 0 (Peer b) []) b) Peer rows (ps_Peer s) = Some b \<and> s = peer_summary b)"
    by (simp add: peers.group_get)
qed

lemma peer_totals_sums:
  "sorted_wrt (<) (map ps_Peer (peer_totals rows)) \<and> ps_Peer ` set (peer_totals rows) = Peer ` set rows \<and>
   (\<forall>s \<in> set (peer_totals rows). \<forall>c. c \<noteq> CRTSum \<longrightarrow> c \<noteq> CFrtSum \<longrightarrow>
      ps_ctr c s = Some (\<Sum>b \<leftarrow> filter (\<lambda>b. Peer b = ps_Peer s) rows. ctr c b))"
proof (intro conjI ballI allI impI)
  show "sorted_wrt (<) (map ps_Peer (peer_totals rows))" by (rule peer_totals_props)
  have "k \<in> ps_Peer ` set (peer_totals rows) \<longleftrightarrow>
      merged_from (\<lambda>b. bucket_add (new_bucket 0 (Peer b) []) b) Peer rows k \<noteq> None" for k
  proof -
    let ?M = "merged_from (\<lambda>b. bucket_add (new_bucket 0 (Peer b) []) b) Peer rows"
    have key: "Peer b = k" if "?M k = Some b" for b
      using peers.group_ok [of rows] that by (simp add: peers_ok_def peers.group_get)
    have "peer_summary b \<in> set (peer_totals rows)" if "?M k = Some b" for b
      using that key [OF that] by (auto simp: peer_totals_props(2))
    moreover have "?M (ps_Peer s) \<noteq> None" if "s \<in> set (peer_totals rows)" for s
      using that by (auto simp: peer_totals_props(2))
    moreover have "ps_Peer (peer_summary b) = k" if "?M k = Some b" for b using key [OF that] by simp
    ultimately show ?thesis by (cases "?M k") (force, metis imageI option.distinct(1))
  qed
  then have "k \<in> ps_Peer ` set (peer_totals rows) \<longleftrightarrow> (\<exists>b \<in> set rows. Peer b = k)" for k
    unfolding merged_None by blast
  then show "ps_Peer ` set (peer_totals rows) = Peer ` set rows" by (intro set_eqI) (simp add: image_iff eq_commute)
  show "ps_ctr c s = Some (\<Sum>b \<leftarrow> filter (\<lambda>b. Peer b = ps_Peer s) rows. ctr c b)"
    if s: "s \<in> set (peer_totals rows)" and c: "c \<noteq> CRTSum" "c \<noteq> CFrtSum" for s c
  proof -
    obtain b where b: "merged_from (\<lambda>b. bucket_add (new_bucket 0 (Peer b) []) b) Peer rows (ps_Peer s) = Some b"
      "s = peer_summary b" using s unfolding peer_totals_props(2) by blast
    have "ctr c b = (\<Sum>b \<leftarrow> filter (\<lambda>b. Peer b = ps_Peer s) rows. ctr c b)"
      by (rule ctr_merged [OF b(1)]) simp
    then show ?thesis unfolding b(2) ps_ctr_summary using c by simp
  qed
qed





subsection \<open>The breakdown\<close>

lemma merged_rows:
  "b \<in> set (mergeBucketsByPeer rows) \<longleftrightarrow>
     merged_from (\<lambda>b. b\<lparr>Stream := []\<rparr>) merge_key rows (merge_key b) = Some b"
proof -
  let ?mg = "fold merge_step rows []"
  have ok: "merging_ok ?mg" by (rule merging.group_ok)
  then have wf: "wf_map ?mg" and key: "\<And>k b. map_of ?mg k = Some b \<Longrightarrow> merge_key b = k"
    by (auto simp: merging_ok_def)
  have "b \<in> set (mergeBucketsByPeer rows) \<longleftrightarrow> (\<exists>k. map_of ?mg k = Some b)"
    unfolding mergeBucketsByPeer_def wf_map_of_Some_iff [OF wf] by (auto simp: image_def Bex_def split_paired_Ex)
  also have "\<dots> \<longleftrightarrow> map_of ?mg (merge_key b) = Some b" using key by blast
  finally show ?thesis by (simp add: merging.group_get)
qed

lemma distinct_merge_keys: "distinct (map merge_key (mergeBucketsByPeer rows))"
proof -
  let ?mg = "fold merge_step rows []"
  have ok: "merging_ok ?mg" by (rule merging.group_ok)
  then have wf: "wf_map ?mg" and key: "\<And>k b. map_of ?mg k = Some b \<Longrightarrow> merge_key b = k"
    by (auto simp: merging_ok_def)
  have eq: "map (merge_key \<circ> snd) ?mg = map fst ?mg"
    using wf key by (intro map_cong) (auto simp: wf_map_of_Some_iff)
  have "distinct (map (merge_key \<circ> snd) ?mg)" unfolding eq using wf by (simp add: wf_map_def)
  then show ?thesis by (simp add: mergeBucketsByPeer_def)
qed

lemma merge_Stream: "b \<in> set (mergeBucketsByPeer rows) \<Longrightarrow> Stream b = []"
  using merging.group_ok [of rows] by (simp add: merged_rows merging_ok_def flip: merging.group_get)

text \<open>Property C20 (the breakdown).  Merging over the streams leaves exactly one row per minute and
  peer of the window, without a stream, whose counters are the sums over the streams.\<close>

theorem breakdown_merges:
  "distinct (map (\<lambda>b. (Minute b, Peer b)) (mergeBucketsByPeer rows)) \<and>
   (\<lambda>b. (Minute b, Peer b)) ` set (mergeBucketsByPeer rows) = (\<lambda>b. (Minute b, Peer b)) ` set rows \<and>
   (\<forall>b \<in> set (mergeBucketsByPeer rows). Stream b = [] \<and>
      (\<forall>c. ctr c b = (\<Sum>r \<leftarrow> filter (\<lambda>r. Minute r = Minute b \<and> Peer r = Peer b) rows. ctr c r)))"
proof (intro conjI ballI allI)
  let ?k = "\<lambda>b. (Minute b, Peer b)" and ?M = "merged_from (\<lambda>b. b\<lparr>Stream := []\<rparr>) merge_key rows"
  have kk: "?k b = ?k b' \<longleftrightarrow> merge_key b = merge_key b'" for b b' by (auto simp: merge_key_iff)
  show "distinct (map ?k (mergeBucketsByPeer rows))"
    using distinct_merge_keys [of rows] by (simp add: distinct_map inj_on_def merge_key_iff)
  have in_rows: "\<exists>r \<in> set rows. ?k r = ?k b" if "b \<in> set (mergeBucketsByPeer rows)" for b
    using that merged_None [of "\<lambda>b. b\<lparr>Stream := []\<rparr>" merge_key rows "merge_key b"]
    by (auto simp: merged_rows merge_key_iff)
  have in_merge: "\<exists>b \<in> set (mergeBucketsByPeer rows). ?k b = ?k r" if r: "r \<in> set rows" for r
  proof -
    obtain b where b: "?M (merge_key r) = Some b" using r merged_None [of _ merge_key rows "merge_key r"] by fastforce
    then have eq: "merge_key b = merge_key r"
      using merging.group_ok [of rows] by (simp add: merging_ok_def flip: merging.group_get)
    with b have "b \<in> set (mergeBucketsByPeer rows)" by (simp add: merged_rows)
    with eq show ?thesis by (auto simp: merge_key_iff)
  qed
  show "?k ` set (mergeBucketsByPeer rows) = ?k ` set rows"
    using in_rows in_merge by (auto simp: image_iff) metis+
  fix b assume b: "b \<in> set (mergeBucketsByPeer rows)"
  show "Stream b = []" by (rule merge_Stream [OF b])
  fix c
  show "ctr c b = (\<Sum>r \<leftarrow> filter (\<lambda>r. Minute r = Minute b \<and> Peer r = Peer b) rows. ctr c r)"
    using ctr_merged [of _ merge_key rows "merge_key b" b c] b by (simp add: merged_rows merge_key_iff)
qed

lemma single_key: "distinct (map f xs) \<Longrightarrow> f ` set xs = {v} \<Longrightarrow> \<exists>x. xs = [x] \<and> f x = v"
  by (cases xs; cases "tl xs") auto

text \<open>Two streams of one minute and peer.\<close>

abbreviation demo_rows :: "bucket list" where
  "demo_rows \<equiv> [demo_bucket 60, (demo_bucket 60)\<lparr>Stream := []\<rparr>]"

lemma demo_rows_simps: "Minute (demo_bucket m) = m" "Peer (demo_bucket m) = ''10.0.0.1''" "ctr CRequests (demo_bucket m) = 1"
  by (simp_all add: demo_bucket_def demo_sample_def ctr_bump del: ctr.simps)

theorem breakdown_merges_witness: "map (ctr CRequests) (mergeBucketsByPeer demo_rows) = [2]"
proof -
  have d: "distinct (map (\<lambda>b. (Minute b, Peer b)) (mergeBucketsByPeer demo_rows))"
    and i: "(\<lambda>b. (Minute b, Peer b)) ` set (mergeBucketsByPeer demo_rows) = (\<lambda>b. (Minute b, Peer b)) ` set demo_rows"
    and c: "\<And>b. b \<in> set (mergeBucketsByPeer demo_rows) \<Longrightarrow>
      ctr CRequests b = (\<Sum>r \<leftarrow> filter (\<lambda>r. Minute r = Minute b \<and> Peer r = Peer b) demo_rows. ctr CRequests r)"
    using breakdown_merges [of demo_rows] by blast+
  have "(\<lambda>b. (Minute b, Peer b)) ` set (mergeBucketsByPeer demo_rows) = {(60, ''10.0.0.1'')}"
    unfolding i by (simp add: demo_rows_simps)
  from single_key [OF d this] obtain b where b: "mergeBucketsByPeer demo_rows = [b]" "Minute b = 60" "Peer b = ''10.0.0.1''"
    by blast
  have "ctr CRequests b = 2" using c [of b] b by (simp add: demo_rows_simps del: ctr.simps)
  then show ?thesis by (simp add: b(1) del: ctr.simps)
qed

subsection \<open>Totals and breakdown agree\<close>

lemma sum_put:
  "map_of m k = Some e \<Longrightarrow> (\<Sum>x \<leftarrow> map snd (put k v m). f x) + f e = (\<Sum>x \<leftarrow> map snd m. f x) + (f v :: int64)"
  by (induction m) (auto simp: algebra_simps)

lemma sum_filter_if: "(\<Sum>x \<leftarrow> filter P xs. f x) = (\<Sum>x \<leftarrow> xs. if P x then f x else (0 :: int64))"
  by (induction xs) simp_all

lemma merge_sums:
  "(\<Sum>b \<leftarrow> filter (\<lambda>b. Peer b = p) (mergeBucketsByPeer rows). ctr c b) = (\<Sum>b \<leftarrow> filter (\<lambda>b. Peer b = p) rows. ctr c b)"
proof (induction rows rule: rev_induct)
  case (snoc b rows)
  let ?mg = "fold merge_step rows []" and ?f = "\<lambda>b. if Peer b = p then ctr c b else 0"
  have ok: "merging_ok ?mg" by (rule merging.group_ok)
  have "(\<Sum>x \<leftarrow> map snd (merge_step b ?mg). ?f x) = (\<Sum>x \<leftarrow> map snd ?mg. ?f x) + ?f b"
  proof (cases "map_of ?mg (merge_key b)")
    case None
    then show ?thesis by (simp add: merge_step_def)
  next
    case (Some e)
    then have "merge_key e = merge_key b" using ok by (simp add: merging_ok_def)
    then have "?f (bucket_add e b) = ?f e + ?f b" by (simp add: merge_key_iff)
    then show ?thesis using sum_put [OF Some, of ?f "bucket_add e b"] by (simp add: merge_step_def Some)
  qed
  then show ?case using snoc by (simp add: mergeBucketsByPeer_def sum_filter_if)
qed (simp add: mergeBucketsByPeer_def)

lemma sum_mset_mset_cong:
  "mset xs = mset ys \<Longrightarrow> (\<Sum>x \<leftarrow> filter P xs. f x) = (\<Sum>x \<leftarrow> filter P ys. (f x :: int64))"
proof -
  have "(\<Sum>x \<leftarrow> filter P zs. f x) = (\<Sum>x\<in>#filter_mset P (mset zs). f x)" for zs by (induction zs) simp_all
  then show "mset xs = mset ys \<Longrightarrow> (\<Sum>x \<leftarrow> filter P xs. f x) = (\<Sum>x \<leftarrow> filter P ys. f x)" by simp
qed

text \<open>Fact (the breakdown adds up).  In any answer with a breakdown, filtered by stream or
  not, the rows are sorted by minute and peer, and for every peer and every counter shown the
  rows of the peer add up to its total.\<close>

theorem breakdown_adds_up:
  assumes "summaryHandler token r now a = OK sm" and "sm_buckets sm = Some bks"
    and "s \<in> set (sm_peers sm)" and "c \<noteq> CRTSum" and "c \<noteq> CFrtSum"
  shows "sorted (map (\<lambda>b. (Minute b, Peer b)) bks) \<and>
    ps_ctr c s = Some (\<Sum>b \<leftarrow> filter (\<lambda>b. Peer b = ps_Peer s) bks. ctr c b)"
proof -
  obtain rows out where sm: "sm_peers sm = peer_totals rows" "bks = sort_key (\<lambda>b. (Minute b, Peer b)) out"
    "out = rows \<or> out = mergeBucketsByPeer rows"
    using assms(1,2) by (auto simp: summaryHandler_def Let_def split: if_splits)
  let ?P = "\<lambda>b. Peer b = ps_Peer s"
  have "mset bks = mset out" by (simp add: sm(2))
  then have "(\<Sum>b \<leftarrow> filter ?P bks. ctr c b) = (\<Sum>b \<leftarrow> filter ?P out. ctr c b)"
    using sum_mset_mset_cong [of bks out "ctr c" ?P] by simp
  also have "\<dots> = (\<Sum>b \<leftarrow> filter ?P rows. ctr c b)" using sm(3) merge_sums by auto
  finally show ?thesis
    using peer_totals_sums [of rows] assms(3-5) by (simp add: sm(1,2))
qed

theorem breakdown_adds_up_witness:
  "\<exists>sm bks s. summaryHandler [] \<lparr>authorization = [], query = (\<lambda>k. if k = ''breakdown'' then ''true'' else [])\<rparr> 60
       (ingest (demo_sample 60) (newAggregator 5)) = OK sm
     \<and> sm_buckets sm = Some bks \<and> s \<in> set (sm_peers sm)
     \<and> ps_ctr CTotal s = Some (\<Sum>b \<leftarrow> filter (\<lambda>b. Peer b = ps_Peer s) bks. ctr CTotal b)"
proof -
  let ?r = "\<lparr>authorization = [], query = (\<lambda>k. if k = ''breakdown'' then ''true'' else [])\<rparr>"
  let ?a = "ingest (demo_sample 60) (newAggregator 5)"
  have "summary_cutoff 60 (summary_minutes 5 []) = - 240"
    by (simp add: summary_cutoff_def summary_minutes_def atoi_def parseInt_def minuteOf_def signed_take_bit_int_eq_self)
  then have rows: "summary_rows (summary_cutoff 60 (summary_minutes 5 [])) ?a = [demo_bucket 60]"
    by (simp add: summary_rows_def ingest_def select_bucket_def newAggregator_def demo_sample_def alloc_def demo_bucket_def)
  have keep: "archiveKeepMin ?a = 5"
    by (simp add: ingest_def select_bucket_def newAggregator_def demo_sample_def alloc_def)
  obtain sm bks where sm: "summaryHandler [] ?r 60 ?a = OK sm" "sm_buckets sm = Some bks"
    and peers: "sm_peers sm = peer_totals [demo_bucket 60]"
    by (simp add: summaryHandler_def authOK_def Let_def stream_filter_def keep rows)
  have "ps_Peer ` set (sm_peers sm) \<noteq> {}" using peer_totals_sums [of "[demo_bucket 60]"] by (simp add: peers)
  then obtain s where s: "s \<in> set (sm_peers sm)" by (cases "sm_peers sm") auto
  from breakdown_adds_up [OF sm s, of CTotal] sm s show ?thesis by blast
qed

end
