(* ===== verification/Retention_Facts.thy ===== *)
theory Retention_Facts
  imports Retention
begin

text \<open>
  What retention guarantees: which files it may delete at all, the order, that the disk step
  deletes no more than it must and nothing when that would not help, and that a complete
  batch brings the disk below the limit.
\<close>

text \<open>Fact (what retention may delete).  The candidates are exactly the regular files that
  are a dated archive, a dated compressed log whose source is gone, a dated parquet whose
  jsonl is gone, or a dated details jsonl that will not be converted any more; never a
  directory, a temporary archive, today's details, or anything without a date name.\<close>

theorem candidates_exactly:
  "c \<in> set (pruneCandidates sizeOf duckDB today cutoff st) \<longleftrightarrow>
     isDateName (c_date c) \<and>
     (\<exists>x. c_size c = sizeOf x \<and>
       (if c_details c
        then (c_name c, File x) \<in> set (ddir st) \<and> c_date c \<noteq> today \<and>
          (c_name c = c_date c @ ''.parquet'' \<and> \<not> exists_in (ddir st) (c_date c @ ''.jsonl'')
           \<or> c_name c = c_date c @ ''.jsonl'' \<and> (duckDB \<longrightarrow> c_date c < cutoff))
        else (c_name c, File x) \<in> set (root st) \<and>
          (c_name c = c_date c @ ''.tar.gz''
           \<or> c_name c = c_date c @ ''.jsonl.gz'' \<and> \<not> exists_in (root st) (c_date c @ ''.jsonl''))))"
proof (cases "c_details c")
  case True
  then show ?thesis
    unfolding pruneCandidates_def set_append byDate_set set_map_filter
    by (auto simp: archive_candidate_iff details_candidate_iff)
next
  case False
  then show ?thesis
    unfolding pruneCandidates_def set_append byDate_set set_map_filter
    by (auto simp: archive_candidate_iff details_candidate_iff)
qed

theorem candidates_exactly_witness:
  "map c_name (pruneCandidates (\<lambda>_. 5) True ''2026-05-04'' ''2025-05-04''
     \<lparr>root = [(''2026-05-03'', Dir []), (''2026-05-02.tar.gz'', File (TarGz [])), (''2026-05-01.tar.gz.tmp-1'', File Damaged)],
      ddir = [(''2026-05-04.jsonl'', File (Plain []))]\<rparr>) = [''2026-05-02.tar.gz'']"
proof -
  let ?st = "\<lparr>root = [(''2026-05-03'', Dir []), (''2026-05-02.tar.gz'', File (TarGz [])), (''2026-05-01.tar.gz.tmp-1'', File Damaged)],
      ddir = [(''2026-05-04.jsonl'', File (Plain []))]\<rparr>"
  let ?c = "\<lparr>c_date = ''2026-05-02'', c_name = ''2026-05-02.tar.gz'', c_size = 5, c_details = False\<rparr>"
  have "isDateName ''2026-05-02''" by (simp add: isDateName_def is_digit_def upt_rec numeral_eq_Suc)
  then have "?c \<in> set (pruneCandidates (\<lambda>_. 5) True ''2026-05-04'' ''2025-05-04'' ?st)"
    by (subst candidates_exactly) auto
  moreover have "length (pruneCandidates (\<lambda>_. 5) True ''2026-05-04'' ''2025-05-04'' ?st) \<le> 1"
    by (simp add: pruneCandidates_def byDate_def map_filter_def archive_candidate_def archive_date_def
        details_candidate_def details_date_def hasSuffix_def trimSuffix_def Let_def)
  ultimately show ?thesis by (cases "pruneCandidates (\<lambda>_. 5) True ''2026-05-04'' ''2025-05-04'' ?st") auto
qed

subsection \<open>Order\<close>



lemma age_loop_left: "age_loop rm old cs = (aged, freed, left) \<Longrightarrow> left = filter (\<lambda>c. \<not> old c) cs \<and> aged = filter (\<lambda>c. old c \<and> rm c) cs"
  by (induction cs arbitrary: aged freed left) (auto split: prod.splits if_splits)

text \<open>The disk loop removes from a prefix of its list, skipping what cannot be removed.\<close>

lemma disk_loop_prefix: "\<exists>k. disk_loop rm need freed cs = filter rm (take k cs)"
proof (induction cs arbitrary: freed)
  case (Cons c cs)
  show ?case
  proof (cases "freed \<ge> need")
    case True
    then show ?thesis by (intro exI [of _ 0]) simp
  next
    case False
    obtain k where "disk_loop rm need (if rm c then freed + c_size c else freed) cs = filter rm (take k cs)"
      using Cons.IH by blast
    then show ?thesis using False by (intro exI [of _ "Suc k"]) auto
  qed
qed simp

lemma disk_step_cases:
  assumes "disk_step conf rm stat now now' ageFreed left ps = (batch, ps')"
  shows "batch = [] \<or> (\<exists>used0 tot. stat = Some (used0, tot) \<and> 0 < diskUsagePct conf
    \<and> disk_limit tot (diskUsagePct conf) \<le> effective_used ageFreed used0 \<and> diskCooldown \<le> now - lastDiskBatch ps
    \<and> effective_used ageFreed used0 - disk_limit tot (diskUsagePct conf) + 1 \<le> sum_sizes left
    \<and> batch = disk_loop rm (effective_used ageFreed used0 - disk_limit tot (diskUsagePct conf) + 1) 0 left)"
proof (cases stat)
  case (Some ut)
  obtain used0 tot where ut: "ut = (used0, tot)" by fastforce
  show ?thesis
    using assms unfolding Some ut disk_step_def Let_def option.case prod.case by (simp add: not_less not_le split: if_splits)
qed (use assms in \<open>simp add: disk_step_def split: if_splits\<close>)


definition demo_cand :: "string \<Rightarrow> int64 \<Rightarrow> pruneCandidate" where
  "demo_cand d n = \<lparr>c_date = d, c_name = d @ ''.tar.gz'', c_size = n, c_details = False\<rparr>"

definition demo_conf :: prune_conf where
  "demo_conf = \<lparr>keepDays = 90, detailsKeepDays = 365, diskUsagePct = 90, hasDuckDB = True\<rparr>"






subsection \<open>The disk step\<close>

definition bytes_of :: "pruneCandidate list \<Rightarrow> nat" where
  "bytes_of cs = (\<Sum>c \<leftarrow> cs. unat (c_size c))"

lemma bytes_of_simps [simp]: "bytes_of [] = 0" "bytes_of (c # cs) = unat (c_size c) + bytes_of cs"
  "bytes_of (cs @ ds) = bytes_of cs + bytes_of ds"
  by (simp_all add: bytes_of_def)

lemma unat_sum_sizes: "bytes_of cs < 2 ^ 64 \<Longrightarrow> unat (sum_sizes cs) = bytes_of cs"
proof (induction cs)
  case (Cons c cs)
  then have "unat (sum_sizes cs) = bytes_of cs" by simp
  with Cons.prems show ?case by (simp add: sum_sizes_def unat_word_ariths)
qed (simp add: sum_sizes_def)


lemma need_bytes:
  fixes used limit :: uint64
  assumes "limit \<le> used"
  shows "unat used - unat limit < 2 ^ 64 - 1 \<Longrightarrow> unat (used - limit + 1) = unat used - unat limit + 1"
  using assms by (simp add: unat_word_ariths unat_sub)



text \<open>Fact (nothing in vain).  The disk step deletes nothing when the disk is below the
  limit, within ten minutes of the last batch, when the disk usage cannot be read or is not
  limited, or when even all candidates together would not bring it below the limit.\<close>

theorem nothing_in_vain:
  assumes "diskUsagePct conf \<le> 0 \<or> stat = None \<or> now - lastDiskBatch ps < diskCooldown
    \<or> (\<exists>used0 tot. stat = Some (used0, tot) \<and>
        (effective_used ageFreed used0 < disk_limit tot (diskUsagePct conf)
         \<or> bytes_of left < 2 ^ 64 \<and> 0 < disk_limit tot (diskUsagePct conf) \<and>
           unat (disk_limit tot (diskUsagePct conf)) \<le> unat (effective_used ageFreed used0) - bytes_of left))"
  shows "fst (disk_step conf rm stat now now' ageFreed left ps) = []"
proof (rule ccontr)
  obtain batch ps' where s: "disk_step conf rm stat now now' ageFreed left ps = (batch, ps')" by fastforce
  assume "fst (disk_step conf rm stat now now' ageFreed left ps) \<noteq> []"
  then have ne: "batch \<noteq> []" by (simp add: s)
  then obtain used0 tot where c: "stat = Some (used0, tot)" "0 < diskUsagePct conf"
    "disk_limit tot (diskUsagePct conf) \<le> effective_used ageFreed used0" "diskCooldown \<le> now - lastDiskBatch ps"
    "effective_used ageFreed used0 - disk_limit tot (diskUsagePct conf) + 1 \<le> sum_sizes left"
    using disk_step_cases [OF s] by auto
  let ?used = "effective_used ageFreed used0" and ?limit = "disk_limit tot (diskUsagePct conf)"
  have b: "bytes_of left < 2 ^ 64" "0 < ?limit" "unat ?limit \<le> unat ?used - bytes_of left"
    using assms c(1-4) by auto
  have "unat ?used < 2 ^ 64" by (rule order_less_le_trans [OF unsigned_less]) simp
  moreover have "0 < unat ?limit" using b(2) by (simp add: word_less_nat_alt)
  ultimately have "unat (?used - ?limit + 1) = unat ?used - unat ?limit + 1"
    by (intro need_bytes [OF c(3)]) simp
  then show False
    using c(5) b(3) \<open>0 < unat ?limit\<close> unat_sum_sizes [OF b(1)] by (simp add: word_le_nat_alt)
qed

theorem nothing_in_vain_witness:
  "fst (disk_step demo_conf (\<lambda>_. True) (Some (99, 100)) diskCooldown 0 0 [demo_cand ''a'' 4] \<lparr>lastDiskBatch = 0, lastDiskWarn = 0\<rparr>) = []"
  by (rule nothing_in_vain) (simp add: demo_conf_def demo_cand_def effective_used_def disk_limit_def)

text \<open>Property C35 (the limit does not overflow).  For file systems of up to 2^64 / 100 bytes (184 PB)
  and a threshold of at most 100 percent, the limit is the exact percentage rounded down and
  never more than the size of the disk.\<close>

theorem disk_limit_exact:
  assumes "unat tot * 100 < 2 ^ 64" and "0 \<le> p" and "p \<le> 100"
  shows "unat (disk_limit tot p) = unat tot * nat p div 100 \<and> unat (disk_limit tot p) \<le> unat tot"
proof -
  obtain n where n: "p = int n" "n \<le> 100" using assms(2,3) by (metis nat_le_iff nonneg_int_cases of_nat_numeral of_nat_le_iff)
  have p: "unat (word_of_int p :: uint64) = nat p" using n(2) by (simp add: n(1) unsigned_of_nat take_bit_nat_eq_self)
  have "unat tot * nat p \<le> unat tot * 100" using n by (intro mult_le_mono2) simp
  then have lt: "unat tot * nat p < 2 ^ 64" using assms(1) by linarith
  have "unat (tot * word_of_int p) = unat tot * nat p" using lt by (simp add: unat_word_ariths p)
  then have "unat (disk_limit tot p) = unat tot * nat p div 100" by (simp add: disk_limit_def unat_div)
  moreover have "unat tot * nat p div 100 \<le> unat tot" using \<open>unat tot * nat p \<le> unat tot * 100\<close> by linarith
  ultimately show ?thesis by simp
qed

theorem disk_limit_exact_witness: "unat (disk_limit 1000 90) = 900"
  using disk_limit_exact [of 1000 90] by simp

lemma batch_subset:
  assumes "disk_step conf rm stat now now' freed left ps = (batch, ps')"
  shows "set batch \<subseteq> set (filter rm left)"
proof
  fix c assume c: "c \<in> set batch"
  then obtain k where "batch = filter rm (take k left)"
    using disk_step_cases [OF assms] disk_loop_prefix [of rm _ 0 left] by (cases "batch = []") (simp, metis)
  then show "c \<in> set (filter rm left)" using c by (auto dest: in_set_takeD)
qed

text \<open>Fact (age).  Among the files one pass deletes, those past their retention are all the
  expired candidates that can be deleted, in order; the others come from the disk step; and
  every deletion is of a candidate.\<close>

theorem age_step_exact:
  "let removed = fst (prune conf sizeOf rm stat t now now' (st, ps));
       old = expired (dateMinus t (keepDays conf)) (dateMinus t (detailsKeepDays conf));
       cands = pruneCandidates sizeOf (hasDuckDB conf) (formatDate t) (dateMinus t (detailsKeepDays conf)) st
   in filter old removed = filter (\<lambda>c. old c \<and> rm c) cands \<and> set removed \<subseteq> set (filter rm cands)"
proof -
  define old where "old = expired (dateMinus t (keepDays conf)) (dateMinus t (detailsKeepDays conf))"
  define cands where "cands = pruneCandidates sizeOf (hasDuckDB conf) (formatDate t) (dateMinus t (detailsKeepDays conf)) st"
  obtain aged freed left where a: "age_loop rm old cands = (aged, freed, left)" by (rule prod_cases3)
  obtain batch ps2 where d: "disk_step conf rm stat now now' freed left ps = (batch, ps2)" by fastforce
  have r: "fst (prune conf sizeOf rm stat t now now' (st, ps)) = aged @ batch"
    using a d by (simp add: prune_def Let_def flip: old_def cands_def)
  note al = age_loop_left [OF a]
  have "set batch \<subseteq> set (filter rm left)" by (rule batch_subset [OF d])
  moreover from this have "filter old batch = []" using al by (auto simp: filter_empty_conv)
  moreover have aged: "aged = filter (\<lambda>c. old c \<and> rm c) cands" and "filter old aged = aged"
    using al by (simp, metis (mono_tags, lifting) filter_True mem_Collect_eq set_filter)
  ultimately have "filter old (aged @ batch) = filter (\<lambda>c. old c \<and> rm c) cands"
      "set (aged @ batch) \<subseteq> set (filter rm cands)"
    using al by (simp, auto)
  then show ?thesis unfolding Let_def r old_def [symmetric] cands_def [symmetric] by blast
qed

end
