(* ===== verification/Metrics_Facts.thy ===== *)
theory Metrics_Facts
  imports Metrics_Api Float_Facts "HOL-Library.Product_Lexorder"
begin

text \<open>
  What \<open>/metrics\<close> promises: the files it reads cover the window, following the cursors gives every
  row exactly once, and where it does not keep its word.
\<close>

subsection \<open>What the query means\<close>






subsection \<open>One page\<close>

lemma scan_rows_all: "length out \<le> limit \<Longrightarrow> scan_rows limit out (map Inr rs) =
    Inr (out @ take (limit - length out) rs, limit < length out + length rs)"
proof (induction rs arbitrary: out)
  case (Cons r rs)
  show ?case
  proof (cases "limit \<le> length out")
    case False
    then have "limit - length out = Suc (limit - Suc (length out))" by simp
    then show ?thesis using False Cons.IH [of "out @ [r]"] by simp
  qed (use Cons.prems in simp)
qed simp



subsection \<open>Following the cursors\<close>





























lemma demo_civil: "civil_of_days 0 = (1970, 1, 1)" "civil_of_days 1 = (1970, 1, 2)" "civil_of_days 2 = (1970, 1, 3)" "civil_of_days 3 = (1970, 1, 4)"
  by code_simp+

lemma demo_nats: "formatNat 1970 = ''1970''" "formatNat 1 = ''1''" "formatNat 2 = ''2''" "formatNat 3 = ''3''" "formatNat 4 = ''4''" "formatNat 0 = ''0''"
  by (simp_all add: formatNat.simps digit_char_def digit_chars)

lemma demo_pads: "padNat 2 0 = ''00''" "padNat 2 (Suc 0) = ''01''" "padNat 2 2 = ''02''" "padNat 2 3 = ''03''" "padNat 2 4 = ''04''" "appendInt 1970 4 = ''1970''"
  using demo_nats by (simp_all add: padNat_def appendInt_def Let_def)


lemma demo_names: "day_parquet 0 = ''1970-01-01.parquet''" "day_parquet 1 = ''1970-01-02.parquet''"
   "day_parquet 2 = ''1970-01-03.parquet''" "day_parquet 3 = ''1970-01-04.parquet''"
  "day_jsonl 0 = ''1970-01-01.jsonl''" "day_jsonl 1 = ''1970-01-02.jsonl''"
   "day_jsonl 2 = ''1970-01-03.jsonl''" "day_jsonl 3 = ''1970-01-04.jsonl''"
  by (simp_all add: day_parquet_def day_jsonl_def formatDay_eval [OF demo_civil(1)] formatDay_eval [OF demo_civil(2)]
      formatDay_eval [OF demo_civil(3)] formatDay_eval [OF demo_civil(4)] demo_pads)







subsection \<open>Files\<close>

text \<open>Property C36 (no late row is missed).  A row that ended in the window and was written at most a
  day later is in a file that is read, as parquet when the day was converted, else as jsonl.\<close>

theorem late_rows_are_covered:
  assumes "ns lo \<le> ns e" and "ns e \<le> ns end" and "ns e \<le> ns w" and "ns w \<le> ns e + 86400 * 1000000000"
    and "exists_in (ddir st) (day_parquet (localDay tz w)) \<or> exists_in (ddir st) (day_jsonl (localDay tz w))"
  shows "case metrics_files st (metrics_days tz lo end) of (ps, js) \<Rightarrow>
    if exists_in (ddir st) (day_parquet (localDay tz w)) then day_parquet (localDay tz w) \<in> set ps
    else day_jsonl (localDay tz w) \<in> set js"
proof -
  have mono: "localDay tz a \<le> localDay tz b" if "ns a \<le> ns b" for a b
    unfolding localDay_def unixSec_def using that by (intro zdiv_mono1 add_right_mono) simp_all
  have "ns w \<le> ns (addDur end (86400 * 1000000000))" using assms(2,4) by (simp add: addDur_def)
  then have "localDay tz w \<le> localDay tz (addDur end (86400 * 1000000000))" by (rule mono)
  also have "\<dots> = localDay tz end + 1" by (simp add: localDay_def unixSec_def addDur_def)
  finally have "localDay tz w \<in> set (metrics_days tz lo end)"
    using mono [of lo w] assms(1,3) by (simp add: metrics_days_def)
  then show ?thesis using assms(5) by (auto simp: metrics_files_def)
qed

theorem late_rows_are_covered_witness:
  "''1970-01-03.jsonl'' \<in> set (snd (metrics_files \<lparr>root = [], ddir = [(''1970-01-03.jsonl'', File (Plain []))]\<rparr>
     (metrics_days 0 \<lparr>ns = 0, zone = 0\<rparr> \<lparr>ns = 172700000000000, zone = 0\<rparr>)))"
proof -
  let ?st = "\<lparr>root = [], ddir = [(''1970-01-03.jsonl'', File (Plain []))]\<rparr>"
  have "localDay 0 \<lparr>ns = 172900000000000, zone = 0\<rparr> = 2" by (simp add: localDay_def unixSec_def)
  then show ?thesis
    using late_rows_are_covered [of "\<lparr>ns = 0, zone = 0\<rparr>" "\<lparr>ns = 172700000000000, zone = 0\<rparr>" "\<lparr>ns = 172700000000000, zone = 0\<rparr>"
        "\<lparr>ns = 172900000000000, zone = 0\<rparr>" ?st 0]
    by (simp add: demo_names exists_in_def split: prod.splits)
qed

subsection \<open>Where the page is not what it says\<close>

text \<open>A query that fails after some rows: the reply is a complete page of those rows.\<close>

theorem failed_query_looks_complete:
  assumes "engine q = Rowset (map Inr rows) True" and "length rows \<le> mq_limit q"
  shows "run_metrics tz engine q = Page \<lparr>mp_rows = rows, mp_truncated = False, mp_from = None, mp_to = None, mp_next = None\<rparr>"
  using assms scan_rows_all [of "[]" "mq_limit q" rows] by (simp add: run_metrics_def metrics_page_of_def)

text \<open>The end of an old row (no \<open>ts_end\<close>) that took 1.001 seconds: its cursor lies a nanosecond
  before the microsecond SQL computes, so the row is after its own cursor.\<close>

theorem old_row_cursor_early:
  assumes "parseTimeParam tz s = Some t" and "s \<noteq> []"
  shows "rowEndTs tz [(''ts'', CStr s), (''rt'', CFlt (fl (1001 / 1000)) ''1.001'')] = formatNano (addDur t 1000999999)"
proof -
  have "fl (1001 / 1000) \<noteq> 0" by (simp add: fl_1001)
  then show ?thesis using assms by (simp add: rowEndTs_def column_def tsString_def duration_1001)
qed

end
