(* ===== verification/Exporter_Metrics.thy ===== *)
theory Exporter_Metrics
  imports Go_Layouts Go_Float
begin

text \<open>
  The exporter's metrics (\<open>bodylog-exporter-go/metrics.go\<close>): what one detail line does to the
  Prometheus registry.  The client library is third-party: the model is the sequence of calls
  on it.  Labels are in the order the vectors declare them.
\<close>

record xdetail =
  x_Ts :: string
  x_TsEnd :: string
  x_RequestID :: string
  x_Stream :: "bool option"
  x_Status :: int64
  x_Backend :: string
  x_Model :: string
  x_FinishReason :: string
  x_Frt :: float64
  x_Lct :: float64
  x_Rt :: float64
  x_ReqBytes :: int64
  x_RespBytes :: int64
  x_PromptTokens :: int64
  x_CompletionTokens :: int64
  x_CachedTokens :: int64
  x_TotalTokens :: int64
  x_ReasoningTokens :: int64

text \<open>\<open>WithLabelValues(ls...).Add(v)\<close> on a counter, \<open>Observe(v)\<close> on a histogram, \<open>Set(v)\<close> on a
  gauge.\<close>

datatype metric_op = Count string "string list" float64 | Observe string "string list" float64 | Gauge string "string list" float64

definition statusClass :: "int64 \<Rightarrow> string" where
  "statusClass s =
    (if 200 \<le> sint s \<and> sint s < 300 then ''2xx''
     else if 400 \<le> sint s \<and> sint s < 500 then ''4xx''
     else if 500 \<le> sint s \<and> sint s < 600 then ''5xx''
     else ''other'')"

definition streamLabel :: "bool option \<Rightarrow> string" where
  "streamLabel b = (case b of None \<Rightarrow> ''unknown'' | Some True \<Rightarrow> ''true'' | Some False \<Rightarrow> ''false'')"

definition orDefault :: "string \<Rightarrow> string \<Rightarrow> string" where
  "orDefault s dflt = (if s = [] then dflt else s)"

text \<open>\<open>backendIP\<close> (\<open>route_endpoints.go\<close>): the address without port and retry suffix.\<close>

definition backendIP :: "string \<Rightarrow> string" where
  "backendIP backend =
    (let s0 = trimSpace backend;
         s1 = (case indexByte s0 CHR '' '' of Some i \<Rightarrow> take i s0 | None \<Rightarrow> s0)
     in (case lastIndexByte s1 CHR '':'' of Some i \<Rightarrow> take i s1 | None \<Rightarrow> s1))"

subsection \<open>Prompt buckets\<close>

definition promptBucketBounds :: "int list" where
  "promptBucketBounds = [1, 2, 3, 4, 6, 8, 10, 12, 16, 20, 24, 32, 40, 48, 64,
     80, 96, 128, 160, 192, 256, 384, 512, 768, 1024]"

fun bucket_labels :: "int \<Rightarrow> int list \<Rightarrow> string list" where
  "bucket_labels lo [] = [padNat 4 (nat lo) @ ''k_inf'']"
| "bucket_labels lo (hi # his) = (padNat 4 (nat lo) @ ''k_'' @ padNat 4 (nat hi) @ ''k'') # bucket_labels hi his"

definition promptBucketLabels :: "string list" where
  "promptBucketLabels = bucket_labels 0 promptBucketBounds"

text \<open>The first bound above \<open>k\<close>, or the number of bounds.\<close>

fun first_above :: "int \<Rightarrow> int list \<Rightarrow> nat" where
  "first_above k [] = 0"
| "first_above k (hi # his) = (if k < hi then 0 else Suc (first_above k his))"

definition promptBucket :: "int64 \<Rightarrow> string" where
  "promptBucket tok =
    (if sint tok \<le> 0 then ''unknown''
     else promptBucketLabels ! first_above (sint tok div 1024) promptBucketBounds)"

subsection \<open>Timestamps\<close>

text \<open>The layouts in order; the first three accept the same texts.  \<open>UnixNano\<close> wraps.\<close>

definition parseTsSeconds :: "string list \<Rightarrow> float64" where
  "parseTsSeconds cs =
    (case List.map_filter (\<lambda>s. if s = [] then None
        else (case parseLayout CHR ''T'' zoneRFC3339 s of Some t \<Rightarrow> Some t
              | None \<Rightarrow> parseLayout CHR '' '' getzone s)) cs of
       t # _ \<Rightarrow> fdiv (i2f (word_of_int (ns t))) 1000000000
     | [] \<Rightarrow> 0)"

subsection \<open>observe\<close>

definition resolve :: "(string \<Rightarrow> (string \<times> string) option) option \<Rightarrow> string \<Rightarrow> string \<times> string" where
  "resolve resolver backend = (case resolver of
      None \<Rightarrow> (''unknown'', ''unknown'')
    | Some lookup \<Rightarrow>
        (case lookup (backendIP backend) of
           Some (rt, svc) \<Rightarrow> (if rt \<noteq> [] then rt else ''unknown'', if svc \<noteq> [] then svc else ''unknown'')
         | None \<Rightarrow> (''unknown'', ''unknown'')))"

definition count_pos :: "string \<Rightarrow> string list \<Rightarrow> int64 \<Rightarrow> metric_op list" where
  "count_pos name ls n = (if sint n > 0 then [Count name ls (i2f n)] else [])"

definition finish_ops :: "string list \<Rightarrow> xdetail \<Rightarrow> metric_op list" where
  "finish_ops ls d =
    (if x_FinishReason d \<noteq> [] then [Count ''bodylog_finish_reason_total'' (ls @ [x_FinishReason d]) 1]
     else if x_Status d = 200 then [Count ''bodylog_finish_reason_total'' (ls @ [''none'']) 1]
     else [])"

definition rate_ops :: "string list \<Rightarrow> xdetail \<Rightarrow> metric_op list" where
  "rate_ops ls d =
    (let compl = x_CompletionTokens d; decodeSeconds = fsub (x_Lct d) (x_Frt d) in
     (if sint compl \<ge> 16 \<and> x_Rt d \<ge> 1 / 2
      then [Observe ''bodylog_output_tok_per_second'' (ls @ [promptBucket (x_PromptTokens d)]) (fdiv (i2f compl) (x_Rt d))] else []) @
     (if statusClass (x_Status d) = ''2xx'' \<and> sint compl > 0 then
        (if x_Rt d > 0 then [Observe ''bodylog_overall_output_tok_per_second'' ls (fdiv (i2f compl) (x_Rt d))] else []) @
        (if decodeSeconds > fl (3 / 10) then [Observe ''bodylog_decode_output_tok_per_second'' ls (fdiv (i2f compl) decodeSeconds)] else [])
      else []))"

definition observe :: "(string \<Rightarrow> (string \<times> string) option) option \<Rightarrow> xdetail \<Rightarrow> metric_op list" where
  "observe resolver d =
    (let backend = orDefault (x_Backend d) ''(none)''; model = orDefault (x_Model d) ''unknown'';
         (route, service) = resolve resolver (x_Backend d);
         sc = statusClass (x_Status d); sl = streamLabel (x_Stream d);
         ls = [service, route, backend, model] in
     [Count ''bodylog_requests_total'' (ls @ [sc, sl]) 1] @
     count_pos ''bodylog_prompt_tokens_total'' ls (x_PromptTokens d) @
     count_pos ''bodylog_completion_tokens_total'' ls (x_CompletionTokens d) @
     count_pos ''bodylog_cached_tokens_total'' ls (x_CachedTokens d) @
     count_pos ''bodylog_reasoning_tokens_total'' ls (x_ReasoningTokens d) @
     count_pos ''bodylog_total_tokens_total'' ls (x_TotalTokens d) @
     count_pos ''bodylog_req_bytes_total'' ls (x_ReqBytes d) @
     count_pos ''bodylog_resp_bytes_total'' ls (x_RespBytes d) @
     finish_ops ls d @
     (if x_Rt d > 0 then [Observe ''bodylog_rt_seconds'' (ls @ [sl]) (x_Rt d)] else []) @
     (if x_Frt d > 0 \<and> x_Stream d = Some True
      then [Observe ''bodylog_ttft_seconds'' (ls @ [promptBucket (x_PromptTokens d)]) (x_Frt d)] else []) @
     rate_ops ls d @
     [Count ''bodylog_exporter_lines_total'' [] 1] @
     (let ts = parseTsSeconds [x_TsEnd d, x_Ts d] in
      if ts > 0 then [Gauge ''bodylog_exporter_last_ts_seconds'' [] ts] else []))"

subsection \<open>Buckets\<close>

lemma first_above_le: "first_above k bs \<le> length bs"
  by (induction bs) auto

lemma first_above_mono: "k \<le> k' \<Longrightarrow> first_above k bs \<le> first_above k' bs"
  by (induction bs) auto

lemma first_above_bounds:
  "sorted bs \<Longrightarrow> (\<forall>i < first_above k bs. bs ! i \<le> k) \<and> (first_above k bs < length bs \<longrightarrow> k < bs ! first_above k bs)"
proof (induction bs)
  case (Cons b bs)
  then show ?case by (auto simp: less_Suc_eq_0_disj)
qed simp

lemma labels_eq: "promptBucketLabels =
  [''0000k_0001k'', ''0001k_0002k'', ''0002k_0003k'', ''0003k_0004k'', ''0004k_0006k'', ''0006k_0008k'', ''0008k_0010k'',
   ''0010k_0012k'', ''0012k_0016k'', ''0016k_0020k'', ''0020k_0024k'', ''0024k_0032k'', ''0032k_0040k'', ''0040k_0048k'',
   ''0048k_0064k'', ''0064k_0080k'', ''0080k_0096k'', ''0096k_0128k'', ''0128k_0160k'', ''0160k_0192k'', ''0192k_0256k'',
   ''0256k_0384k'', ''0384k_0512k'', ''0512k_0768k'', ''0768k_1024k'', ''1024k_inf'']"
  by code_simp

lemma labels_sorted: "sorted_wrt (<) promptBucketLabels"
  unfolding labels_eq by code_simp

text \<open>Fact (prompt buckets).  Sorting the labels as text is sorting the prompts: for positive
  token counts the bucket of the larger is the same or a later string, the same exactly when
  no bound separates them, and every positive count sorts before \<open>unknown\<close>.\<close>

theorem prompt_buckets_ordered:
  assumes "0 < sint t" and "sint t \<le> sint u"
  shows "promptBucket t \<le> promptBucket u \<and> promptBucket u < ''unknown''
    \<and> (promptBucket t = promptBucket u \<longleftrightarrow> \<not> (\<exists>b \<in> set promptBucketBounds. sint t div 1024 < b \<and> b \<le> sint u div 1024))"
proof -
  let ?i = "first_above (sint t div 1024) promptBucketBounds" and ?j = "first_above (sint u div 1024) promptBucketBounds"
  have len: "length promptBucketLabels = Suc (length promptBucketBounds)" by (simp add: labels_eq promptBucketBounds_def)
  have ij: "?i \<le> ?j" using assms(2) by (intro first_above_mono zdiv_mono1) simp_all
  have j: "?j < length promptBucketLabels" using first_above_le [of "sint u div 1024" promptBucketBounds] len by simp
  have b: "promptBucket t = promptBucketLabels ! ?i" "promptBucket u = promptBucketLabels ! ?j"
    using assms by (simp_all add: promptBucket_def)
  have lt: "promptBucketLabels ! ?i < promptBucketLabels ! ?j" if "?i < ?j"
    using sorted_wrt_nth_less [OF labels_sorted that j] .
  have "\<forall>l \<in> set promptBucketLabels. l < ''unknown''" unfolding labels_eq by code_simp
  then have "promptBucketLabels ! ?j < ''unknown''" using j by simp
  moreover have "?i = ?j \<longleftrightarrow> \<not> (\<exists>b \<in> set promptBucketBounds. sint t div 1024 < b \<and> b \<le> sint u div 1024)"
  proof -
    have s: "sorted promptBucketBounds" by (simp add: promptBucketBounds_def)
    note ti = first_above_bounds [OF s, of "sint t div 1024"] and uj = first_above_bounds [OF s, of "sint u div 1024"]
    show ?thesis
    proof
      assume eq: "?i = ?j"
      show "\<not> (\<exists>b \<in> set promptBucketBounds. sint t div 1024 < b \<and> b \<le> sint u div 1024)"
      proof
        assume "\<exists>b \<in> set promptBucketBounds. sint t div 1024 < b \<and> b \<le> sint u div 1024"
        then obtain n where n: "n < length promptBucketBounds" "sint t div 1024 < promptBucketBounds ! n" "promptBucketBounds ! n \<le> sint u div 1024"
          by (auto simp: in_set_conv_nth)
        have "\<not> n < ?i" using ti n(2) by fastforce
        then have "?j \<le> n" using eq by simp
        then have "promptBucketBounds ! ?j \<le> promptBucketBounds ! n" using n(1) by (intro sorted_nth_mono [OF s]) simp_all
        then show False using uj n(1,3) \<open>?j \<le> n\<close> by fastforce
      qed
    next
      assume no: "\<not> (\<exists>b \<in> set promptBucketBounds. sint t div 1024 < b \<and> b \<le> sint u div 1024)"
      show "?i = ?j"
      proof (rule ccontr)
        assume "?i \<noteq> ?j"
        then have "?i < ?j" using ij by simp
        then have "?i < length promptBucketBounds" using first_above_le [of "sint u div 1024" promptBucketBounds] by simp
        then show False using no ti uj \<open>?i < ?j\<close> by (metis nth_mem)
      qed
    qed
  qed
  ultimately show ?thesis using b lt ij by (cases "?i = ?j") auto
qed

theorem prompt_buckets_ordered_witness:
  "promptBucket 98303 = ''0080k_0096k'' \<and> promptBucket 131072 = ''0128k_0160k'' \<and> promptBucket 98303 \<le> promptBucket 131072"
proof -
  have b: "promptBucket 98303 = ''0080k_0096k''" "promptBucket 131072 = ''0128k_0160k''"
    by (simp_all add: promptBucket_def labels_eq promptBucketBounds_def)
  have "promptBucket 98303 \<le> promptBucket 131072" using prompt_buckets_ordered [of 98303 131072] by simp
  then show ?thesis using b by simp
qed

end
