(* ===== verification/Exporter_Metrics_Facts.thy ===== *)
theory Exporter_Metrics_Facts
  imports Exporter_Metrics
begin

text \<open>
  What the exporter's metrics guarantee: no amount is negative, every line counts once, and the
  address of a backend is found under its port and retry marks.
\<close>

subsection \<open>Amounts\<close>

fun amount :: "metric_op \<Rightarrow> float64" where
  "amount (Count _ _ v) = v"
| "amount (Observe _ _ v) = v"
| "amount (Gauge _ _ v) = v"

lemma half_even_nonneg: "0 \<le> y \<Longrightarrow> 0 \<le> half_even y"
  by (simp add: half_even_def Let_def)

lemma scale2_nonneg: "0 \<le> y \<Longrightarrow> 0 \<le> scale2 e y"
  by (simp add: scale2_def)

lemma fl_nonneg: "0 \<le> x \<Longrightarrow> 0 \<le> fl x"
  by (simp add: fl_def Let_def scale2_nonneg half_even_nonneg)

lemma i2f_nonneg: "0 \<le> sint n \<Longrightarrow> 0 \<le> i2f n"
  unfolding i2f_def by (rule fl_nonneg) (simp only: of_int_0_le_iff)

lemma fdiv_nonneg: "0 \<le> x \<Longrightarrow> 0 \<le> y \<Longrightarrow> 0 \<le> fdiv x y"
  by (simp add: fdiv_def fl_nonneg)

lemma amounts_append: "(\<forall>op \<in> set (xs @ ys). 0 \<le> amount op) \<longleftrightarrow> (\<forall>op \<in> set xs. 0 \<le> amount op) \<and> (\<forall>op \<in> set ys. 0 \<le> amount op)"
  by auto

lemma rate_ops_nonneg: "\<forall>op \<in> set (rate_ops ls d). 0 \<le> amount op"
proof -
  have "0 \<le> fl (3 / 10)" by (rule fl_nonneg) simp
  then show ?thesis by (auto simp: rate_ops_def Let_def intro!: fdiv_nonneg i2f_nonneg)
qed

text \<open>Fact (counters only go up).  Whatever a detail line says, negative counts and times
  included, every amount added to a counter, observed or set is non-negative, so the client
  library never panics on it.\<close>

theorem observe_amounts: "\<forall>op \<in> set (observe resolver d). 0 \<le> amount op"
  unfolding observe_def Let_def
  by (cases "resolve resolver (x_Backend d)")
    (auto simp: amounts_append rate_ops_nonneg [rule_format] count_pos_def finish_ops_def i2f_nonneg simp del: set_append split: if_splits)

definition demo_detail :: xdetail where
  "demo_detail = \<lparr>x_Ts = [], x_TsEnd = [], x_RequestID = ''a'', x_Stream = None, x_Status = 200, x_Backend = ''10.0.0.5:8050'',
     x_Model = ''m'', x_FinishReason = [], x_Frt = 0, x_Lct = 0, x_Rt = 0, x_ReqBytes = 0, x_RespBytes = 0, x_PromptTokens = - 4,
     x_CompletionTokens = 0, x_CachedTokens = 0, x_TotalTokens = 0, x_ReasoningTokens = 0\<rparr>"

theorem observe_amounts_witness:
  "Count ''bodylog_finish_reason_total'' [''unknown'', ''unknown'', ''10.0.0.5:8050'', ''m'', ''none''] 1 \<in> set (observe None demo_detail)
   \<and> 0 \<le> amount (Count ''bodylog_finish_reason_total'' [''unknown'', ''unknown'', ''10.0.0.5:8050'', ''m'', ''none''] 1)"
proof -
  let ?op = "Count ''bodylog_finish_reason_total'' [''unknown'', ''unknown'', ''10.0.0.5:8050'', ''m'', ''none''] 1"
  have m: "?op \<in> set (observe None demo_detail)"
    by (simp add: observe_def demo_detail_def resolve_def finish_ops_def orDefault_def Let_def)
  from bspec [OF observe_amounts m] m show ?thesis by simp
qed

subsection \<open>Every line once\<close>

definition counted :: "string \<Rightarrow> metric_op list \<Rightarrow> float64" where
  "counted name ops = (\<Sum>op \<leftarrow> ops. case op of Count n _ v \<Rightarrow> if n = name then v else 0 | _ \<Rightarrow> 0)"

lemma counted_append [simp]: "counted name (xs @ ys) = counted name xs + counted name ys"
  by (simp add: counted_def)

lemma counted_simps [simp]:
  "counted name [] = 0" "counted name (Count n ls v # ops) = (if n = name then v else 0) + counted name ops"
  "counted name (Observe n ls v # ops) = counted name ops" "counted name (Gauge n ls v # ops) = counted name ops"
  by (simp_all add: counted_def)

lemma counted_parts [simp]:
  "counted name (count_pos n ls v) = (if n = name \<and> 0 < sint v then i2f v else 0)"
  "counted name (rate_ops ls d) = 0"
  by (simp_all add: count_pos_def rate_ops_def Let_def)

lemma requests_of_one: "counted ''bodylog_requests_total'' (observe resolver d) = 1"
  by (cases "resolve resolver (x_Backend d)") (simp add: observe_def Let_def finish_ops_def)

lemma requests_counted: "counted ''bodylog_requests_total'' (concat (map (observe resolver) ds)) = of_nat (length ds)"
  by (induction ds) (simp_all add: requests_of_one)

subsection \<open>backendIP\<close>

lemma indexByte_none: "c \<notin> set s \<Longrightarrow> indexByte s c = None"
  by (induction s) auto

lemma indexByte_here: "c \<notin> set s \<Longrightarrow> indexByte (s @ c # r) c = Some (length s)"
  by (induction s) auto

lemma lastIndexByte_none: "c \<notin> set s \<Longrightarrow> lastIndexByte s c = None"
  by (induction s) auto

lemma lastIndexByte_here: "c \<notin> set r \<Longrightarrow> lastIndexByte (s @ c # r) c = Some (length s)"
  by (induction s) (auto simp: lastIndexByte_none)

lemma backendIP_port:
  assumes "trimSpace (ip @ CHR '':'' # port @ rest) = ip @ CHR '':'' # port @ rest"
    and "CHR '' '' \<notin> set ip" "CHR '' '' \<notin> set port" "CHR '':'' \<notin> set port" "rest = [] \<or> hd rest = CHR '' ''"
  shows "backendIP (ip @ CHR '':'' # port @ rest) = ip"
proof -
  have s: "CHR '' '' \<notin> set (ip @ CHR '':'' # port)" using assms by simp
  show ?thesis
  proof (cases rest)
    case Nil
    then show ?thesis using assms s indexByte_none [OF s] lastIndexByte_here [OF assms(4), of ip]
      by (simp add: backendIP_def)
  next
    case (Cons c r)
    then have "indexByte ((ip @ CHR '':'' # port) @ rest) CHR '' '' = Some (length (ip @ CHR '':'' # port))"
      using assms(5) indexByte_here [OF s, of r] by simp
    then show ?thesis using assms lastIndexByte_here [OF assms(4), of ip] by (simp add: backendIP_def Let_def)
  qed
qed

end
