(* ===== verification/Exporter_Tail.thy ===== *)
theory Exporter_Tail
  imports Exporter_Metrics Frame
begin

text \<open>
  The exporter's tailer (\<open>bodylog-exporter-go/tail.go\<close>, \<open>checkpoint.go\<close>, \<open>recovery.go\<close>): reading the
  details file line by line, the checkpoint, the change of day, the start after a restart and
  the recovery over HTTP.

  Parameters: the decoding of a line (\<open>encoding/json\<close> into \<open>detailRecord\<close>), the files, whether a
  read fails and when, whether saving the checkpoint succeeds, the answers of the server.
\<close>

subsection \<open>State\<close>

record checkpoint =
  cp_path :: string
  cp_offset :: int
  cp_lastTs :: string

text \<open>\<open>tl_saved\<close> is the checkpoint file; \<open>tl_obs\<close> are the lines given to \<open>observe\<close>, in order.\<close>

record tailer =
  tl_cp :: checkpoint
  tl_path :: string
  tl_off :: int
  tl_seen :: "string list"
  tl_dedup :: bool
  tl_saved :: "checkpoint option"
  tl_obs :: "xdetail list"

definition newTailer :: "checkpoint option \<Rightarrow> tailer" where
  "newTailer saved = \<lparr>tl_cp = \<lparr>cp_path = [], cp_offset = 0, cp_lastTs = []\<rparr>, tl_path = [], tl_off = 0,
     tl_seen = [], tl_dedup = False, tl_saved = saved, tl_obs = []\<rparr>"

subsection \<open>Paths\<close>

definition detailsPathFor :: "string \<Rightarrow> int \<Rightarrow> gotime \<Rightarrow> string" where
  "detailsPathFor dir tz day = dir @ ''/'' @ formatDay ((unixSec day + tz) div 86400) @ ''.jsonl''"

text \<open>\<open>filepath.Base\<close>.\<close>

definition pathBase :: "string \<Rightarrow> string" where
  "pathBase p =
    (if p = [] then ''.''
     else let q = trimRightSet [CHR ''/''] p in
       if q = [] then ''/''
       else case lastIndexByte q CHR ''/'' of Some i \<Rightarrow> drop (i + 1) q | None \<Rightarrow> q)"

definition dateFromPath :: "string \<Rightarrow> int \<Rightarrow> gotime option" where
  "dateFromPath p tz = parseDay tz (trimSuffix (pathBase p) ''.jsonl'')"

definition firstNonEmpty :: "string \<Rightarrow> string \<Rightarrow> string" where
  "firstNonEmpty a b = (if a \<noteq> [] then a else b)"

text \<open>\<open>Format(time.RFC3339)\<close> drops the fraction.\<close>

definition formatSeconds :: "gotime \<Rightarrow> string" where
  "formatSeconds t = formatNano (t\<lparr>ns := unixSec t * 1000000000\<rparr>)"

definition recoveryStart :: "int \<Rightarrow> gotime \<Rightarrow> checkpoint \<Rightarrow> string" where
  "recoveryStart tz now cp = (case dateFromPath (cp_path cp) tz of
      Some d \<Rightarrow> formatSeconds (addDur d (- 86400 * 1000000000))
    | None \<Rightarrow> if cp_lastTs cp \<noteq> [] then cp_lastTs cp else formatSeconds (addDur now (- 48 * 3600 * 1000000000)))"

subsection \<open>Lines\<close>

text \<open>\<open>ReadBytes('\n')\<close>: a line with its end, or nothing while the line is not complete.\<close>

fun nextLine :: "bytes \<Rightarrow> unit + (bytes \<times> bytes)" where
  "nextLine [] = Inl ()"
| "nextLine (c # s) = (if c = CHR 0x0A then Inr ([c], s)
     else case nextLine s of Inl u \<Rightarrow> Inl u | Inr (l, r) \<Rightarrow> Inr (c # l, r))"

lemma nextLine_parts: "nextLine s = Inr (l, r) \<Longrightarrow> s = l @ r \<and> l \<noteq> []"
  by (induction s arbitrary: l) (auto split: if_splits sum.splits)

function allLines :: "bytes \<Rightarrow> bytes list \<times> bytes \<times> unit" where
  "allLines s = (case nextLine s of
      Inl u \<Rightarrow> ([], s, u)
    | Inr (l, r) \<Rightarrow> (l # fst (allLines r), snd (allLines r)))"
  by pat_completeness auto
termination by (relation "measure length") (auto dest!: nextLine_parts)

declare allLines.simps [simp del]

definition is_line :: "bytes \<Rightarrow> bool" where
  "is_line l \<longleftrightarrow> l \<noteq> [] \<and> List.last l = CHR 0x0A \<and> CHR 0x0A \<notin> set (butlast l)"

lemma nextLine_push: "is_line l \<Longrightarrow> nextLine (l @ s) = Inr (l, s)"
  by (induction l) (auto simp: is_line_def split: if_splits)

interpretation lines: framed_stream "(@)" is_line nextLine allLines
  by unfold_locales (simp_all add: nextLine_push allLines.simps [of s for s])

text \<open>Faults of one read: the file cannot be opened or positioned, or an error comes after some
  bytes.\<close>

datatype fault = NoFault | CannotOpen | FailsAfter nat

subsection \<open>Operations\<close>

definition persist :: "bool \<Rightarrow> tailer \<Rightarrow> tailer" where
  "persist saves t =
    (let cp = (tl_cp t)\<lparr>cp_path := tl_path t, cp_offset := tl_off t\<rparr>
     in t\<lparr>tl_cp := cp, tl_saved := (if saves then Some cp else tl_saved t)\<rparr>)"

definition dropDedup :: "tailer \<Rightarrow> tailer" where
  "dropDedup t = (if tl_dedup t then t\<lparr>tl_dedup := False, tl_seen := []\<rparr> else t)"

definition touchTs :: "xdetail \<Rightarrow> tailer \<Rightarrow> tailer" where
  "touchTs d t = (let ts = firstNonEmpty (x_TsEnd d) (x_Ts d) in
     if ts \<noteq> [] then t\<lparr>tl_cp := (tl_cp t)\<lparr>cp_lastTs := ts\<rparr>\<rparr> else t)"

definition handleLine :: "(bytes \<Rightarrow> xdetail option) \<Rightarrow> bytes \<Rightarrow> tailer \<Rightarrow> tailer" where
  "handleLine decode line t = (case decode line of
      None \<Rightarrow> t
    | Some d \<Rightarrow>
        if tl_dedup t \<and> x_RequestID d \<noteq> [] \<and> x_RequestID d \<in> set (tl_seen t) then t
        else touchTs d (t\<lparr>tl_obs := tl_obs t @ [d]\<rparr>))"

text \<open>The loop over complete lines; \<open>n\<close> counts them, and every 2000 the checkpoint is saved.\<close>

fun read_loop :: "(bytes \<Rightarrow> xdetail option) \<Rightarrow> bool \<Rightarrow> nat \<Rightarrow> bytes list \<Rightarrow> tailer \<Rightarrow> tailer" where
  "read_loop decode saves n [] t = t"
| "read_loop decode saves n (l # ls) t =
     (let t1 = handleLine decode l t; t2 = t1\<lparr>tl_off := tl_off t1 + int (length l)\<rparr>
      in read_loop decode saves (Suc n) ls (if Suc n mod 2000 = 0 then persist saves t2 else t2))"

definition readFrom :: "(bytes \<Rightarrow> xdetail option) \<Rightarrow> fault \<Rightarrow> bool \<Rightarrow> bytes option \<Rightarrow> tailer \<Rightarrow> nat \<times> bool \<times> tailer" where
  "readFrom decode fault saves file t = (case file of
      None \<Rightarrow> (0, False, t)
    | Some content \<Rightarrow>
        if fault = CannotOpen \<or> tl_off t < 0 then (0, False, t)
        else
          (let rest = drop (nat (tl_off t)) content;
               visible = (case fault of FailsAfter k \<Rightarrow> take k rest | _ \<Rightarrow> rest);
               ls = fst (allLines visible);
               t1 = read_loop decode saves 0 ls t
           in (length ls, fault = NoFault, if ls \<noteq> [] then persist saves t1 else t1)))"

text \<open>One round of \<open>tailLoop\<close>; \<open>files\<close> is the details directory.\<close>

definition to_today :: "bool \<Rightarrow> string \<Rightarrow> tailer \<Rightarrow> tailer" where
  "to_today saves today t = persist saves (dropDedup (t\<lparr>tl_path := today, tl_off := 0\<rparr>))"

definition tail_round ::
  "(bytes \<Rightarrow> xdetail option) \<Rightarrow> string \<Rightarrow> (string \<times> bytes) list \<Rightarrow> fault \<Rightarrow> bool \<Rightarrow> tailer \<Rightarrow> tailer" where
  "tail_round decode today files fault saves t =
    (if tl_path t \<noteq> today then
       (if tl_path t = [] \<or> map_of files (tl_path t) = None then to_today saves today t
        else case readFrom decode fault saves (map_of files (tl_path t)) t of
               (n, atEOF, t1) \<Rightarrow> if n = 0 \<and> atEOF then to_today saves today t1 else t1)
     else case readFrom decode fault saves (map_of files (tl_path t)) t of
            (n, atEOF, t1) \<Rightarrow> if n = 0 \<and> atEOF then dropDedup t1 else t1)"

subsection \<open>Recovery\<close>

text \<open>The answer to a page request: nothing on any failure, else the rows, the truncation mark and
  the cursor.\<close>

type_synonym page = "(xdetail list \<times> bool \<times> string) option"

definition recover_row :: "xdetail \<Rightarrow> tailer \<times> string list \<Rightarrow> tailer \<times> string list" where
  "recover_row d s = (case s of (t, seen) \<Rightarrow>
     (touchTs d (t\<lparr>tl_obs := tl_obs t @ [d]\<rparr>), if x_RequestID d \<noteq> [] then x_RequestID d # seen else seen))"

partial_function (option) recover_pages :: "(string \<Rightarrow> page) \<Rightarrow> string \<Rightarrow> tailer \<times> string list \<Rightarrow> (tailer \<times> string list) option" where
  "recover_pages fetch cursor s = (case fetch cursor of
      None \<Rightarrow> Some s
    | Some (rows, truncated, nxt) \<Rightarrow>
        (let s1 = fold recover_row rows s in
         if \<not> truncated \<or> nxt = [] \<or> nxt = cursor then Some s1 else recover_pages fetch nxt s1))"

text \<open>\<open>run\<close> up to the loop: \<open>None\<close> when the recovery does not end.  \<open>server start end cursor\<close> answers
  a page request; \<open>lag\<close> is the recovery lag.\<close>

definition tail_start ::
  "(string \<Rightarrow> string \<Rightarrow> string \<Rightarrow> page) \<Rightarrow> bool \<Rightarrow> int \<Rightarrow> int \<Rightarrow> gotime \<Rightarrow> string \<Rightarrow> (string \<times> bytes) list \<Rightarrow> tailer \<Rightarrow> tailer option" where
  "tail_start server hasURL lag tz now today files t = (case tl_saved t of
      None \<Rightarrow> Some (t\<lparr>tl_path := today, tl_off := 0\<rparr>)
    | Some cp \<Rightarrow>
        if cp_path cp = [] then Some (t\<lparr>tl_path := today, tl_off := 0\<rparr>)
        else if map_of files (cp_path cp) \<noteq> None then Some (t\<lparr>tl_cp := cp, tl_path := cp_path cp, tl_off := cp_offset cp\<rparr>)
        else if hasURL then
          map_option (\<lambda>(t1, seen). t1\<lparr>tl_seen := seen, tl_dedup := True, tl_path := today, tl_off := 0\<rparr>)
            (recover_pages (server (recoveryStart tz now cp) (formatNano (addDur now (- lag)))) [] (t\<lparr>tl_cp := cp\<rparr>, []))
        else Some (t\<lparr>tl_cp := cp, tl_path := today, tl_off := 0\<rparr>))"

end
