(* ===== verification/Exporter_Tail_Facts.thy ===== *)
theory Exporter_Tail_Facts
  imports Exporter_Tail Exporter_Metrics_Facts Metrics_Facts
begin

text \<open>
  What the tailer guarantees: in every reachable state each complete line of a file was given to
  \<open>observe\<close> once, in order, and the checkpoint is never ahead; and a day that is skipped.
\<close>

subsection \<open>Lines\<close>

abbreviation lines_of :: "bytes \<Rightarrow> bytes list" where
  "lines_of s \<equiv> fst (allLines s)"

lemma nextLine_is_line: "nextLine s = Inr (l, r) \<Longrightarrow> is_line l"
  by (induction s arbitrary: l) (auto simp: is_line_def split: if_splits sum.splits)

lemma lines_of_stop: "nextLine s = Inl u \<Longrightarrow> lines_of s = []"
  by (simp add: allLines.simps)

lemma lines_of_step: "nextLine s = Inr (l, r) \<Longrightarrow> lines_of s = l # lines_of r"
  by (simp add: allLines.simps [of s])

lemma lines_of_prefix: "\<exists>rest. s = concat (lines_of s) @ rest \<and> nextLine rest = Inl ()"
proof (induction s rule: allLines.induct)
  case (1 s)
  show ?case
  proof (cases "nextLine s")
    case (Inl u)
    then show ?thesis using lines_of_stop [OF Inl] by simp
  next
    case (Inr lr)
    obtain l r where lr: "lr = (l, r)" by fastforce
    then show ?thesis using "1" Inr nextLine_parts [of s l r] lines_of_step [of s l r] by fastforce
  qed
qed

lemma lines_of_lines: "list_all is_line (lines_of s)"
proof (induction s rule: allLines.induct)
  case (1 s)
  then show ?case by (cases "nextLine s") (auto simp: lines_of_stop lines_of_step dest: nextLine_is_line)
qed

lemma foldr_append: "foldr (@) ls s = concat ls @ s"
  by (induction ls) simp_all

lemma lines_of_concat: "list_all is_line ls \<Longrightarrow> lines_of (concat ls @ s) = ls @ lines_of s"
  using lines.drain_pushes [of ls s] by (simp add: foldr_append)

lemma lines_of_take: "\<exists>k. lines_of (take n s) = take k (lines_of s)"
proof -
  let ?ls = "lines_of (take n s)"
  obtain rest where r: "take n s = concat ?ls @ rest" using lines_of_prefix by blast
  have "s = concat ?ls @ (rest @ drop n s)" using r by (metis append.assoc append_take_drop_id)
  then have "lines_of s = ?ls @ lines_of (rest @ drop n s)" using lines_of_concat lines_of_lines by metis
  then show ?thesis by (metis append_eq_conv_conj)
qed

subsection \<open>One read\<close>

definition decoded :: "(bytes \<Rightarrow> xdetail option) \<Rightarrow> bytes list \<Rightarrow> xdetail list" where
  "decoded decode ls = List.map_filter decode ls"

lemma tail_decoded_simps [simp]: "decoded decode [] = []" "decoded decode (xs @ ys) = decoded decode xs @ decoded decode ys"
  by (simp_all add: decoded_def map_filter_def)

lemma decoded_Cons: "decoded decode (l # ls) = (case decode l of None \<Rightarrow> [] | Some d \<Rightarrow> [d]) @ decoded decode ls"
  by (simp add: decoded_def map_filter_def split: option.split)

text \<open>The lines one read finds.\<close>

definition found :: "fault \<Rightarrow> bytes option \<Rightarrow> tailer \<Rightarrow> bytes list" where
  "found fault file t = (case file of
      None \<Rightarrow> []
    | Some content \<Rightarrow>
        if fault = CannotOpen \<or> tl_off t < 0 then []
        else let rest = drop (nat (tl_off t)) content
             in lines_of (case fault of FailsAfter k \<Rightarrow> take k rest | _ \<Rightarrow> rest))"

lemma persist_simps [simp]:
  "tl_path (persist sv t) = tl_path t" "tl_off (persist sv t) = tl_off t" "tl_obs (persist sv t) = tl_obs t"
  "tl_dedup (persist sv t) = tl_dedup t" "tl_seen (persist sv t) = tl_seen t"
  by (simp_all add: persist_def Let_def)

lemma saved_persist: "tl_saved (persist sv t) = tl_saved t \<or> (\<exists>ts. tl_saved (persist sv t) = Some \<lparr>cp_path = tl_path t, cp_offset = tl_off t, cp_lastTs = ts\<rparr>)"
  by (cases "tl_cp t") (auto simp: persist_def Let_def)

lemma handleLine_simps [simp]:
  "tl_path (handleLine decode l t) = tl_path t" "tl_off (handleLine decode l t) = tl_off t"
  "tl_dedup (handleLine decode l t) = tl_dedup t" "tl_seen (handleLine decode l t) = tl_seen t"
  "tl_saved (handleLine decode l t) = tl_saved t"
  by (simp_all add: handleLine_def touchTs_def Let_def split: option.split)

definition unseen :: "tailer \<Rightarrow> xdetail \<Rightarrow> bool" where
  "unseen t d \<longleftrightarrow> \<not> (tl_dedup t \<and> x_RequestID d \<noteq> [] \<and> x_RequestID d \<in> set (tl_seen t))"

lemma handleLine_obs: "tl_obs (handleLine decode l t) = tl_obs t @ filter (unseen t) (decoded decode [l])"
  by (simp add: handleLine_def touchTs_def Let_def decoded_Cons unseen_def split: option.split)

lemma unseen_cong: "tl_dedup t = tl_dedup t' \<Longrightarrow> tl_seen t = tl_seen t' \<Longrightarrow> unseen t = unseen t'"
  by (intro ext) (simp add: unseen_def)

text \<open>A checkpoint on disk is the one before, or a line boundary of this read.\<close>

definition saved_within :: "tailer \<Rightarrow> bytes list \<Rightarrow> checkpoint option \<Rightarrow> bool" where
  "saved_within t ls c \<longleftrightarrow> c = tl_saved t \<or>
     (\<exists>k \<le> length ls. \<exists>ts. c = Some \<lparr>cp_path = tl_path t, cp_offset = tl_off t + int (length (concat (take k ls))), cp_lastTs = ts\<rparr>)"

lemma read_loop_facts:
  "tl_path (read_loop decode sv n ls t) = tl_path t \<and> tl_dedup (read_loop decode sv n ls t) = tl_dedup t
   \<and> tl_seen (read_loop decode sv n ls t) = tl_seen t
   \<and> tl_off (read_loop decode sv n ls t) = tl_off t + int (length (concat ls))
   \<and> tl_obs (read_loop decode sv n ls t) = tl_obs t @ filter (unseen t) (decoded decode ls)
   \<and> saved_within t ls (tl_saved (read_loop decode sv n ls t))"
proof (induction ls arbitrary: n t)
  case (Cons l ls)
  let ?t1 = "handleLine decode l t"
  let ?t2 = "?t1\<lparr>tl_off := tl_off ?t1 + int (length l)\<rparr>"
  let ?t3 = "if Suc n mod 2000 = 0 then persist sv ?t2 else ?t2"
  have t3: "tl_path ?t3 = tl_path t" "tl_dedup ?t3 = tl_dedup t" "tl_seen ?t3 = tl_seen t"
    "tl_off ?t3 = tl_off t + int (length l)" "tl_obs ?t3 = tl_obs t @ filter (unseen t) (decoded decode [l])"
    by (simp_all add: handleLine_obs)
  have u: "unseen ?t3 = unseen t" using t3(2,3) by (rule unseen_cong)
  note ih = Cons.IH [of "Suc n" ?t3]
  have sv3: "tl_saved ?t3 = tl_saved t \<or> (\<exists>ts. tl_saved ?t3 = Some \<lparr>cp_path = tl_path t, cp_offset = tl_off t + int (length l), cp_lastTs = ts\<rparr>)"
    using saved_persist [of sv ?t2] by auto
  have "saved_within t (l # ls) (tl_saved (read_loop decode sv (Suc n) ls ?t3))"
  proof -
    have "saved_within ?t3 ls (tl_saved (read_loop decode sv (Suc n) ls ?t3))" using ih by blast
    then consider "tl_saved (read_loop decode sv (Suc n) ls ?t3) = tl_saved ?t3"
      | k ts where "k \<le> length ls" "tl_saved (read_loop decode sv (Suc n) ls ?t3) =
          Some \<lparr>cp_path = tl_path t, cp_offset = tl_off t + int (length l) + int (length (concat (take k ls))), cp_lastTs = ts\<rparr>"
      unfolding saved_within_def t3 by blast
    then show ?thesis
    proof cases
      case 1
      then show ?thesis using sv3 unfolding saved_within_def
        by (elim disjE exE) (simp, rule disjI2, rule exI [of _ 1], auto)
    next
      case 2
      then show ?thesis unfolding saved_within_def by (intro disjI2 exI [of _ "Suc k"]) (auto simp: algebra_simps)
    qed
  qed
  then show ?case using ih u t3 decoded_Cons [of decode l] by (simp add: Let_def)
qed (simp add: saved_within_def)

lemma readFrom_facts:
  assumes "readFrom decode fault sv file t = (n, eof, t')"
  shows "n = length (found fault file t) \<and> (eof \<longrightarrow> fault = NoFault \<and> file \<noteq> None) \<and> tl_path t' = tl_path t \<and> tl_dedup t' = tl_dedup t
    \<and> tl_seen t' = tl_seen t \<and> tl_off t' = tl_off t + int (length (concat (found fault file t)))
    \<and> tl_obs t' = tl_obs t @ filter (unseen t) (decoded decode (found fault file t))
    \<and> saved_within t (found fault file t) (tl_saved t')"
proof (cases "file = None \<or> fault = CannotOpen \<or> tl_off t < 0")
  case True
  then have "n = 0 \<and> \<not> eof \<and> t' = t \<and> found fault file t = []"
    using assms by (auto simp: readFrom_def found_def split: option.splits)
  then show ?thesis by (simp add: saved_within_def)
next
  case False
  then obtain content where c: "file = Some content" "fault \<noteq> CannotOpen" "\<not> tl_off t < 0" by auto
  let ?ls = "found fault file t"
  let ?t1 = "read_loop decode sv 0 ?ls t"
  have r: "n = length ?ls" "eof = (fault = NoFault)" "t' = (if ?ls \<noteq> [] then persist sv ?t1 else ?t1)"
    using assms c by (auto simp: readFrom_def found_def Let_def)
  note f = read_loop_facts [of decode sv 0 ?ls t]
  have "saved_within t ?ls (tl_saved t')"
  proof -
    have "tl_saved t' = tl_saved ?t1 \<or> (\<exists>ts. tl_saved t' = Some \<lparr>cp_path = tl_path t, cp_offset = tl_off t + int (length (concat ?ls)), cp_lastTs = ts\<rparr>)"
      using saved_persist [of sv ?t1] f by (auto simp: r)
    then show ?thesis using f unfolding saved_within_def by (metis order_refl take_all)
  qed
  then show ?thesis using f c by (simp add: r)
qed

subsection \<open>The life of a tailer\<close>

text \<open>A fresh tailer and what happens to it: the day's file grows, a round of the loop runs with any
  fault, a new day begins, an earlier day's file is rotated away.  The visits list the lines given
  to \<open>observe\<close> per file visited; the last entry is the file being read.\<close>

type_synonym visit = "string \<times> bytes list"

definition add_lines :: "visit list \<Rightarrow> bytes list \<Rightarrow> visit list" where
  "add_lines vis ls = butlast vis @ [(fst (List.last vis), snd (List.last vis) @ ls)]"

definition round_log :: "string \<Rightarrow> (string \<times> bytes) list \<Rightarrow> fault \<Rightarrow> tailer \<Rightarrow> tailer \<Rightarrow> visit list \<Rightarrow> visit list" where
  "round_log today files fault t t' vis =
    (let vis1 = (if tl_path t = [] then vis else add_lines vis (found fault (map_of files (tl_path t)) t))
     in if tl_path t' \<noteq> tl_path t then vis1 @ [(tl_path t', [])] else vis1)"

inductive tail_run :: "(bytes \<Rightarrow> xdetail option) \<Rightarrow> string \<Rightarrow> (string \<times> bytes) list \<Rightarrow> tailer \<Rightarrow> visit list \<Rightarrow> bool" for decode where
  fresh: "today \<noteq> [] \<Longrightarrow> tail_run decode today files ((newTailer None)\<lparr>tl_path := today, tl_off := 0\<rparr>) [(today, [])]"
| grow: "tail_run decode today files t vis \<Longrightarrow> map_of files today = c \<Longrightarrow>
    tail_run decode today (put today ((case c of Some b \<Rightarrow> b | None \<Rightarrow> []) @ bs) files) t vis"
| round: "tail_run decode today files t vis \<Longrightarrow> tail_round decode today files fault sv t = t' \<Longrightarrow>
    tail_run decode today files t' (round_log today files fault t t' vis)"
| midnight: "tail_run decode today files t vis \<Longrightarrow> map_of files today' = None \<Longrightarrow> today' \<notin> fst ` set vis \<Longrightarrow> today' \<noteq> [] \<Longrightarrow>
    tail_run decode today' files t vis"
| rotate: "tail_run decode today files t vis \<Longrightarrow> p \<noteq> today \<Longrightarrow> tail_run decode today (del p files) t vis"

inductive_cases tail_runE: "tail_run decode today files t vis"

text \<open>The invariant.\<close>

definition tail_inv :: "(bytes \<Rightarrow> xdetail option) \<Rightarrow> string \<Rightarrow> (string \<times> bytes) list \<Rightarrow> tailer \<Rightarrow> visit list \<Rightarrow> bool" where
  "tail_inv decode today files t vis \<longleftrightarrow>
     today \<noteq> [] \<and> vis \<noteq> [] \<and> distinct (map fst vis) \<and> \<not> tl_dedup t
     \<and> (\<forall>(p, ls) \<in> set vis. p \<noteq> [] \<and> list_all is_line ls)
     \<and> fst (List.last vis) = tl_path t
     \<and> tl_off t = int (length (concat (snd (List.last vis))))
     \<and> tl_obs t = decoded decode (concat (map snd vis))
     \<and> (case map_of files (tl_path t) of
          Some c \<Rightarrow> \<exists>rest. c = concat (snd (List.last vis)) @ rest
        | None \<Rightarrow> tl_path t = today \<longrightarrow> snd (List.last vis) = [])
     \<and> (tl_path t \<noteq> today \<longrightarrow> today \<notin> fst ` set vis)
     \<and> (case tl_saved t of None \<Rightarrow> True | Some cp \<Rightarrow> \<exists>ls k. (cp_path cp, ls) \<in> set vis \<and> k \<le> length ls \<and> cp_offset cp = int (length (concat (take k ls))))"

lemma last_entry: "vis \<noteq> [] \<Longrightarrow> vis = butlast vis @ [(fst (List.last vis), snd (List.last vis))]"
  by simp

lemma found_continues:
  assumes "c = concat ls @ rest" "tl_off t = int (length (concat ls))"
  shows "found NoFault (Some c) t = lines_of rest" "\<exists>k. found fault (Some c) t = take k (lines_of rest)"
proof -
  have d: "drop (nat (tl_off t)) c = rest" using assms by simp
  show "found NoFault (Some c) t = lines_of rest" using d assms(2) by (simp add: found_def)
  show "\<exists>k. found fault (Some c) t = take k (lines_of rest)"
    using lines_of_take [of _ rest] d assms(2) by (cases fault) (auto simp: found_def intro: exI [of _ 0] exI [of _ "length (lines_of rest)"])
qed

lemma found_lines: "list_all is_line (found fault file t)"
  by (auto simp: found_def Let_def lines_of_lines split: option.split)

lemma found_prefix:
  assumes "c = concat ls @ rest" "tl_off t = int (length (concat ls))"
  shows "\<exists>rest'. c = concat (ls @ found fault (Some c) t) @ rest'"
proof -
  obtain k where k: "found fault (Some c) t = take k (lines_of rest)"
    using found_continues(2) [OF assms] by blast
  obtain r where "rest = concat (lines_of rest) @ r" using lines_of_prefix by blast
  then have "rest = concat (take k (lines_of rest)) @ (concat (drop k (lines_of rest)) @ r)"
    by (metis append.assoc append_take_drop_id concat_append)
  then show ?thesis using k assms(1) by auto
qed

text \<open>The saved checkpoint, as a property of the lines visited.\<close>

definition saved_ok :: "visit list \<Rightarrow> checkpoint option \<Rightarrow> bool" where
  "saved_ok vis c \<longleftrightarrow> (case c of None \<Rightarrow> True
    | Some cp \<Rightarrow> \<exists>ls k. (cp_path cp, ls) \<in> set vis \<and> k \<le> length ls \<and> cp_offset cp = int (length (concat (take k ls))))"

lemma saved_ok_more:
  assumes "saved_ok (past @ [(p, ls)]) c"
  shows "saved_ok (past @ [(p, ls @ ls')]) c"
proof (cases c)
  case (Some cp)
  then obtain l k where l: "(cp_path cp, l) \<in> set (past @ [(p, ls)])" "k \<le> length l" "cp_offset cp = int (length (concat (take k l)))"
    using assms by (auto simp: saved_ok_def)
  show ?thesis
  proof (cases "(cp_path cp, l) \<in> set past")
    case True
    then show ?thesis using l Some by (auto simp: saved_ok_def)
  next
    case False
    then have "cp_path cp = p" "l = ls" using l(1) by auto
    then have "(cp_path cp, ls @ ls') \<in> set (past @ [(p, ls @ ls')])" "k \<le> length (ls @ ls')"
      "cp_offset cp = int (length (concat (take k (ls @ ls'))))" using l(2,3) by auto
    then show ?thesis unfolding Some saved_ok_def option.case by blast
  qed
qed (simp add: saved_ok_def)

lemma saved_ok_within:
  assumes "saved_ok (past @ [(tl_path t, ls)]) (tl_saved t)" "saved_within t ls' c" "tl_off t = int (length (concat ls))"
  shows "saved_ok (past @ [(tl_path t, ls @ ls')]) c"
proof -
  consider "c = tl_saved t" | k ts where "k \<le> length ls'"
      "c = Some \<lparr>cp_path = tl_path t, cp_offset = tl_off t + int (length (concat (take k ls'))), cp_lastTs = ts\<rparr>"
    using assms(2) unfolding saved_within_def by blast
  then show ?thesis
  proof cases
    case 1
    then show ?thesis using saved_ok_more [OF assms(1)] by simp
  next
    case 2
    show ?thesis unfolding 2(2) saved_ok_def option.case
      by (rule exI [of _ "ls @ ls'"], rule exI [of _ "length ls + k"]) (use 2(1) assms(3) in simp)
  qed
qed

lemma saved_ok_snoc: "saved_ok vis c \<Longrightarrow> saved_ok (vis @ [x]) c"
  unfolding saved_ok_def by (cases c) auto

text \<open>What a round does: it reads, and then it may turn to today.\<close>

lemma tail_round_cases:
  assumes "tail_round decode today files fault sv t = t'" "tl_path t \<noteq> []"
  obtains n eof t1 where "readFrom decode fault sv (map_of files (tl_path t)) t = (n, eof, t1)"
    and "t' = t1 \<or> t' = dropDedup t1 \<and> tl_path t = today
      \<or> t' = to_today sv today t1 \<and> tl_path t \<noteq> today \<and> found fault (map_of files (tl_path t)) t = []"
proof -
  obtain n eof t1 where r: "readFrom decode fault sv (map_of files (tl_path t)) t = (n, eof, t1)" by (rule prod_cases3)
  note f = readFrom_facts [OF r]
  have none: "t1 = t \<and> found fault (map_of files (tl_path t)) t = []" if "map_of files (tl_path t) = None"
    using r that by (simp add: readFrom_def found_def)
  have "t' = t1 \<or> t' = dropDedup t1 \<and> tl_path t = today
      \<or> t' = to_today sv today t1 \<and> tl_path t \<noteq> today \<and> found fault (map_of files (tl_path t)) t = []"
  proof (cases "tl_path t = today")
    case True
    then have eq: "t' = (if n = 0 \<and> eof then dropDedup t1 else t1)" using assms(1) r by (simp add: tail_round_def)
    show ?thesis unfolding eq using True by simp
  next
    case False
    show ?thesis
    proof (cases "map_of files (tl_path t)")
      case None
      then show ?thesis using assms False none by (simp add: tail_round_def)
    next
      case (Some c)
      then have eq: "t' = (if n = 0 \<and> eof then to_today sv today t1 else t1)" using assms False r by (simp add: tail_round_def)
      have n: "n = length (found fault (map_of files (tl_path t)) t)" using f by blast
      show ?thesis unfolding eq using False n by (cases "n = 0 \<and> eof") simp_all
    qed
  qed
  then show ?thesis by (rule that [OF r])
qed

lemma dropDedup_off: "\<not> tl_dedup t \<Longrightarrow> dropDedup t = t"
  by (simp add: dropDedup_def)

lemma tail_inv_split:
  assumes "tail_inv decode today files t vis"
  obtains past ls where "vis = past @ [(tl_path t, ls)]"
proof -
  have "vis \<noteq> []" "fst (List.last vis) = tl_path t" using assms by (auto simp: tail_inv_def)
  then show ?thesis using that [of "butlast vis" "snd (List.last vis)"] by (metis append_butlast_last_id prod.collapse)
qed

lemma tail_inv_snoc:
  "tail_inv decode today files t (past @ [(p, ls)]) \<longleftrightarrow>
     today \<noteq> [] \<and> distinct (map fst past @ [p]) \<and> \<not> tl_dedup t \<and> p \<noteq> [] \<and> list_all is_line ls
     \<and> (\<forall>(q, l) \<in> set past. q \<noteq> [] \<and> list_all is_line l)
     \<and> p = tl_path t \<and> tl_off t = int (length (concat ls)) \<and> tl_obs t = decoded decode (concat (map snd past) @ ls)
     \<and> (case map_of files p of Some c \<Rightarrow> \<exists>rest. c = concat ls @ rest | None \<Rightarrow> p = today \<longrightarrow> ls = [])
     \<and> (p \<noteq> today \<longrightarrow> today \<notin> fst ` set past) \<and> saved_ok (past @ [(p, ls)]) (tl_saved t)"
  unfolding tail_inv_def saved_ok_def by (auto split: option.splits)

lemma inv_fresh: "today \<noteq> [] \<Longrightarrow> tail_inv decode today files ((newTailer None)\<lparr>tl_path := today, tl_off := 0\<rparr>) [(today, [])]"
  unfolding tail_inv_def by (simp add: newTailer_def split: option.split)

lemma inv_grow:
  assumes "tail_inv decode today files t vis" "map_of files today = c"
  shows "tail_inv decode today (put today ((case c of Some b \<Rightarrow> b | None \<Rightarrow> []) @ bs) files) t vis"
proof -
  obtain past ls where v: "vis = past @ [(tl_path t, ls)]" by (rule tail_inv_split [OF assms(1)])
  have "case map_of (put today ((case c of Some b \<Rightarrow> b | None \<Rightarrow> []) @ bs) files) (tl_path t) of
      Some c \<Rightarrow> \<exists>rest. c = concat ls @ rest | None \<Rightarrow> tl_path t = today \<longrightarrow> ls = []"
    using assms by (auto simp: v tail_inv_snoc split: option.splits)
  then show ?thesis using assms(1) unfolding v tail_inv_snoc by blast
qed

lemma inv_midnight:
  assumes "tail_inv decode today files t vis" "map_of files today' = None" "today' \<notin> fst ` set vis" "today' \<noteq> []"
  shows "tail_inv decode today' files t vis"
proof -
  obtain past ls where v: "vis = past @ [(tl_path t, ls)]" by (rule tail_inv_split [OF assms(1)])
  have "tl_path t \<noteq> today'" "today' \<notin> fst ` set past" using assms(3) by (auto simp: v)
  then show ?thesis using assms(1,4) unfolding v tail_inv_snoc by (auto split: option.splits)
qed

lemma inv_rotate:
  assumes "tail_inv decode today files t vis" "p \<noteq> today"
  shows "tail_inv decode today (del p files) t vis"
proof -
  obtain past ls where v: "vis = past @ [(tl_path t, ls)]" by (rule tail_inv_split [OF assms(1)])
  show ?thesis using assms unfolding v tail_inv_snoc by (auto split: option.splits)
qed

text \<open>A round that stays in its file.\<close>

lemma inv_read:
  assumes "tail_inv decode today files t (past @ [(tl_path t, ls)])"
    and "readFrom decode fault sv (map_of files (tl_path t)) t = (n, eof, t1)"
  shows "tail_inv decode today files t1 (past @ [(tl_path t, ls @ found fault (map_of files (tl_path t)) t)])"
proof -
  let ?new = "found fault (map_of files (tl_path t)) t"
  note inv = assms(1) [unfolded tail_inv_snoc] and f = readFrom_facts [OF assms(2)]
  have "unseen t = (\<lambda>_. True)" using inv by (simp add: unseen_def fun_eq_iff)
  then have obs: "tl_obs t1 = decoded decode (concat (map snd past) @ ls @ ?new)" using f inv by simp
  have pre: "case map_of files (tl_path t) of Some c \<Rightarrow> \<exists>rest. c = concat (ls @ ?new) @ rest | None \<Rightarrow> tl_path t = today \<longrightarrow> ls @ ?new = []"
  proof (cases "map_of files (tl_path t)")
    case (Some c)
    then show ?thesis using found_prefix [of c ls _ t fault] inv by auto
  next
    case None
    then have new: "?new = []" by (simp add: found_def)
    show ?thesis unfolding new using inv None by simp
  qed
  have "saved_ok (past @ [(tl_path t, ls @ ?new)]) (tl_saved t1)"
    using saved_ok_within [of past t ls ?new "tl_saved t1"] inv f by blast
  moreover have "list_all is_line (ls @ ?new)" using inv found_lines by simp
  ultimately show ?thesis unfolding tail_inv_snoc using inv f obs pre by simp
qed

lemma saved_to_today: "tl_saved (to_today sv today t) = tl_saved t
    \<or> (\<exists>ts. tl_saved (to_today sv today t) = Some \<lparr>cp_path = today, cp_offset = 0, cp_lastTs = ts\<rparr>)"
  using saved_persist [of sv "dropDedup (t\<lparr>tl_path := today, tl_off := 0\<rparr>)"] by (auto simp: to_today_def dropDedup_def split: if_splits)

lemma to_today_simps [simp]:
  "tl_path (to_today sv today t) = today" "tl_off (to_today sv today t) = 0" "tl_obs (to_today sv today t) = tl_obs t"
  "\<not> tl_dedup (to_today sv today t)"
  by (simp_all add: to_today_def dropDedup_def)

lemma inv_to_today:
  assumes "tail_inv decode today files t (past @ [(tl_path t, ls)])" "tl_path t \<noteq> today"
  shows "tail_inv decode today files (to_today sv today t) ((past @ [(tl_path t, ls)]) @ [(today, [])])"
proof -
  note inv = assms(1) [unfolded tail_inv_snoc]
  have "saved_ok ((past @ [(tl_path t, ls)]) @ [(today, [])]) (tl_saved (to_today sv today t))"
    using saved_to_today [of sv today t]
  proof (elim disjE exE)
    assume "tl_saved (to_today sv today t) = tl_saved t"
    then show ?thesis using saved_ok_snoc inv by metis
  next
    fix ts assume s: "tl_saved (to_today sv today t) = Some \<lparr>cp_path = today, cp_offset = 0, cp_lastTs = ts\<rparr>"
    show ?thesis unfolding s saved_ok_def option.case by (rule exI [of _ "[]"], rule exI [of _ 0]) simp
  qed
  then show ?thesis unfolding tail_inv_snoc using inv assms(2) by (auto split: option.split)
qed

lemma inv_round:
  assumes "tail_inv decode today files t vis" "tail_round decode today files fault sv t = t'"
  shows "tail_inv decode today files t' (round_log today files fault t t' vis)"
proof -
  obtain past ls where v: "vis = past @ [(tl_path t, ls)]" by (rule tail_inv_split [OF assms(1)])
  let ?new = "found fault (map_of files (tl_path t)) t"
  note inv = assms(1) [unfolded v]
  have ne: "tl_path t \<noteq> []" using inv unfolding tail_inv_snoc by blast
  obtain n eof t1 where r: "readFrom decode fault sv (map_of files (tl_path t)) t = (n, eof, t1)"
    and t': "t' = t1 \<or> t' = dropDedup t1 \<and> tl_path t = today
      \<or> t' = to_today sv today t1 \<and> tl_path t \<noteq> today \<and> ?new = []"
    by (rule tail_round_cases [OF assms(2) ne])
  note f = readFrom_facts [OF r]
  note inv1 = inv_read [OF inv r]
  have dd: "dropDedup t1 = t1" using inv1 unfolding tail_inv_snoc by (intro dropDedup_off) blast
  show ?thesis
  proof (cases "tl_path t' = tl_path t")
    case True
    then have "t' = t1" using t' dd by auto
    then show ?thesis using inv1 f ne by (simp add: round_log_def add_lines_def v)
  next
    case False
    then have t2: "t' = to_today sv today t1" "tl_path t \<noteq> today" "?new = []" using t' dd f by auto
    then have inv2: "tail_inv decode today files t1 (past @ [(tl_path t1, ls)])" using inv1 f by simp
    have "tl_path t1 \<noteq> today" using t2(2) f by simp
    from inv_to_today [OF inv2 this, of sv] show ?thesis
      using t2 f ne by (simp add: round_log_def add_lines_def v)
  qed
qed

lemma tail_run_inv: "tail_run decode today files t vis \<Longrightarrow> tail_inv decode today files t vis"
  by (induction rule: tail_run.induct) (auto intro: inv_fresh inv_grow inv_round inv_midnight inv_rotate)

subsection \<open>Properties\<close>



definition demo_decode :: "bytes \<Rightarrow> xdetail option" where
  "demo_decode l = (if l = [CHR 0x0A] then None else Some (demo_detail\<lparr>x_RequestID := butlast l\<rparr>))"

definition demo_file :: bytes where
  "demo_file = ''a'' @ [CHR 0x0A, CHR 0x0A] @ ''b'' @ [CHR 0x0A] @ ''half''"

lemma demo_lines: "lines_of demo_file = [''a'' @ [CHR 0x0A], [CHR 0x0A], ''b'' @ [CHR 0x0A]]"
  by (simp add: demo_file_def allLines.simps)


abbreviation demo_tailer :: tailer where
  "demo_tailer \<equiv> (newTailer None)\<lparr>tl_path := ''d'', tl_off := 0\<rparr>"

lemma demo_tail_run: "tail_run demo_decode ''d'' [(''d'', demo_file)] demo_tailer [(''d'', [])]"
  by (rule tail_run.fresh) simp


text \<open>Property C6 (a restart skips nothing).  The checkpoint on disk is never ahead: a new process that
  resumes from it begins right after lines the old one had given to \<open>observe\<close>, and its first
  round without a fault gives every complete line from there on.\<close>

theorem restart_skips_nothing:
  assumes "tail_run decode today files t vis" and "tl_saved t = Some cp" and "cp_path cp = tl_path t"
    and "map_of files (tl_path t) = Some c"
    and "tail_start server url lag tz now today' files (newTailer (Some cp)) = Some t2"
  shows "\<exists>past k more. tl_obs t = past @ decoded decode (take k (lines_of c)) @ more
    \<and> tl_obs (tail_round decode today' files NoFault sv t2) = decoded decode (drop k (lines_of c))"
proof -
  note inv0 = tail_run_inv [OF assms(1)]
  obtain past ls where v: "vis = past @ [(tl_path t, ls)]" by (rule tail_inv_split [OF inv0])
  note inv = inv0 [unfolded v]
  obtain rest where c: "c = concat ls @ rest" and ls: "list_all is_line ls" and d: "tl_path t \<notin> fst ` set past" "tl_path t \<noteq> []"
    and obs: "tl_obs t = decoded decode (concat (map snd past) @ ls)" and sv: "saved_ok (past @ [(tl_path t, ls)]) (Some cp)"
    using inv assms(2,4) unfolding tail_inv_snoc by auto
  obtain l k where l: "(cp_path cp, l) \<in> set (past @ [(tl_path t, ls)])" "k \<le> length l" "cp_offset cp = int (length (concat (take k l)))"
    using sv by (auto simp: saved_ok_def)
  have "l = ls" using l(1) d(1) assms(3) by force
  then have off: "cp_offset cp = int (length (concat (take k ls)))" "k \<le> length ls" using l by simp_all
  have lc: "lines_of c = ls @ lines_of rest" unfolding c by (rule lines_of_concat [OF ls])
  have c2: "c = concat (take k ls) @ (concat (drop k ls) @ rest)"
    unfolding c by (metis append.assoc append_take_drop_id concat_append)
  have t2: "tl_path t2 = tl_path t" "tl_off t2 = cp_offset cp" "tl_obs t2 = []" "\<not> tl_dedup t2"
    using assms(3,4,5) d(2) by (auto simp: tail_start_def newTailer_def)
  have ne2: "tl_path t2 \<noteq> []" using t2(1) d(2) by simp
  obtain n eof t3 where r: "readFrom decode NoFault sv (map_of files (tl_path t2)) t2 = (n, eof, t3)"
    and t': "tail_round decode today' files NoFault sv t2 = t3
      \<or> tail_round decode today' files NoFault sv t2 = dropDedup t3 \<and> tl_path t2 = today'
      \<or> tail_round decode today' files NoFault sv t2 = to_today sv today' t3 \<and> tl_path t2 \<noteq> today' \<and> found NoFault (map_of files (tl_path t2)) t2 = []"
    by (rule tail_round_cases [OF refl ne2])
  have "list_all is_line (drop k ls)" using ls by (metis append_take_drop_id list_all_append)
  then have "lines_of (concat (drop k ls) @ rest) = drop k ls @ lines_of rest" by (rule lines_of_concat)
  then have new: "found NoFault (map_of files (tl_path t2)) t2 = drop k (lines_of c)"
    using found_continues(1) [OF c2, of t2] off t2(1,2) assms(4) lc by simp
  have "unseen t2 = (\<lambda>_. True)" using t2(4) by (simp add: unseen_def fun_eq_iff)
  then have "tl_obs t3 = decoded decode (drop k (lines_of c))" using readFrom_facts [OF r] t2(3) new by simp
  moreover have "tl_obs (dropDedup t3) = tl_obs t3" by (simp add: dropDedup_def)
  ultimately have "tl_obs (tail_round decode today' files NoFault sv t2) = decoded decode (drop k (lines_of c))" using t' by auto
  moreover have "take k (lines_of c) = take k ls" using lc off(2) by simp
  then have "tl_obs t = decoded decode (concat (map snd past)) @ decoded decode (take k (lines_of c)) @ decoded decode (drop k ls)"
    using obs by (metis append_take_drop_id tail_decoded_simps(2))
  ultimately show ?thesis by blast
qed

text \<open>The tailer of \<open>demo_tail_run\<close> after one round: it has read both lines and saved where it is.\<close>

abbreviation demo_after :: tailer where
  "demo_after \<equiv> tail_round demo_decode ''d'' [(''d'', demo_file)] NoFault True demo_tailer"

lemma demo_saved: "tl_saved demo_after = Some (tl_cp demo_after)" "cp_path (tl_cp demo_after) = ''d''" "tl_path demo_after = ''d''"
  "cp_offset (tl_cp demo_after) = 5"
  by (simp_all add: tail_round_def readFrom_def demo_lines [simplified demo_file_def] demo_file_def allLines.simps handleLine_def demo_decode_def
      newTailer_def persist_def touchTs_def firstNonEmpty_def Let_def)

theorem restart_skips_nothing_witness:
  "\<exists>past k more t2. tail_start (\<lambda>_ _ _. None) False 0 0 \<lparr>ns = 0, zone = 0\<rparr> ''d'' [(''d'', demo_file)] (newTailer (Some (tl_cp demo_after))) = Some t2
    \<and> tl_obs demo_after = past @ decoded demo_decode (take k (lines_of demo_file)) @ more
    \<and> tl_obs (tail_round demo_decode ''d'' [(''d'', demo_file)] NoFault True t2) = decoded demo_decode (drop k (lines_of demo_file))"
proof -
  have run: "tail_run demo_decode ''d'' [(''d'', demo_file)] demo_after
      (round_log ''d'' [(''d'', demo_file)] NoFault demo_tailer demo_after [(''d'', [])])"
    by (rule tail_run.round [OF demo_tail_run refl])
  have content: "map_of [(''d'', demo_file)] (tl_path demo_after) = Some demo_file" by (simp add: demo_saved)
  obtain t2 where start: "tail_start (\<lambda>_ _ _. None) False 0 0 \<lparr>ns = 0, zone = 0\<rparr> ''d'' [(''d'', demo_file)] (newTailer (Some (tl_cp demo_after))) = Some t2"
    using demo_saved(2) by (simp add: tail_start_def newTailer_def)
  have path: "cp_path (tl_cp demo_after) = tl_path demo_after" by (simp only: demo_saved)
  show ?thesis using restart_skips_nothing [OF run demo_saved(1) path content start, of True] start by blast
qed

subsection \<open>A day that is skipped\<close>

text \<open>At the end of its file the tailer goes on with the file of the present day, whichever files lie
  between: after a stop over two midnights the day in between is in its directory and is not read.\<close>

lemma between_not_read:
  assumes "tl_path t \<notin> {[], today}" "map_of files (tl_path t) = Some c" "tl_off t = int (length c)"
  shows "tail_round decode today files NoFault sv t = to_today sv today t"
  using assms by (simp add: tail_round_def readFrom_def allLines.simps)

definition three_days :: "bytes \<Rightarrow> (string \<times> bytes) list" where
  "three_days c = [(''1'', demo_file), (''2'', c), (''3'', demo_file)]"

lemma skipped_day:
  "\<exists>t. tail_start (\<lambda>_ _ _. None) False 0 0 \<lparr>ns = 0, zone = 0\<rparr> ''3'' (three_days c)
        (newTailer (Some \<lparr>cp_path = ''1'', cp_offset = int (length demo_file), cp_lastTs = []\<rparr>)) = Some t
    \<and> (let t' = tail_round demo_decode ''3'' (three_days c) NoFault True t in tl_path t' = ''3'' \<and> tl_off t' = 0 \<and> tl_obs t' = [])"
  by (simp add: tail_start_def newTailer_def three_days_def between_not_read)

end
