(* ===== verification/Exporter_Roles.thy ===== *)
theory Exporter_Roles
  imports Go_Strings
begin

text \<open>
  The exporter's requests to the Kubernetes API and the engine counts per role
  (\<open>bodylog-exporter-go/pd_roles.go\<close>).

  Parameters: the answers of the API server during one refresh, as a function of the URL (\<open>get\<close>:
  the body of a 200, or an error that may carry a status), the decoding of a body, the clock.  Go's
  \<open>int\<close> has 64 bits and no sum of fewer than 2^32 replica counts overflows it, so it is an \<open>int\<close>
  here; an \<open>int32\<close> of the API is a 32-bit word.
\<close>

subsection \<open>Requests\<close>

datatype api_error = HttpStatus int | OtherError

type_synonym api = "string \<Rightarrow> api_error + bytes"

text \<open>\<open>url.QueryEscape\<close>.\<close>

definition hex_upper :: "nat \<Rightarrow> char" where
  "hex_upper d = (if d < 10 then char_of (48 + d) else char_of (55 + d))"

definition unreserved :: "char \<Rightarrow> bool" where
  "unreserved c = (let b = of_char c :: nat in
     48 \<le> b \<and> b \<le> 57 \<or> 65 \<le> b \<and> b \<le> 90 \<or> 97 \<le> b \<and> b \<le> 122
     \<or> c = CHR ''-'' \<or> c = CHR ''_'' \<or> c = CHR ''.'' \<or> c = CHR ''~'')"

definition queryEscape :: "string \<Rightarrow> string" where
  "queryEscape s = concat (map (\<lambda>c. if unreserved c then [c] else if c = CHR '' '' then ''+''
     else [CHR ''%'', hex_upper (of_char c div 16), hex_upper (of_char c mod 16)]) s)"

subsection \<open>Data\<close>

definition pdNameLabel :: string where "pdNameLabel = ''disaggregatedset.x-k8s.io/name''"
definition pdRoleLabel :: string where "pdRoleLabel = ''disaggregatedset.x-k8s.io/role''"
definition pdRoleRouter :: string where "pdRoleRouter = ''router''"
definition pdRetryAfter :: int where "pdRetryAfter = 30 * 60 * 1000000000"
definition pdKnownRoles :: "string list" where "pdKnownRoles = [''prefill'', ''decode'']"

record pdRoleRep =
  pd_n :: int
  pd_ready :: int
  pd_desired :: int
  pd_slices :: int
  pd_withSpec :: int

definition zero_rep :: pdRoleRep where
  "zero_rep = \<lparr>pd_n = 0, pd_ready = 0, pd_desired = 0, pd_slices = 0, pd_withSpec = 0\<rparr>"

definition desiredOK :: "pdRoleRep \<Rightarrow> bool" where
  "desiredOK p \<longleftrightarrow> pd_slices p > 0 \<and> pd_withSpec p = pd_slices p"

record lwsItem =
  lw_Namespace :: string
  lw_Name :: string
  lw_Labels :: "(string \<times> string) list"
  lw_Spec :: "32 word option"
  lw_Replicas :: "32 word option"
  lw_Ready :: "32 word option"

definition deref32 :: "32 word option \<Rightarrow> int" where
  "deref32 p = (case p of None \<Rightarrow> 0 | Some w \<Rightarrow> sint w)"

text \<open>A Go map read at a key it may not have: the empty string.\<close>

definition label :: "(string \<times> string) list \<Rightarrow> string \<Rightarrow> string" where
  "label ls k = (case map_of ls k of None \<Rightarrow> [] | Some v \<Rightarrow> v)"

type_synonym roles = "(string \<times> (string \<times> pdRoleRep) list) list"

text \<open>The retry state: the time before which not to ask, and the unknown roles already logged.\<close>

record pdState =
  pd_skipUntil :: int
  pd_unknown :: "string list"

subsection \<open>Operations\<close>

definition rep_add :: "lwsItem \<Rightarrow> pdRoleRep \<Rightarrow> pdRoleRep" where
  "rep_add it rep =
    (let rep1 = rep\<lparr>pd_slices := pd_slices rep + 1, pd_n := pd_n rep + deref32 (lw_Replicas it),
                    pd_ready := pd_ready rep + deref32 (lw_Ready it)\<rparr>
     in case lw_Spec it of
          None \<Rightarrow> rep1
        | Some w \<Rightarrow> rep1\<lparr>pd_desired := pd_desired rep1 + sint w, pd_withSpec := pd_withSpec rep1 + 1\<rparr>)"

text \<open>\<open>out[key][role]\<close>, created when it is missing.\<close>

definition count_item :: "lwsItem \<Rightarrow> roles \<Rightarrow> roles" where
  "count_item it out =
    (let key = lw_Namespace it @ ''/'' @ label (lw_Labels it) pdNameLabel;
         role = label (lw_Labels it) pdRoleLabel;
         byRole = (case map_of out key of None \<Rightarrow> [] | Some m \<Rightarrow> m);
         rep = (case map_of byRole role of None \<Rightarrow> zero_rep | Some r \<Rightarrow> r)
     in put key (put role (rep_add it rep) byRole) out)"

definition pd_step :: "lwsItem \<Rightarrow> roles \<times> pdState \<Rightarrow> roles \<times> pdState" where
  "pd_step it s = (case s of (out, st) \<Rightarrow>
    (let ds = label (lw_Labels it) pdNameLabel; role = label (lw_Labels it) pdRoleLabel in
     if ds = [] \<or> role = [] then (out, st)
     else if role \<notin> set pdKnownRoles then
       (out, if role \<in> set (pd_unknown st) then st else st\<lparr>pd_unknown := role # pd_unknown st\<rparr>)
     else (count_item it out, st)))"

definition lws_url :: "string \<Rightarrow> string \<Rightarrow> string \<Rightarrow> string" where
  "lws_url apiBase grp version =
     apiBase @ ''/apis/'' @ grp @ ''/'' @ version @ ''/leaderworkersets?labelSelector='' @ queryEscape pdNameLabel"

text \<open>\<open>nil\<close>, which every reader treats as an empty map, is \<open>[]\<close>.  \<open>now\<close> and \<open>later\<close> are the two
  readings of the clock.\<close>

definition pdRoles ::
  "(bytes \<Rightarrow> lwsItem list option) \<Rightarrow> string \<Rightarrow> string \<Rightarrow> string \<Rightarrow> api \<Rightarrow> int \<Rightarrow> int \<Rightarrow> pdState \<Rightarrow> roles \<times> pdState" where
  "pdRoles decode apiBase grp version get now later st =
    (if grp = [] then ([], st)
     else if now < pd_skipUntil st then ([], st)
     else case get (lws_url apiBase grp version) of
         Inl (HttpStatus code) \<Rightarrow>
           if code = 404 \<or> code = 403 then ([], st\<lparr>pd_skipUntil := later + pdRetryAfter\<rparr>) else ([], st)
       | Inl OtherError \<Rightarrow> ([], st)
       | Inr body \<Rightarrow> (case decode body of None \<Rightarrow> ([], st) | Some items \<Rightarrow> fold pd_step items ([], st)))"

definition pdRoleNames :: "(string \<times> pdRoleRep) list \<Rightarrow> string list" where
  "pdRoleNames byRole = sort (map fst byRole)"

definition pdKey :: "string \<Rightarrow> string \<Rightarrow> string" where
  "pdKey ns name = ns @ ''/'' @ trimSuffix name ''-leader''"

subsection \<open>The counts are a grouping\<close>

text \<open>Items that are counted, and the pair they are counted under.\<close>

definition counts :: "lwsItem \<Rightarrow> bool" where
  "counts it \<longleftrightarrow> label (lw_Labels it) pdNameLabel \<noteq> [] \<and> label (lw_Labels it) pdRoleLabel \<in> set pdKnownRoles"

definition item_key :: "lwsItem \<Rightarrow> string \<times> string" where
  "item_key it = (lw_Namespace it @ ''/'' @ label (lw_Labels it) pdNameLabel, label (lw_Labels it) pdRoleLabel)"

definition rep_of :: "roles \<Rightarrow> string \<times> string \<Rightarrow> pdRoleRep option" where
  "rep_of out kr = (case map_of out (fst kr) of None \<Rightarrow> None | Some m \<Rightarrow> map_of m (snd kr))"

definition roles_ok :: "roles \<Rightarrow> bool" where
  "roles_ok out \<longleftrightarrow> wf_map out \<and> (\<forall>k m. map_of out k = Some m \<longrightarrow> wf_map m \<and> m \<noteq> [])"

lemma put_nonempty [simp]: "put k v m \<noteq> []"
  by (cases m) auto

lemma count_item_ok: "roles_ok out \<Longrightarrow> roles_ok (count_item it out)"
  by (auto simp: roles_ok_def count_item_def Let_def split: option.split)

lemma count_item_rep:
  "rep_of (count_item it out) kr = (if item_key it = kr
     then Some (case rep_of out kr of None \<Rightarrow> rep_add it zero_rep | Some r \<Rightarrow> rep_add it r) else rep_of out kr)"
  by (cases kr) (auto simp: rep_of_def count_item_def item_key_def Let_def split: option.split)

interpretation engines: keyed_fold item_key "\<lambda>it. rep_add it zero_rep" rep_add roles_ok "[]" count_item rep_of
  by unfold_locales (simp_all add: count_item_ok count_item_rep, simp_all add: roles_ok_def rep_of_def)

text \<open>What the sum of some items is, field by field.\<close>

lemma reps_sum:
  assumes "r = fold rep_add its r0"
  shows "pd_n r = pd_n r0 + (\<Sum>it \<leftarrow> its. deref32 (lw_Replicas it))"
    and "pd_ready r = pd_ready r0 + (\<Sum>it \<leftarrow> its. deref32 (lw_Ready it))"
    and "pd_desired r = pd_desired r0 + (\<Sum>it \<leftarrow> its. deref32 (lw_Spec it))"
    and "pd_slices r = pd_slices r0 + int (length its)"
    and "pd_withSpec r = pd_withSpec r0 + int (length (filter (\<lambda>it. lw_Spec it \<noteq> None) its))"
  unfolding assms
  by (induction its arbitrary: r0) (auto simp: rep_add_def Let_def deref32_def split: option.split)

lemma empty_not_known: "[] \<notin> set pdKnownRoles"
  by (simp add: pdKnownRoles_def)

lemma pd_step_counts: "fst (pd_step it (out, st)) = (if counts it then count_item it out else out)"
  using empty_not_known by (auto simp: pd_step_def counts_def Let_def)

lemma pd_steps: "fst (fold pd_step items (out, st)) = fold count_item (filter counts items) out"
proof (induction items arbitrary: out st)
  case (Cons it items)
  obtain out1 st1 where s: "pd_step it (out, st) = (out1, st1)" by fastforce
  then have "out1 = (if counts it then count_item it out else out)" using pd_step_counts [of it out st] by simp
  then show ?case using s Cons by simp
qed simp

lemma withSpec_all: "length (filter P xs) = length xs \<longleftrightarrow> (\<forall>x \<in> set xs. P x)"
  by (metis filter_True length_filter_less less_irrefl)

lemma reps_desired:
  assumes "r = fold rep_add its zero_rep" "its \<noteq> []"
  shows "desiredOK r \<longleftrightarrow> (\<forall>it \<in> set its. lw_Spec it \<noteq> None)"
  unfolding desiredOK_def reps_sum(4,5) [OF assms(1)] using withSpec_all [of "\<lambda>it. lw_Spec it \<noteq> None" its] assms(2)
  by (simp add: zero_rep_def del: not_None_eq)

text \<open>Property C28 (engine counts).  The counts of a role of a release are the sums over exactly the
  LeaderWorkerSets labelled with it, an absent status being 0, and its desired count is offered
  exactly when every one of them has its own; only the known roles appear.\<close>

theorem engine_counts:
  assumes "fst (pdRoles decode apiBase grp version get now later st) = out"
    and "grp \<noteq> []" "\<not> now < pd_skipUntil st" "get (lws_url apiBase grp version) = Inr body" "decode body = Some items"
  shows "case rep_of out (release, role) of
      None \<Rightarrow> \<forall>it \<in> set items. \<not> (counts it \<and> item_key it = (release, role))
    | Some r \<Rightarrow> role \<in> set pdKnownRoles \<and> (\<exists>its. its = filter (\<lambda>it. counts it \<and> item_key it = (release, role)) items \<and> its \<noteq> []
        \<and> pd_n r = (\<Sum>it \<leftarrow> its. deref32 (lw_Replicas it)) \<and> pd_ready r = (\<Sum>it \<leftarrow> its. deref32 (lw_Ready it))
        \<and> (desiredOK r \<longleftrightarrow> (\<forall>it \<in> set its. lw_Spec it \<noteq> None))
        \<and> pd_desired r = (\<Sum>it \<leftarrow> its. deref32 (lw_Spec it)))"
proof -
  let ?its = "filter (\<lambda>it. counts it \<and> item_key it = (release, role)) items"
  have out: "out = fold count_item (filter counts items) []" using assms by (simp add: pdRoles_def pd_steps)
  have get: "rep_of out (release, role) = (case ?its of [] \<Rightarrow> None | y # ys \<Rightarrow> Some (fold rep_add ys (rep_add y zero_rep)))"
    unfolding out engines.grouped_get grouped_def by (simp add: conj_commute)
  show ?thesis
  proof (cases ?its)
    case Nil
    then show ?thesis using get by (simp add: filter_empty_conv)
  next
    case (Cons y ys)
    define r where "r = fold rep_add ys (rep_add y zero_rep)"
    have r: "r = fold rep_add ?its zero_rep" by (simp only: r_def Cons fold_Cons comp_apply)
    note f = reps_sum [OF r]
    have "y \<in> set ?its" by (simp add: Cons)
    then have "role \<in> set pdKnownRoles" by (auto simp: counts_def item_key_def)
    moreover have "desiredOK r \<longleftrightarrow> (\<forall>it \<in> set ?its. lw_Spec it \<noteq> None)"
      by (rule reps_desired [OF r]) (simp add: Cons)
    moreover have "rep_of out (release, role) = Some r" by (simp add: get Cons r_def)
    ultimately show ?thesis using f(1-3) Cons by (simp add: zero_rep_def)
  qed
qed

definition demo_lws :: "string \<Rightarrow> 32 word option \<Rightarrow> lwsItem" where
  "demo_lws role spec = \<lparr>lw_Namespace = ''kimi'', lw_Name = ''k'', lw_Labels = [(pdNameLabel, ''k2''), (pdRoleLabel, role)],
     lw_Spec = spec, lw_Replicas = Some 2, lw_Ready = None\<rparr>"

definition demo_items :: "lwsItem list" where
  "demo_items = [demo_lws ''prefill'' (Some 3), demo_lws ''decode'' None, demo_lws ''other'' None, demo_lws ''prefill'' (Some 1)]"

lemmas demo_item_defs = demo_items_def demo_lws_def counts_def item_key_def label_def pdNameLabel_def pdRoleLabel_def pdKnownRoles_def

theorem engine_counts_witness:
  "\<exists>r. rep_of (fst (pdRoles (\<lambda>_. Some demo_items) [] ''g'' ''v'' (\<lambda>_. Inr []) 5 6 \<lparr>pd_skipUntil = 5, pd_unknown = []\<rparr>))
      (''kimi/k2'', ''prefill'') = Some r \<and> desiredOK r \<and> pd_desired r = 4 \<and> pd_n r = 4 \<and> pd_ready r = 0"
proof -
  have "\<not> (5::int) < pd_skipUntil \<lparr>pd_skipUntil = 5, pd_unknown = []\<rparr>" "''g'' \<noteq> []" by simp_all
  from engine_counts [OF refl this(2,1), where get = "\<lambda>_. Inr []" and decode = "\<lambda>_. Some demo_items" and later = 6
      and apiBase = "[]" and version = "''v''" and release = "''kimi/k2''" and role = "''prefill''", OF refl refl]
  show ?thesis by (auto simp: demo_item_defs deref32_def split: option.splits)
qed

end
