(* ===== verification/Exporter_Routes.thy ===== *)
theory Exporter_Routes
  imports Exporter_Roles Exporter_Metrics
begin

text \<open>
  The exporter's route resolver (\<open>bodylog-exporter-go/route_endpoints.go\<close>): listing the
  ModelRoutes, the pods behind each, the desired replicas of their workload, the snapshot that
  \<open>observe\<close> and the poller read, the replica gauges.

  Parameters: the API server's answers during one refresh (\<open>get\<close>, a function of the URL) and the
  decoding of its bodies (\<open>decoders\<close>, \<open>encoding/json\<close>).
\<close>

subsection \<open>Data\<close>

record mroute =
  mr_Name :: string
  mr_Namespace :: string
  mr_ModelType :: string
  mr_Route :: string
  mr_Service :: string
  mr_OutputConfigMap :: string
  mr_Peers :: nat
  mr_Discovery :: string

text \<open>An endpoint: its addresses, \<open>conditions.ready\<close>, and the kind and name of its target.\<close>

record endpoint =
  ep_Addresses :: "string list"
  ep_Ready :: "bool option"
  ep_Target :: "(string \<times> string) option"

record ownerRef =
  or_APIVersion :: string
  or_Kind :: string
  or_Name :: string
  or_Controller :: "bool option"

record ownerObj =
  oo_Owners :: "ownerRef list"
  oo_Replicas :: "int option"

record decoders =
  de_routes :: "bytes \<Rightarrow> mroute list option"
  de_slices :: "bytes \<Rightarrow> endpoint list list option"
  de_owner :: "bytes \<Rightarrow> ownerObj option"
  de_lws :: "bytes \<Rightarrow> lwsItem list option"

record routeInfo =
  ri_route :: string
  ri_service :: string

record pollTarget =
  pt_base :: string
  pt_route :: string
  pt_service :: string

record svcRep =
  sr_service :: string
  sr_route :: string
  sr_role :: string
  sr_n :: int
  sr_ready :: int
  sr_desired :: int
  sr_desiredOK :: bool

record rconf =
  rc_groups :: "string list"
  rc_version :: string
  rc_plural :: string
  rc_nginxService :: string
  rc_perService :: bool
  rc_pollPort :: int
  rc_pdGroup :: string
  rc_pdVersion :: string
  rc_apiBase :: string

record resolveResult =
  rr_byIP :: "(string \<times> routeInfo) list"
  rr_reps :: "svcRep list"
  rr_routes :: "string list"
  rr_svc :: "(string \<times> string) list"
  rr_targets :: "pollTarget list"

text \<open>A Prometheus gauge vector: label values to value.\<close>

type_synonym gauge_vec = "(string list \<times> float64) list"

record resolver =
  rv_byIP :: "(string \<times> routeInfo) list"
  rv_routes :: "string list"
  rv_svc :: "(string \<times> string) list"
  rv_targets :: "pollTarget list"
  rv_pd :: pdState
  rv_replicas :: gauge_vec
  rv_ready :: gauge_vec
  rv_desired :: gauge_vec
  rv_up :: int
  rv_errs :: nat
  rv_pods :: nat
  rv_routesG :: nat

subsection \<open>Names\<close>

definition routeName :: "string \<Rightarrow> string \<Rightarrow> string \<Rightarrow> nat \<Rightarrow> string" where
  "routeName name route outputConfigMap peers =
    (let r = trimSpace route in
     if r \<noteq> [] then r
     else if trimSpace outputConfigMap = [] \<and> peers = 0 then []
     else trimSpace name)"

definition splitGroups :: "string \<Rightarrow> string list" where
  "splitGroups s = filter (\<lambda>g. g \<noteq> []) (map trimSpace (splitByte CHR '','' s))"

definition normalizeServiceLabel :: "string \<Rightarrow> string" where
  "normalizeServiceLabel svc = trimSuffix svc ''-leader''"

definition splitNsName :: "string \<Rightarrow> string \<times> string" where
  "splitNsName s = (case indexByte s CHR ''/'' of
      Some i \<Rightarrow> (take i s, drop (i + 1) s)
    | None \<Rightarrow> (''default'', s))"

definition openrestyBase :: "rconf \<Rightarrow> string \<Rightarrow> string \<Rightarrow> string" where
  "openrestyBase conf nginxService mrNamespace =
    (let s = trimSpace nginxService in
     if \<not> rc_perService conf \<or> s = [] then []
     else case (case indexByte s CHR ''/'' of Some i \<Rightarrow> (take i s, drop (i + 1) s) | None \<Rightarrow> (mrNamespace, s)) of
       (nsp, name) \<Rightarrow> if name = [] \<or> nsp = [] then []
         else ''http://'' @ name @ ''.'' @ nsp @ ''.svc:'' @ formatInt (rc_pollPort conf))"

definition baseName :: "string \<Rightarrow> string" where
  "baseName base = (if base = [] then ''OPENRESTY_POLL_URL'' else base)"

fun firstTargetService :: "pollTarget list \<Rightarrow> string \<Rightarrow> string \<Rightarrow> string" where
  "firstTargetService [] base route = []"
| "firstTargetService (t # ts) base route =
     (if pt_base t = base \<and> pt_route t = route then pt_service t else firstTargetService ts base route)"

fun equalStrs :: "string list \<Rightarrow> string list \<Rightarrow> bool" where
  "equalStrs [] [] = True"
| "equalStrs (a # as) (b # bs) = (a = b \<and> equalStrs as bs)"
| "equalStrs _ _ = False"

text \<open>\<open>strings.ToLower\<close> on ASCII text, which a Kubernetes kind is.\<close>

definition toLower :: "string \<Rightarrow> string" where
  "toLower s = map (\<lambda>c. let b = of_char c :: nat in if 65 \<le> b \<and> b \<le> 90 then char_of (b + 32) else c) s"

subsection \<open>Listing the ModelRoutes\<close>

datatype list_error = GetFailed api_error | BadList string | NotServed "string list"

definition group_url :: "rconf \<Rightarrow> string \<Rightarrow> string" where
  "group_url conf g = rc_apiBase conf @ ''/apis/'' @ g @ ''/'' @ rc_version conf @ ''/'' @ rc_plural conf"

fun merge_items :: "mroute list \<Rightarrow> string list \<times> mroute list \<Rightarrow> string list \<times> mroute list" where
  "merge_items [] s = s"
| "merge_items (it # its) (seen, out) =
     (if mr_Name it \<noteq> [] then
        (let k = mr_Namespace it @ ''/'' @ mr_Name it in
         if k \<in> set seen then merge_items its (seen, out) else merge_items its (k # seen, out @ [it]))
      else merge_items its (seen, out @ [it]))"

fun list_groups ::
  "rconf \<Rightarrow> (bytes \<Rightarrow> mroute list option) \<Rightarrow> api \<Rightarrow> string list \<Rightarrow> nat \<Rightarrow> string list \<times> mroute list \<Rightarrow> list_error + mroute list" where
  "list_groups conf decode get [] served s =
     (if served = 0 then Inl (NotServed (rc_groups conf)) else Inr (snd s))"
| "list_groups conf decode get (g # gs) served s = (case get (group_url conf g) of
       Inl e \<Rightarrow> if e = HttpStatus 404 then list_groups conf decode get gs served s else Inl (GetFailed e)
     | Inr body \<Rightarrow> (case decode body of
         None \<Rightarrow> Inl (BadList g)
       | Some items \<Rightarrow> list_groups conf decode get gs (served + 1) (merge_items items s)))"

definition listModelRoutes :: "rconf \<Rightarrow> (bytes \<Rightarrow> mroute list option) \<Rightarrow> api \<Rightarrow> list_error + mroute list" where
  "listModelRoutes conf decode get = list_groups conf decode get (rc_groups conf) 0 ([], [])"

subsection \<open>The pods of a service\<close>

definition slices_url :: "rconf \<Rightarrow> string \<Rightarrow> string \<Rightarrow> string" where
  "slices_url conf nsp name = rc_apiBase conf @ ''/apis/discovery.k8s.io/v1/namespaces/'' @ nsp
     @ ''/endpointslices?labelSelector='' @ queryEscape (''kubernetes.io/service-name='' @ name)"

definition add_endpoint :: "endpoint \<Rightarrow> string list \<times> int \<times> string \<Rightarrow> string list \<times> int \<times> string" where
  "add_endpoint ep s = (case s of (ips, ready, samplePod) \<Rightarrow>
    (let isReady = (case ep_Ready ep of None \<Rightarrow> True | Some b \<Rightarrow> b) in
     (ips @ ep_Addresses ep,
      if isReady then ready + int (length (ep_Addresses ep)) else ready,
      case ep_Target ep of
        Some (kind, name) \<Rightarrow> if samplePod = [] \<and> kind = ''Pod'' then name else samplePod
      | None \<Rightarrow> samplePod)))"

definition podIPsForService ::
  "rconf \<Rightarrow> (bytes \<Rightarrow> endpoint list list option) \<Rightarrow> api \<Rightarrow> string \<Rightarrow> string \<Rightarrow> (string list \<times> int \<times> string) option" where
  "podIPsForService conf decode get nsp name = (case get (slices_url conf nsp name) of
      Inl e \<Rightarrow> None
    | Inr body \<Rightarrow> (case decode body of
        None \<Rightarrow> None
      | Some slices \<Rightarrow> Some (fold (fold add_endpoint) slices ([], 0, []))))"

subsection \<open>Desired replicas\<close>

definition ownerWalkMaxDepth :: nat where
  "ownerWalkMaxDepth = 5"

type_synonym obj_ref = "string \<times> string \<times> string"

definition owner_url :: "rconf \<Rightarrow> string \<Rightarrow> obj_ref \<Rightarrow> string" where
  "owner_url conf nsp ref = (case ref of (apiVersion, kind, name) \<Rightarrow>
    rc_apiBase conf @ (if contains apiVersion ''/'' then ''/apis/'' else ''/api/'') @ apiVersion
      @ ''/namespaces/'' @ nsp @ ''/'' @ toLower kind @ ''s'' @ ''/'' @ name)"

definition owner_key :: "string \<Rightarrow> obj_ref \<Rightarrow> string" where
  "owner_key nsp ref = (case ref of (apiVersion, kind, name) \<Rightarrow>
     apiVersion @ ''/'' @ kind @ ''/'' @ nsp @ ''/'' @ name)"

type_synonym owner_cache = "(string \<times> ownerObj) list"

definition getOwnerObj ::
  "rconf \<Rightarrow> (bytes \<Rightarrow> ownerObj option) \<Rightarrow> api \<Rightarrow> string \<Rightarrow> obj_ref \<Rightarrow> owner_cache \<Rightarrow> ownerObj option \<times> owner_cache" where
  "getOwnerObj conf decode get nsp ref cache = (case map_of cache (owner_key nsp ref) of
      Some o1 \<Rightarrow> (Some o1, cache)
    | None \<Rightarrow> (case get (owner_url conf nsp ref) of
        Inl e \<Rightarrow> (None, cache)
      | Inr body \<Rightarrow> (case decode body of
          None \<Rightarrow> (None, cache)
        | Some o1 \<Rightarrow> (Some o1, put (owner_key nsp ref) o1 cache))))"

text \<open>The first owner reference that is the controller.\<close>

definition controller_of :: "ownerObj \<Rightarrow> obj_ref option" where
  "controller_of o1 = map_option (\<lambda>r. (or_APIVersion r, or_Kind r, or_Name r))
     (List.find (\<lambda>r. or_Controller r = Some True) (oo_Owners o1))"

fun owner_walk ::
  "rconf \<Rightarrow> (bytes \<Rightarrow> ownerObj option) \<Rightarrow> api \<Rightarrow> string \<Rightarrow> nat \<Rightarrow> obj_ref \<Rightarrow> owner_cache \<Rightarrow> int option \<times> owner_cache" where
  "owner_walk conf decode get nsp 0 ref cache = (None, cache)"
| "owner_walk conf decode get nsp (Suc depth) ref cache = (case getOwnerObj conf decode get nsp ref cache of
      (None, cache1) \<Rightarrow> (None, cache1)
    | (Some o1, cache1) \<Rightarrow> (case controller_of o1 of
        None \<Rightarrow> (oo_Replicas o1, cache1)
      | Some ref1 \<Rightarrow> owner_walk conf decode get nsp depth ref1 cache1))"

definition desiredForPod ::
  "rconf \<Rightarrow> (bytes \<Rightarrow> ownerObj option) \<Rightarrow> api \<Rightarrow> string \<Rightarrow> string \<Rightarrow> owner_cache \<Rightarrow> int option \<times> owner_cache" where
  "desiredForPod conf decode get nsp pod cache =
     owner_walk conf decode get nsp ownerWalkMaxDepth (''v1'', ''Pod'', pod) cache"

subsection \<open>One refresh\<close>

text \<open>The local variables of \<open>build\<close>: the result, the routes and targets seen, the objects fetched.\<close>

record building =
  bl_res :: resolveResult
  bl_seen :: "string list"
  bl_seenTarget :: "string list"
  bl_owners :: owner_cache

definition start_building :: building where
  "start_building = \<lparr>bl_res = \<lparr>rr_byIP = [], rr_reps = [], rr_routes = [], rr_svc = [], rr_targets = []\<rparr>,
     bl_seen = [], bl_seenTarget = [], bl_owners = []\<rparr>"

definition item_route :: "mroute \<Rightarrow> string" where
  "item_route it = routeName (mr_Name it) (mr_Route it) (mr_OutputConfigMap it) (mr_Peers it)"

definition item_label :: "mroute \<Rightarrow> string" where
  "item_label it = normalizeServiceLabel (trimSpace (mr_Discovery it))"

definition polled :: "rconf \<Rightarrow> mroute \<Rightarrow> bool" where
  "polled conf it \<longleftrightarrow>
     (let mt = trimSpace (mr_ModelType it) in mt = [] \<or> mt = ''llm'')
     \<and> (rc_nginxService conf = [] \<or> trimSpace (mr_Service it) = rc_nginxService conf)"

definition target_key :: "string \<Rightarrow> string \<Rightarrow> string" where
  "target_key base route = base @ ''|'' @ route"

definition build_poll :: "rconf \<Rightarrow> mroute \<Rightarrow> building \<Rightarrow> building" where
  "build_poll conf it b =
    (if polled conf it then
       (let route = item_route it; base = openrestyBase conf (mr_Service it) (mr_Namespace it);
            k = target_key base route;
            b1 = (if route \<in> set (bl_seen b) then b
                  else b\<lparr>bl_seen := route # bl_seen b, bl_res := (bl_res b)\<lparr>rr_routes := rr_routes (bl_res b) @ [route]\<rparr>\<rparr>)
        in if k \<in> set (bl_seenTarget b1) then b1
           else b1\<lparr>bl_seenTarget := k # bl_seenTarget b1,
             bl_res := (bl_res b1)\<lparr>rr_targets := rr_targets (bl_res b1) @
               [\<lparr>pt_base = base, pt_route = route, pt_service = item_label it\<rparr>]\<rparr>\<rparr>)
     else b)"

text \<open>The replica counts of one service: the engines of a disaggregated release, in role order, and
  then the pods behind the service itself.\<close>

definition role_reps :: "string \<Rightarrow> string \<Rightarrow> (string \<times> pdRoleRep) list \<Rightarrow> svcRep list" where
  "role_reps service route byRole = map (\<lambda>role. let pr = (case map_of byRole role of Some r \<Rightarrow> r | None \<Rightarrow> zero_rep) in
     \<lparr>sr_service = service, sr_route = route, sr_role = role, sr_n = pd_n pr, sr_ready = pd_ready pr,
      sr_desired = pd_desired pr, sr_desiredOK = desiredOK pr\<rparr>) (pdRoleNames byRole)"

definition build_pods ::
  "rconf \<Rightarrow> decoders \<Rightarrow> api \<Rightarrow> roles \<Rightarrow> mroute \<Rightarrow> string \<Rightarrow> string \<Rightarrow> string list \<times> int \<times> string \<Rightarrow> building \<Rightarrow> building" where
  "build_pods conf de get pdByDS it nsp name pods b = (case pods of (ips, ready, samplePod) \<Rightarrow>
    (let ri = \<lparr>ri_route = item_route it, ri_service = item_label it\<rparr>;
         byIP = fold (\<lambda>ip m. put ip ri m) ips (rr_byIP (bl_res b));
         (d, owners) = (if samplePod \<noteq> [] then desiredForPod conf (de_owner de) get nsp samplePod (bl_owners b) else (None, bl_owners b));
         byRole = (case map_of pdByDS (pdKey nsp name) of None \<Rightarrow> [] | Some m \<Rightarrow> m);
         rep = \<lparr>sr_service = item_label it, sr_route = item_route it, sr_role = (if byRole \<noteq> [] then pdRoleRouter else []),
                sr_n = int (length ips), sr_ready = ready,
                sr_desired = (case d of Some n \<Rightarrow> n | None \<Rightarrow> 0), sr_desiredOK = (d \<noteq> None)\<rparr>
     in b\<lparr>bl_owners := owners,
          bl_res := (bl_res b)\<lparr>rr_byIP := byIP,
            rr_reps := rr_reps (bl_res b) @ role_reps (item_label it) (item_route it) byRole @ [rep]\<rparr>\<rparr>))"

definition build_item :: "rconf \<Rightarrow> decoders \<Rightarrow> api \<Rightarrow> roles \<Rightarrow> mroute \<Rightarrow> building \<Rightarrow> building" where
  "build_item conf de get pdByDS it b =
    (let route = item_route it; svc = trimSpace (mr_Discovery it) in
     if route = [] then b
     else
       (let b1 = b\<lparr>bl_res := (bl_res b)\<lparr>rr_svc := put route (item_label it) (rr_svc (bl_res b))\<rparr>\<rparr>;
            b2 = build_poll conf it b1
        in if svc = [] then b2
           else case splitNsName svc of (nsp, name) \<Rightarrow>
             if name = [] then b2
             else case podIPsForService conf (de_slices de) get nsp name of
                 None \<Rightarrow> b2
               | Some pods \<Rightarrow> build_pods conf de get pdByDS it nsp name pods b2))"

definition build :: "rconf \<Rightarrow> decoders \<Rightarrow> api \<Rightarrow> int \<Rightarrow> int \<Rightarrow> pdState \<Rightarrow> (list_error + resolveResult) \<times> pdState" where
  "build conf de get now later pd = (case listModelRoutes conf (de_routes de) get of
      Inl e \<Rightarrow> (Inl e, pd)
    | Inr items \<Rightarrow>
        (case pdRoles (de_lws de) (rc_apiBase conf) (rc_pdGroup conf) (rc_pdVersion conf) get now later pd of (pdByDS, pd1) \<Rightarrow>
          (let res = bl_res (fold (build_item conf de get pdByDS) items start_building)
           in (Inr (res\<lparr>rr_routes := sort (rr_routes res)\<rparr>), pd1))))"

text \<open>\<open>float64(n)\<close>; and \<open>WithLabelValues(service, route, role).Set(v)\<close>.\<close>

definition rep_labels :: "svcRep \<Rightarrow> string list" where
  "rep_labels rp = [sr_service rp, sr_route rp, sr_role rp]"

definition refresh :: "rconf \<Rightarrow> decoders \<Rightarrow> api \<Rightarrow> int \<Rightarrow> int \<Rightarrow> resolver \<Rightarrow> resolver" where
  "refresh conf de get now later r = (case build conf de get now later (rv_pd r) of
      (Inl e, pd1) \<Rightarrow> r\<lparr>rv_pd := pd1, rv_errs := rv_errs r + 1, rv_up := 0\<rparr>
    | (Inr res, pd1) \<Rightarrow> \<lparr>rv_byIP = rr_byIP res, rv_routes = rr_routes res, rv_svc = rr_svc res, rv_targets = rr_targets res,
        rv_pd = pd1,
        rv_replicas = fold (\<lambda>rp g. put (rep_labels rp) (fl (of_int (sr_n rp))) g) (rr_reps res) [],
        rv_ready = fold (\<lambda>rp g. put (rep_labels rp) (fl (of_int (sr_ready rp))) g) (rr_reps res) [],
        rv_desired = fold (\<lambda>rp g. if sr_desiredOK rp then put (rep_labels rp) (fl (of_int (sr_desired rp))) g else g) (rr_reps res) [],
        rv_up = 1, rv_errs = rv_errs r, rv_pods = length (rr_byIP res), rv_routesG = length (rr_routes res)\<rparr>)"

subsection \<open>Readers\<close>

definition getRoutes :: "resolver \<Rightarrow> string list" where
  "getRoutes r = rv_routes r"

definition getTargets :: "resolver \<Rightarrow> pollTarget list" where
  "getTargets r = rv_targets r"

definition serviceFor :: "resolver \<Rightarrow> string \<Rightarrow> string" where
  "serviceFor r route = (case map_of (rv_svc r) route of None \<Rightarrow> [] | Some s \<Rightarrow> s)"

definition Lookup :: "resolver \<Rightarrow> string \<Rightarrow> (string \<times> string) option" where
  "Lookup r ip = (if ip = [] then None
     else map_option (\<lambda>ri. (ri_route ri, ri_service ri)) (map_of (rv_byIP r) ip))"

end
