(* ===== verification/Exporter_Routes_Facts.thy ===== *)
theory Exporter_Routes_Facts
  imports Exporter_Routes
begin

text \<open>
  What one refresh of the route resolver guarantees: which ModelRoutes it sees, what it offers for
  polling, to which route it attributes a pod, how far it follows owners, what stays when it fails.
\<close>

subsection \<open>First occurrences\<close>

text \<open>The elements of a list that have no key, and the first one with each key.\<close>

definition firsts :: "('x \<Rightarrow> 'k option) \<Rightarrow> 'x list \<Rightarrow> 'x list" where
  "firsts key xs = map ((!) xs) (filter (\<lambda>i. key (xs ! i) = None \<or> (\<forall>j < i. key (xs ! j) \<noteq> key (xs ! i))) [0..<length xs])"

lemma firsts_Nil [simp]: "firsts key [] = []"
  by (simp add: firsts_def)

lemma firsts_snoc: "firsts key (xs @ [x]) = firsts key xs @ (if key x = None \<or> key x \<notin> key ` set xs then [x] else [])"
proof -
  let ?keep = "\<lambda>ys i. key (ys ! i) = None \<or> (\<forall>j < i. key (ys ! j) \<noteq> key (ys ! i))"
  have f: "filter (?keep (xs @ [x])) [0..<length xs] = filter (?keep xs) [0..<length xs]"
    by (rule filter_cong) (simp_all add: nth_append)
  have m: "map ((!) (xs @ [x])) (filter (?keep xs) [0..<length xs]) = firsts key xs"
    unfolding firsts_def by (rule map_cong) (simp_all add: nth_append)
  have k: "?keep (xs @ [x]) (length xs) \<longleftrightarrow> key x = None \<or> key x \<notin> key ` set xs"
  proof -
    have "(\<forall>j < length xs. key (xs ! j) \<noteq> key x) \<longleftrightarrow> (\<forall>y \<in> set xs. key y \<noteq> key x)" by (simp add: all_set_conv_all_nth)
    moreover have "(\<forall>y \<in> set xs. key y \<noteq> key x) \<longleftrightarrow> key x \<notin> key ` set xs" by (auto simp: image_iff)
    ultimately show ?thesis by (simp add: nth_append)
  qed
  have "firsts key (xs @ [x]) = map ((!) (xs @ [x])) (filter (?keep (xs @ [x])) [0..<length xs])
      @ (if ?keep (xs @ [x]) (length xs) then [x] else [])"
    unfolding firsts_def by simp
  then show ?thesis unfolding f m k by simp
qed

lemma firsts_Cons: "firsts key (x # xs) = x # firsts key (filter (\<lambda>y. key y = None \<or> key y \<noteq> key x) xs)"
proof (induction xs rule: rev_induct)
  case Nil
  show ?case by (simp add: firsts_def)
next
  case (snoc y xs)
  let ?f = "filter (\<lambda>y. key y = None \<or> key y \<noteq> key x)"
  have "key y \<notin> key ` set (x # xs) \<longleftrightarrow> key y \<noteq> key x \<and> key y \<notin> key ` set (?f xs)" if "key y \<noteq> None"
    using that by (auto simp: image_iff)
  then show ?case using snoc firsts_snoc [of key "x # xs" y] by (auto simp: firsts_snoc)
qed

lemma firsts_keys: "key ` set (firsts key xs) = key ` set xs"
  by (induction xs rule: rev_induct) (auto simp: firsts_snoc)

lemma firsts_distinct: "(\<And>x. x \<in> set xs \<Longrightarrow> key x \<noteq> None) \<Longrightarrow> distinct (map key (firsts key xs))"
proof (induction xs rule: rev_induct)
  case (snoc x xs)
  have "distinct (map key (firsts key xs))" by (rule snoc.IH) (use snoc.prems in simp)
  moreover have "key x \<noteq> None" using snoc.prems by simp
  ultimately show ?case using firsts_keys [of key xs] by (auto simp: firsts_snoc)
qed simp

subsection \<open>Listing\<close>

definition mr_key :: "mroute \<Rightarrow> string option" where
  "mr_key it = (if mr_Name it = [] then None else Some (mr_Namespace it @ ''/'' @ mr_Name it))"

definition merged_ok :: "mroute list \<Rightarrow> string list \<times> mroute list \<Rightarrow> bool" where
  "merged_ok its s \<longleftrightarrow> Some ` set (fst s) = mr_key ` set its - {None} \<and> snd s = firsts mr_key its"

lemma merge_items_ok: "merged_ok its s \<Longrightarrow> merged_ok (its @ new) (merge_items new s)"
proof (induction new arbitrary: its s)
  case (Cons it new)
  obtain seen out where s: "s = (seen, out)" by (cases s)
  have known: "k \<in> set seen \<longleftrightarrow> Some k \<in> mr_key ` set its" for k
    using Cons.prems by (auto simp: s merged_ok_def set_eq_iff image_iff)
  show ?case
  proof (cases "mr_key it")
    case None
    then have n: "mr_Name it = []" by (auto simp: mr_key_def split: if_splits)
    have "merged_ok (its @ [it]) (seen, out @ [it])" using Cons.prems None by (auto simp: s merged_ok_def firsts_snoc)
    from Cons.IH [OF this] show ?thesis by (simp add: s n)
  next
    case (Some k)
    then have n: "mr_Name it \<noteq> []" "k = mr_Namespace it @ ''/'' @ mr_Name it" by (auto simp: mr_key_def split: if_splits)
    show ?thesis
    proof (cases "k \<in> set seen")
      case True
      then have "merged_ok (its @ [it]) (seen, out)"
        using Cons.prems Some known [of k] by (auto simp: s merged_ok_def firsts_snoc)
      from Cons.IH [OF this] show ?thesis using True n by (simp add: s Let_def)
    next
      case False
      then have "merged_ok (its @ [it]) (k # seen, out @ [it])"
        using Cons.prems Some known [of k] by (auto simp: s merged_ok_def firsts_snoc)
      from Cons.IH [OF this] show ?thesis using False n by (simp add: s Let_def)
    qed
  qed
qed simp

text \<open>The answer for one group: not served, a failure, or its objects.\<close>

definition group_answer :: "rconf \<Rightarrow> (bytes \<Rightarrow> mroute list option) \<Rightarrow> api \<Rightarrow> string \<Rightarrow> list_error + mroute list option" where
  "group_answer conf decode get g = (case get (group_url conf g) of
      Inl e \<Rightarrow> if e = HttpStatus 404 then Inr None else Inl (GetFailed e)
    | Inr body \<Rightarrow> (case decode body of None \<Rightarrow> Inl (BadList g) | Some items \<Rightarrow> Inr (Some items)))"

definition group_items :: "rconf \<Rightarrow> (bytes \<Rightarrow> mroute list option) \<Rightarrow> api \<Rightarrow> string \<Rightarrow> mroute list" where
  "group_items conf decode get g = (case group_answer conf decode get g of Inr (Some items) \<Rightarrow> items | _ \<Rightarrow> [])"

lemma list_groups_step: "list_groups conf decode get (g # gs) served s = (case group_answer conf decode get g of
    Inl e \<Rightarrow> Inl e | Inr None \<Rightarrow> list_groups conf decode get gs served s
  | Inr (Some items) \<Rightarrow> list_groups conf decode get gs (served + 1) (merge_items items s))"
  by (auto simp: group_answer_def split: sum.split option.split)

declare list_groups.simps(2) [simp del]

lemma list_groups_ok:
  assumes "merged_ok its s"
  shows "list_groups conf decode get gs served s = Inr out \<longleftrightarrow>
    (\<forall>g \<in> set gs. \<exists>a. group_answer conf decode get g = Inr a)
    \<and> (0 < served \<or> (\<exists>g \<in> set gs. \<exists>items. group_answer conf decode get g = Inr (Some items)))
    \<and> out = firsts mr_key (its @ concat (map (group_items conf decode get) gs))"
  using assms
proof (induction gs arbitrary: served s its)
  case Nil
  then show ?case by (auto simp: merged_ok_def)
next
  case (Cons g gs)
  show ?case
  proof (cases "group_answer conf decode get g")
    case (Inl e)
    then show ?thesis by (simp add: list_groups_step)
  next
    case (Inr a)
    show ?thesis
    proof (cases a)
      case None
      then show ?thesis using Inr Cons by (simp add: list_groups_step group_items_def)
    next
      case (Some items)
      note IH = Cons.IH [OF merge_items_ok [OF Cons.prems, of items], of "served + 1"]
      show ?thesis using Inr Some IH by (simp add: list_groups_step group_items_def)
    qed
  qed
qed

text \<open>Property C26 (which ModelRoutes).  A listing succeeds exactly when no served group fails and at
  least one is served; it then holds, in order, every object of the served groups, one that several
  groups have only once and as the earliest group has it.\<close>

theorem listing_exact:
  "listModelRoutes conf decode get = Inr out \<longleftrightarrow>
    (\<forall>g \<in> set (rc_groups conf). \<exists>a. group_answer conf decode get g = Inr a)
    \<and> (\<exists>g \<in> set (rc_groups conf). \<exists>items. group_answer conf decode get g = Inr (Some items))
    \<and> out = firsts mr_key (concat (map (group_items conf decode get) (rc_groups conf)))"
proof -
  have "merged_ok [] ([], [])" by (simp add: merged_ok_def)
  from list_groups_ok [OF this] show ?thesis by (simp add: listModelRoutes_def)
qed

definition demo_route :: "string \<Rightarrow> string \<Rightarrow> mroute" where
  "demo_route name svc = \<lparr>mr_Name = name, mr_Namespace = ''n'', mr_ModelType = [], mr_Route = ''r'', mr_Service = svc,
     mr_OutputConfigMap = [], mr_Peers = 0, mr_Discovery = ''n/s-leader''\<rparr>"

definition demo_conf :: rconf where
  "demo_conf = \<lparr>rc_groups = [''old'', ''new''], rc_version = ''v'', rc_plural = ''p'', rc_nginxService = [], rc_perService = True,
     rc_pollPort = 8080, rc_pdGroup = [], rc_pdVersion = [], rc_apiBase = ''h''\<rparr>"

theorem listing_exact_witness:
  "listModelRoutes demo_conf (\<lambda>b. Some [demo_route ''a'' b]) (\<lambda>u. Inr u) = Inr [demo_route ''a'' ''h/apis/old/v/p'']"
proof -
  let ?d = "\<lambda>b. Some [demo_route ''a'' b]" and ?g = "\<lambda>u. Inr u :: api_error + bytes"
  have items: "group_items demo_conf ?d ?g g = [demo_route ''a'' (''h/apis/'' @ g @ ''/v/p'')]"
      "\<exists>a. group_answer demo_conf ?d ?g g = Inr (Some a)" for g
    by (simp_all add: group_items_def group_answer_def group_url_def demo_conf_def)
  have "firsts mr_key [demo_route ''a'' ''h/apis/old/v/p'', demo_route ''a'' ''h/apis/new/v/p''] = [demo_route ''a'' ''h/apis/old/v/p'']"
    using firsts_snoc [of mr_key "[demo_route ''a'' ''h/apis/old/v/p'']"] firsts_snoc [of mr_key "[]"]
    by (auto simp: demo_route_def mr_key_def)
  moreover have "rc_groups demo_conf = [''old'', ''new'']" by (simp add: demo_conf_def)
  ultimately show ?thesis unfolding listing_exact using items(2) by (auto simp: items(1))
qed

subsection \<open>Poll targets\<close>

definition offered :: "rconf \<Rightarrow> mroute \<Rightarrow> bool" where
  "offered conf it \<longleftrightarrow> item_route it \<noteq> [] \<and> polled conf it"

definition target_of :: "rconf \<Rightarrow> mroute \<Rightarrow> pollTarget" where
  "target_of conf it = \<lparr>pt_base = openrestyBase conf (mr_Service it) (mr_Namespace it), pt_route = item_route it, pt_service = item_label it\<rparr>"

definition offer_key :: "rconf \<Rightarrow> mroute \<Rightarrow> string option" where
  "offer_key conf it = Some (target_key (openrestyBase conf (mr_Service it) (mr_Namespace it)) (item_route it))"

definition route_key :: "mroute \<Rightarrow> string option" where
  "route_key it = Some (item_route it)"

text \<open>What \<open>build\<close> has after some of the items.\<close>

definition polls_ok :: "rconf \<Rightarrow> mroute list \<Rightarrow> building \<Rightarrow> bool" where
  "polls_ok conf its b \<longleftrightarrow>
     Some ` set (bl_seen b) = route_key ` set (filter (offered conf) its)
     \<and> Some ` set (bl_seenTarget b) = offer_key conf ` set (filter (offered conf) its)
     \<and> rr_routes (bl_res b) = map item_route (firsts route_key (filter (offered conf) its))
     \<and> rr_targets (bl_res b) = map (target_of conf) (firsts (offer_key conf) (filter (offered conf) its))"

lemma polls_ok_cong:
  "bl_seen b' = bl_seen b \<Longrightarrow> bl_seenTarget b' = bl_seenTarget b \<Longrightarrow> rr_routes (bl_res b') = rr_routes (bl_res b) \<Longrightarrow>
   rr_targets (bl_res b') = rr_targets (bl_res b) \<Longrightarrow> polls_ok conf its b' = polls_ok conf its b"
  by (simp add: polls_ok_def)

lemma build_pods_polls: "polls_ok conf its (build_pods conf de get pds it nsp name pods b) = polls_ok conf its b"
  by (rule polls_ok_cong) (auto simp: build_pods_def Let_def split: prod.splits)

lemma build_poll_polls:
  assumes "polls_ok conf its b" "item_route it \<noteq> []"
  shows "polls_ok conf (its @ [it]) (build_poll conf it b)"
proof (cases "polled conf it")
  case False
  then show ?thesis using assms by (simp add: build_poll_def polls_ok_def offered_def)
next
  case True
  let ?its = "filter (offered conf) its"
  have off: "filter (offered conf) (its @ [it]) = ?its @ [it]" using assms True by (simp add: offered_def)
  have r: "item_route it \<in> set (bl_seen b) \<longleftrightarrow> route_key it \<in> route_key ` set ?its"
    using assms(1) unfolding polls_ok_def route_key_def by (metis (no_types, lifting) image_iff option.inject)
  have t: "target_key (openrestyBase conf (mr_Service it) (mr_Namespace it)) (item_route it) \<in> set (bl_seenTarget b)
      \<longleftrightarrow> offer_key conf it \<in> offer_key conf ` set ?its"
    using assms(1) unfolding polls_ok_def offer_key_def by (metis (no_types, lifting) image_iff option.inject)
  show ?thesis
    using assms True r t unfolding polls_ok_def off
    by (auto simp: build_poll_def Let_def firsts_snoc target_of_def route_key_def offer_key_def)
qed

lemma build_item_polls: "polls_ok conf its b \<Longrightarrow> polls_ok conf (its @ [it]) (build_item conf de get pds it b)"
proof (cases "item_route it = []")
  case True
  assume "polls_ok conf its b"
  then show ?thesis using True by (simp add: build_item_def polls_ok_def offered_def)
next
  case False
  let ?b = "b\<lparr>bl_res := (bl_res b)\<lparr>rr_svc := put (item_route it) (item_label it) (rr_svc (bl_res b))\<rparr>\<rparr>"
  assume "polls_ok conf its b"
  then have "polls_ok conf its ?b" by (simp add: polls_ok_def)
  then have "polls_ok conf (its @ [it]) (build_poll conf it ?b)" using False by (rule build_poll_polls)
  then show ?thesis using False by (simp add: build_item_def Let_def build_pods_polls split: prod.split option.split)
qed

lemma build_polls: "polls_ok conf items (fold (build_item conf de get pds) items start_building)"
proof (induction items rule: rev_induct)
  case Nil
  show ?case by (simp add: polls_ok_def start_building_def)
next
  case (snoc it items)
  then show ?case by (simp add: build_item_polls)
qed

lemma build_ok: "listModelRoutes conf (de_routes de) get = Inr items \<Longrightarrow> \<exists>res pd1. build conf de get now later pd = (Inr res, pd1)"
  by (cases "pdRoles (de_lws de) (rc_apiBase conf) (rc_pdGroup conf) (rc_pdVersion conf) get now later pd") (simp add: build_def Let_def)

text \<open>Property C25 (what is polled).  A successful refresh offers the poller one target per openresty and
  route of the ModelRoutes that are routed, are served by the engine and belong to the configured
  openresty, labelled with the service of the first that claims it; its route list is sorted
  and without duplicates.\<close>

theorem targets_exact:
  assumes "build conf de get now later pd = (Inr res, pd1)" and "listModelRoutes conf (de_routes de) get = Inr items"
  shows "rr_targets res = map (target_of conf) (firsts (offer_key conf) (filter (offered conf) items))
    \<and> distinct (map (\<lambda>t. target_key (pt_base t) (pt_route t)) (rr_targets res))
    \<and> rr_routes res = sorted_list_of_set (item_route ` {it \<in> set items. offered conf it})"
proof -
  obtain pds pd2 where b: "res = (bl_res (fold (build_item conf de get pds) items start_building))\<lparr>rr_routes :=
      sort (rr_routes (bl_res (fold (build_item conf de get pds) items start_building)))\<rparr>"
    using assms by (auto simp: build_def Let_def split: prod.splits)
  have p: "polls_ok conf items (fold (build_item conf de get pds) items start_building)" by (rule build_polls)
  let ?its = "filter (offered conf) items"
  have t: "rr_targets res = map (target_of conf) (firsts (offer_key conf) ?its)" using p by (simp add: b polls_ok_def)
  have "distinct (map (offer_key conf) (firsts (offer_key conf) ?its))" by (rule firsts_distinct) (simp add: offer_key_def)
  then have d: "distinct (map (\<lambda>t. Some (target_key (pt_base t) (pt_route t))) (rr_targets res))"
    by (simp add: t target_of_def comp_def flip: offer_key_def)
  have "distinct (map route_key (firsts route_key ?its))" by (rule firsts_distinct) (simp add: route_key_def)
  then have d1: "distinct (map item_route (firsts route_key ?its))"
    by (simp add: route_key_def distinct_map inj_on_def)
  have "item_route ` set (firsts route_key ?its) = item_route ` {it \<in> set items. offered conf it}"
    using arg_cong [OF firsts_keys [of route_key ?its], of "(`) the"] by (simp add: image_image route_key_def)
  moreover have "rr_routes res = sort (map item_route (firsts route_key ?its))" using p by (simp add: b polls_ok_def)
  ultimately have "rr_routes res = sorted_list_of_set (item_route ` {it \<in> set items. offered conf it})"
    using sorted_list_of_set_sort_remdups [of "map item_route (firsts route_key ?its)"] distinct_remdups_id [OF d1] by simp
  moreover have "distinct (map (\<lambda>t. target_key (pt_base t) (pt_route t)) (rr_targets res))"
    using d by (simp add: distinct_map inj_on_def)
  ultimately show ?thesis using t by blast
qed

definition demo_decoders :: decoders where
  "demo_decoders = \<lparr>de_routes = (\<lambda>b. Some [demo_route ''a'' ''or'', demo_route ''b'' '' or'', demo_route ''c'' []]), de_slices = (\<lambda>_. None),
     de_owner = (\<lambda>_. None), de_lws = (\<lambda>_. None)\<rparr>"

text \<open>Three ModelRoutes with one route, two on the same openresty and one on the default.\<close>

definition demo_three :: "mroute list" where
  "demo_three = [demo_route ''a'' ''or'', demo_route ''b'' '' or'', demo_route ''c'' []]"

lemma demo_three_listed: "listModelRoutes (demo_conf\<lparr>rc_groups := [''g'']\<rparr>) (\<lambda>_. Some demo_three) (\<lambda>_. Inr []) = Inr demo_three"
  by (simp add: listModelRoutes_def list_groups_step group_answer_def demo_conf_def demo_three_def demo_route_def)

lemma demo_texts: "trimSpace '' or'' = ''or''" "trimSpace ''or'' = ''or''" "trimSpace ''r'' = ''r''" "trimSpace ''n/s-leader'' = ''n/s-leader''"
  "trimSpace [] = []" "trimSuffix ''n/s-leader'' ''-leader'' = ''n/s''"
  by code_simp+

lemma demo_port: "formatInt 8080 = ''8080''"
  by (simp add: formatInt_def formatNat.simps digit_char_def digit_chars)

lemma demo_routes: "item_route (demo_route n s) = ''r''" "item_label (demo_route n s) = ''n/s''"
  by (simp_all add: demo_route_def item_route_def routeName_def item_label_def normalizeServiceLabel_def demo_texts)

lemma demo_offered: "offered (demo_conf\<lparr>rc_groups := gs\<rparr>) (demo_route n s)"
  unfolding offered_def demo_routes by (simp add: polled_def demo_conf_def demo_route_def demo_texts)

lemma demo_bases: "openrestyBase (demo_conf\<lparr>rc_groups := gs\<rparr>) ''or'' ''n'' = ''http://or.n.svc:8080''"
    "openrestyBase (demo_conf\<lparr>rc_groups := gs\<rparr>) '' or'' ''n'' = ''http://or.n.svc:8080''"
    "openrestyBase (demo_conf\<lparr>rc_groups := gs\<rparr>) [] ''n'' = []"
  by (simp_all add: demo_conf_def openrestyBase_def demo_texts demo_port)

lemma demo_targets: "firsts (offer_key (demo_conf\<lparr>rc_groups := gs\<rparr>)) demo_three = [demo_route ''a'' ''or'', demo_route ''c'' []]"
proof -
  have k: "offer_key (demo_conf\<lparr>rc_groups := gs\<rparr>) (demo_route n s) = Some (openrestyBase (demo_conf\<lparr>rc_groups := gs\<rparr>) s ''n'' @ ''|r'')" for n s
    by (simp add: offer_key_def demo_routes target_key_def) (simp add: demo_route_def)
  show ?thesis by (simp add: demo_three_def firsts_Cons k demo_bases)
qed

theorem targets_exact_witness:
  "\<exists>res pd1. build (demo_conf\<lparr>rc_groups := [''g'']\<rparr>) (demo_decoders\<lparr>de_routes := (\<lambda>_. Some demo_three)\<rparr>) (\<lambda>_. Inr []) 0 0
      \<lparr>pd_skipUntil = 0, pd_unknown = []\<rparr> = (Inr res, pd1)
    \<and> map (\<lambda>t. (pt_base t, pt_service t)) (rr_targets res) = [(''http://or.n.svc:8080'', ''n/s''), ([], ''n/s'')] \<and> rr_routes res = [''r'']"
proof -
  let ?c = "demo_conf\<lparr>rc_groups := [''g'']\<rparr>" and ?d = "demo_decoders\<lparr>de_routes := (\<lambda>_. Some demo_three)\<rparr>"
    and ?get = "\<lambda>_. Inr [] :: api_error + bytes" and ?pd = "\<lparr>pd_skipUntil = 0, pd_unknown = []\<rparr>"
  have l: "listModelRoutes ?c (de_routes ?d) ?get = Inr demo_three" using demo_three_listed by simp
  obtain res pd1 where b: "build ?c ?d ?get 0 0 ?pd = (Inr res, pd1)"
    using build_ok [OF l] by blast
  have f: "filter (offered ?c) demo_three = demo_three" by (simp add: demo_three_def demo_offered)
  have t: "rr_targets res = map (target_of ?c) [demo_route ''a'' ''or'', demo_route ''c'' []]"
    using targets_exact [OF b l] unfolding f demo_targets by blast
  have "mr_Service (demo_route n s) = s" "mr_Namespace (demo_route n s) = ''n''" for n s by (simp_all add: demo_route_def)
  then have "map (\<lambda>t. (pt_base t, pt_service t)) (rr_targets res) = [(''http://or.n.svc:8080'', ''n/s''), ([], ''n/s'')]"
    by (simp add: t target_of_def demo_bases demo_routes)
  moreover have "{it \<in> set demo_three. offered ?c it} = set demo_three" by (auto simp: demo_three_def demo_offered)
  then have "item_route ` {it \<in> set demo_three. offered ?c it} = {''r''}" by (simp add: demo_three_def demo_routes)
  then have "rr_routes res = [''r'']" using targets_exact [OF b l] by simp
  ultimately show ?thesis by (intro exI conjI) (rule b)
qed

subsection \<open>Attribution\<close>

text \<open>The addresses a ModelRoute contributes: those of its service, when it is routed and answered.\<close>

definition item_ips :: "rconf \<Rightarrow> decoders \<Rightarrow> api \<Rightarrow> mroute \<Rightarrow> string list" where
  "item_ips conf de get it =
    (let svc = trimSpace (mr_Discovery it) in
     if item_route it = [] \<or> svc = [] \<or> snd (splitNsName svc) = [] then []
     else case podIPsForService conf (de_slices de) get (fst (splitNsName svc)) (snd (splitNsName svc)) of
       None \<Rightarrow> [] | Some (ips, _, _) \<Rightarrow> ips)"

definition info_of :: "mroute \<Rightarrow> routeInfo" where
  "info_of it = \<lparr>ri_route = item_route it, ri_service = item_label it\<rparr>"

lemma put_all: "map_of (fold (\<lambda>ip m. put ip v m) ips m) ip = (if ip \<in> set ips then Some v else map_of m ip)"
  by (induction ips arbitrary: m) auto

lemma build_poll_byIP [simp]: "rr_byIP (bl_res (build_poll conf it b)) = rr_byIP (bl_res b)"
  by (simp add: build_poll_def Let_def)

lemma build_pods_byIP: "rr_byIP (bl_res (build_pods conf de get pds it nsp name pods b)) = fold (\<lambda>ip m. put ip (info_of it) m) (fst pods) (rr_byIP (bl_res b))"
  by (auto simp: build_pods_def Let_def info_of_def split: prod.splits)

lemma build_item_byIP: "map_of (rr_byIP (bl_res (build_item conf de get pds it b))) ip =
    (if ip \<in> set (item_ips conf de get it) then Some (info_of it) else map_of (rr_byIP (bl_res b)) ip)"
  by (auto simp: build_item_def item_ips_def Let_def build_pods_byIP put_all split: prod.splits option.splits)

lemma build_byIP: "map_of (rr_byIP (bl_res (fold (build_item conf de get pds) items start_building))) ip =
    map_option info_of (List.find (\<lambda>it. ip \<in> set (item_ips conf de get it)) (rev items))"
proof (induction items rule: rev_induct)
  case Nil
  show ?case by (simp add: start_building_def)
next
  case (snoc it items)
  then show ?case by (simp add: build_item_byIP)
qed

text \<open>Property C21 (attribution).  After a successful refresh a detail line is given the route and
  service of the last listed ModelRoute whose service has the address of its backend, port and
  retry marks aside, and \<open>unknown\<close> when none has it.\<close>

theorem attribution:
  assumes "listModelRoutes conf (de_routes de) get = Inr items" and "backendIP backend \<noteq> []"
  shows "resolve (Some (Lookup (refresh conf de get now later r))) backend =
    (case List.find (\<lambda>it. backendIP backend \<in> set (item_ips conf de get it)) (rev items) of
       None \<Rightarrow> (''unknown'', ''unknown'')
     | Some it \<Rightarrow> (item_route it, orDefault (item_label it) ''unknown''))"
proof -
  obtain pds pd1 where pd: "pdRoles (de_lws de) (rc_apiBase conf) (rc_pdGroup conf) (rc_pdVersion conf) get now later (rv_pd r) = (pds, pd1)"
    by fastforce
  let ?ip = "backendIP backend"
  let ?find = "List.find (\<lambda>it. ?ip \<in> set (item_ips conf de get it)) (rev items)"
  have "rv_byIP (refresh conf de get now later r) = rr_byIP (bl_res (fold (build_item conf de get pds) items start_building))"
    using assms(1) pd by (simp add: refresh_def build_def Let_def)
  then have look: "Lookup (refresh conf de get now later r) ?ip = map_option (\<lambda>it. (item_route it, item_label it)) ?find"
    using assms(2) by (simp add: Lookup_def build_byIP option.map_comp comp_def info_of_def)
  have "item_route it \<noteq> []" if "?find = Some it" for it
  proof -
    have "?ip \<in> set (item_ips conf de get it)" using that by (auto simp: find_Some_iff)
    then show ?thesis by (auto simp: item_ips_def Let_def split: if_splits)
  qed
  then show ?thesis unfolding resolve_def option.case look
    by (cases ?find) (auto simp: orDefault_def)
qed

text \<open>The pod is behind the service of all three ModelRoutes.\<close>

definition demo_slices :: decoders where
  "demo_slices = demo_decoders\<lparr>de_routes := (\<lambda>_. Some demo_three),
     de_slices := (\<lambda>_. Some [[\<lparr>ep_Addresses = [''10.0.0.5''], ep_Ready = None, ep_Target = None\<rparr>]])\<rparr>"

lemma demo_ips: "item_ips c demo_slices (\<lambda>_. Inr []) (demo_route n s) = [''10.0.0.5'']"
proof -
  have "mr_Discovery (demo_route n s) = ''n/s-leader''" by (simp add: demo_route_def)
  then show ?thesis
    by (simp add: item_ips_def demo_routes demo_texts splitNsName_def podIPsForService_def demo_slices_def add_endpoint_def)
qed

theorem attribution_witness:
  "resolve (Some (Lookup (refresh (demo_conf\<lparr>rc_groups := [''g'']\<rparr>) demo_slices (\<lambda>_. Inr []) 0 0
     \<lparr>rv_byIP = [(''10.0.0.5'', \<lparr>ri_route = ''old'', ri_service = ''old''\<rparr>)], rv_routes = [], rv_svc = [], rv_targets = [],
      rv_pd = \<lparr>pd_skipUntil = 0, pd_unknown = []\<rparr>, rv_replicas = [], rv_ready = [], rv_desired = [], rv_up = 1, rv_errs = 0, rv_pods = 1, rv_routesG = 0\<rparr>)))
     ''10.0.0.5:8050'' = (''r'', ''n/s'')"
proof -
  have l: "listModelRoutes (demo_conf\<lparr>rc_groups := [''g'']\<rparr>) (de_routes demo_slices) (\<lambda>_. Inr []) = Inr demo_three"
    using demo_three_listed by (simp add: demo_slices_def)
  have ip: "backendIP ''10.0.0.5:8050'' = ''10.0.0.5''" by code_simp
  then have ne: "backendIP ''10.0.0.5:8050'' \<noteq> []" by simp
  show ?thesis unfolding attribution [OF l ne] ip
    by (simp add: demo_three_def demo_ips demo_routes orDefault_def)
qed

end
