(* ===== verification/Layout_Facts.thy ===== *)
theory Layout_Facts
  imports Go_Layouts
begin

text \<open>
  RFC 3339 with a fraction: what \<open>Format(time.RFC3339Nano)\<close> writes is read back exactly, and is not
  taken for a number of seconds.
\<close>

subsection \<open>The fraction\<close>

definition strip :: "string \<Rightarrow> string" where
  "strip s = rev (dropWhile (\<lambda>c. c = CHR ''0'') (rev s))"

lemma strip_snoc: "strip (s @ [c]) = (if c = CHR ''0'' then strip s else s @ [c])"
  by (simp add: strip_def)

lemma strip_length: "length (strip s) \<le> length s"
  using length_dropWhile_le [of "\<lambda>c. c = CHR ''0''" "rev s"] by (simp add: strip_def)

lemma strip_value: "nat_of_digits (strip s) * 10 ^ (length s - length (strip s)) = nat_of_digits s"
proof (induction s rule: rev_induct)
  case (snoc c s)
  show ?case
  proof (cases "c = CHR ''0''")
    case True
    have "Suc (length s) - length (strip s) = Suc (length s - length (strip s))" using strip_length [of s] by simp
    moreover have "digit_val CHR ''0'' = 0" by (simp add: digit_val_def)
    ultimately show ?thesis using snoc True by (simp add: strip_snoc)
  qed (simp add: strip_snoc)
qed (simp add: strip_def)

lemma strip_digits: "list_all is_digit s \<Longrightarrow> list_all is_digit (strip s)"
  using set_dropWhileD [of _ "\<lambda>c. c = CHR ''0''" "rev s"] by (auto simp: strip_def list_all_iff)

lemma strip_empty: "strip s = [] \<Longrightarrow> nat_of_digits s = 0"
  using strip_value [of s] by (simp add: nat_of_digits_def)

text \<open>What may follow a fraction: an offset, or nothing a fraction could begin with.\<close>

definition ends_fraction :: "string \<Rightarrow> bool" where
  "ends_fraction s \<longleftrightarrow> (case s of [] \<Rightarrow> True | c # _ \<Rightarrow> \<not> is_digit c \<and> c \<noteq> CHR ''.'' \<and> c \<noteq> CHR '','')"

lemma getfrac_none: "ends_fraction s \<Longrightarrow> getfrac s = (0, s)"
  by (auto simp: getfrac_def ends_fraction_def split: list.split)

lemma takeWhile_digits: "list_all is_digit ds \<Longrightarrow> ends_fraction s \<Longrightarrow> takeWhile is_digit (ds @ s) = ds"
  by (induction ds) (auto simp: ends_fraction_def split: list.splits)

lemma getfrac_strip:
  assumes "n < 10 ^ 9" "ends_fraction s"
  shows "getfrac ((if strip (digits 9 n) = [] then [] else ''.'' @ strip (digits 9 n)) @ s) = (int n, s)"
proof (cases "strip (digits 9 n)")
  case Nil
  then have "n = 0" using strip_empty [OF Nil] assms(1) by simp
  then show ?thesis using Nil getfrac_none [OF assms(2)] by simp
next
  case (Cons d r)
  let ?f = "strip (digits 9 n)"
  have ds: "list_all is_digit (d # r)" using strip_digits [of "digits 9 n"] Cons by simp
  have len: "length (d # r) \<le> 9" using strip_length [of "digits 9 n"] by (simp add: Cons)
  have tw: "takeWhile is_digit (d # r @ s) = d # r" using takeWhile_digits [OF ds assms(2)] by simp
  have "nat_of_digits (d # r) * 10 ^ (9 - length (d # r)) = n"
    using strip_value [of "digits 9 n"] assms(1) by (simp add: Cons)
  then have v: "int (nat_of_digits (d # r)) * 10 ^ (9 - length (d # r)) = int n"
    by (simp flip: of_nat_eq_iff [where 'a = int])
  have fr: "take 9 (d # r) = d # r" using len by simp
  have "getfrac ((''.'' @ (d # r)) @ s) = (int (nat_of_digits (take 9 (d # r))) * 10 ^ (9 - length (take 9 (d # r))), s)"
    using ds unfolding getfrac_def by (simp add: tw Let_def del: takeWhile.simps take_Suc_Cons)
  then show ?thesis unfolding Cons fr v by simp
qed

subsection \<open>Round trip\<close>

lemma zone_ends: "ends_fraction (if z = 0 then ''Z'' else (if z \<le> - 60 then CHR ''-'' else CHR ''+'') # s)"
  by (simp add: ends_fraction_def is_digit_def)

lemma zone_back:
  assumes "z mod 60 = 0" "\<bar>z\<bar> < 25 * 3600"
  shows "zoneRFC3339 (if z = 0 then ''Z'' else (if z \<le> - 60 then CHR ''-'' else CHR ''+'') # digits 2 (nat \<bar>z\<bar> div 60 div 60) @ CHR '':'' # digits 2 (nat \<bar>z\<bar> div 60 mod 60)) = Some (z, [])"
  using getzone_zone [OF assms] by (simp add: zoneRFC3339_def)

text \<open>Years of four digits, and a zone of whole minutes as the format writes it.\<close>

definition four_digit_year :: "gotime \<Rightarrow> bool" where
  "four_digit_year t \<longleftrightarrow> fst (civil_of_days ((unixSec t + zone t) div 86400)) \<in> {0..9999}"

definition printable :: "gotime \<Rightarrow> bool" where
  "printable t \<longleftrightarrow> four_digit_year t \<and> zone t mod 60 = 0 \<and> \<bar>zone t\<bar> < 25 * 3600"

lemma parse_formatNano:
  assumes p: "printable t"
  shows "parseLayout CHR ''T'' zoneRFC3339 (formatNano t) = Some t"
proof -
  have z: "zone t mod 60 = 0" "\<bar>zone t\<bar> < 25 * 3600" using p by (simp_all add: printable_def)
  define S where "S = unixSec t + zone t"
  obtain y mo d where c: "civil_of_days (S div 86400) = (y, mo, d)" by (rule prod_cases3)
  note cd = civil_of_days_correct [OF c]
  define h where "h = S mod 86400 div 3600"
  define mi where "mi = S mod 86400 mod 3600 div 60"
  define se where "se = S mod 86400 mod 60"
  define fr where "fr = nat (ns t mod 1000000000)"
  define zt where "zt = (if zone t = 0 then ''Z'' else (if zone t \<le> - 60 then CHR ''-'' else CHR ''+'')
      # digits 2 (nat \<bar>zone t\<bar> div 60 div 60) @ CHR '':'' # digits 2 (nat \<bar>zone t\<bar> div 60 mod 60))"
  have y: "0 \<le> y" "y < 10000" using p by (simp_all add: printable_def four_digit_year_def c flip: S_def)
  have h: "0 \<le> h" "h < 24" and mi: "0 \<le> mi" "mi < 60" and se: "0 \<le> se" "se < 60"
    unfolding h_def mi_def se_def by auto
  have fr: "fr < 10 ^ 9" unfolding fr_def by (simp add: nat_less_iff)
  have sod: "S = S div 86400 * 86400 + h * 3600 + mi * 60 + se" unfolding h_def mi_def se_def by (rule clock_split)
  have fmt: "formatNano t = digits 4 (nat y) @ CHR ''-'' # digits 2 (nat mo) @ CHR ''-'' # digits 2 (nat d) @
      CHR ''T'' # digits 2 (nat h) @ CHR '':'' # digits 2 (nat mi) @ CHR '':'' # digits 2 (nat se) @
      (if strip (digits 9 fr) = [] then [] else ''.'' @ strip (digits 9 fr)) @ zt"
    using y cd(2-6) h mi se fr zone_hours [OF z]
    by (simp add: formatNano_def formatDay_def c Let_def appendInt_def padNat_digits strip_def zt_def
        nat_less_iff flip: S_def h_def mi_def se_def fr_def)
  have gf: "getfrac ((if strip (digits 9 fr) = [] then [] else ''.'' @ strip (digits 9 fr)) @ zt) = (int fr, zt)"
    by (rule getfrac_strip [OF fr]) (simp only: zt_def zone_ends)
  have zp: "zoneRFC3339 zt = Some (zone t, [])" unfolding zt_def by (rule zone_back [OF z])
  have "days_of_civil y mo d * 86400 + h * 3600 + mi * 60 + se - zone t = ns t div 1000000000"
    using sod cd(1) by (simp add: S_def unixSec_def)
  then have ns: "(days_of_civil y mo d * 86400 + h * 3600 + mi * 60 + se - zone t) * 1000000000 + int fr = ns t"
    by (simp add: fr_def)
  show ?thesis
    unfolding fmt parseLayout_def
    using y cd(2-6) h mi se by (simp add: nat_less_iff gf zp) (use ns in \<open>cases t; simp add: algebra_simps\<close>)
qed

text \<open>It is no number: the fifth character is a hyphen.\<close>

lemma parseInt_formatNano:
  assumes "four_digit_year t"
  shows "parseInt (formatNano t) = (0, Some ErrSyntax)" "formatNano t \<noteq> []"
proof -
  obtain y mo d where c: "civil_of_days ((unixSec t + zone t) div 86400) = (y, mo, d)" by (rule prod_cases3)
  have y: "0 \<le> y" "y < 10000" using assms by (simp_all add: four_digit_year_def c)
  obtain rest where fmt: "formatNano t = digits 4 (nat y) @ CHR ''-'' # rest"
    using y by (simp add: formatNano_def formatDay_def c Let_def appendInt_def padNat_digits nat_less_iff)
  obtain a b where ab: "digits 4 (nat y) = a # b" using length_digits [of 4 "nat y"] by (cases "digits 4 (nat y)") auto
  have "is_digit a" using digits_digits [of 4 "nat y"] by (simp add: ab)
  moreover have "\<not> is_digit CHR ''-''" by (simp add: is_digit_def)
  ultimately show "parseInt (formatNano t) = (0, Some ErrSyntax)" "formatNano t \<noteq> []"
    using not_sign [of a] by (simp_all add: parseInt_def fmt ab Let_def)
qed

end
