(* ===== verification/Exporter_Recovery.thy ===== *)
theory Exporter_Recovery
  imports Exporter_Tail_Facts Metrics_Facts Layout_Facts
begin

text \<open>
  The exporter's recovery (\<open>recovery.go\<close>) against the listener's \<open>/metrics\<close> (\<open>httpapi.go\<close>): the
  client loop follows the server's cursors to the end and gives every row of the gap to
  \<open>observe\<close>, and the live tail goes on without repeating them.
\<close>

subsection \<open>The client's requests\<close>




subsection \<open>Following the cursors\<close>











subsection \<open>The whole recovery\<close>





















end
