(* ===== verification/Exporter_Checkpoint.thy ===== *)
theory Exporter_Checkpoint
  imports Exporter_Tail_Facts
begin

text \<open>
  The checkpoint file (\<open>bodylog-exporter-go/checkpoint.go\<close>): saving writes a temporary file and renames
  it, so that whatever fails, and wherever the process dies, the file holds the last checkpoint
  saved completely.  The tailer's \<open>tl_saved\<close> is what \<open>loadCheckpoint\<close> finds.

  Parameters: the JSON coders, which decode what they encode; what the file system does.
\<close>

record cp_disk =
  cd_file :: "bytes option"
  cd_tmp :: "bytes option"

text \<open>Where a save stops: before writing, in the write after some bytes, at the rename, or not at all.
  A crash leaves what the error leaves.\<close>

datatype save_stop = Saved | StopsBefore | StopsWriting nat | StopsRenaming

definition loadCheckpoint :: "(bytes \<Rightarrow> checkpoint option) \<Rightarrow> cp_disk \<Rightarrow> checkpoint option" where
  "loadCheckpoint decode d = (case cd_file d of
      None \<Rightarrow> None
    | Some b \<Rightarrow> (case decode b of None \<Rightarrow> None | Some c \<Rightarrow> if cp_path c \<noteq> [] then Some c else None))"

definition saveCheckpoint :: "(checkpoint \<Rightarrow> bytes option) \<Rightarrow> save_stop \<Rightarrow> checkpoint \<Rightarrow> cp_disk \<Rightarrow> bool \<times> cp_disk" where
  "saveCheckpoint encode stop c d = (case encode c of
      None \<Rightarrow> (False, d)
    | Some b \<Rightarrow> (case stop of
        StopsBefore \<Rightarrow> (False, d)
      | StopsWriting k \<Rightarrow> (False, d\<lparr>cd_tmp := Some (take k b)\<rparr>)
      | StopsRenaming \<Rightarrow> (False, d\<lparr>cd_tmp := Some b\<rparr>)
      | Saved \<Rightarrow> (True, \<lparr>cd_file = Some b, cd_tmp = None\<rparr>)))"

text \<open>What the coders promise.\<close>

definition coders_ok :: "(checkpoint \<Rightarrow> bytes option) \<Rightarrow> (bytes \<Rightarrow> checkpoint option) \<Rightarrow> bool" where
  "coders_ok encode decode \<longleftrightarrow> (\<forall>c b. encode c = Some b \<longrightarrow> decode b = Some c)"

lemma load_save:
  assumes "coders_ok encode decode" "saveCheckpoint encode stop c d = (ok, d')"
  shows "loadCheckpoint decode d' = (if ok then if cp_path c \<noteq> [] then Some c else None else loadCheckpoint decode d)"
  using assms by (auto simp: saveCheckpoint_def loadCheckpoint_def coders_ok_def split: option.splits save_stop.splits)

text \<open>Any number of saves, stopped anywhere: the file holds the last complete one.\<close>

fun save_all :: "(checkpoint \<Rightarrow> bytes option) \<Rightarrow> (save_stop \<times> checkpoint) list \<Rightarrow> cp_disk \<Rightarrow> cp_disk" where
  "save_all encode [] d = d"
| "save_all encode ((stop, c) # ss) d = save_all encode ss (snd (saveCheckpoint encode stop c d))"

lemma save_all_snoc: "save_all encode (ss @ [(stop, c)]) d = snd (saveCheckpoint encode stop c (save_all encode ss d))"
  by (induction ss arbitrary: d) auto

lemma load_saves:
  assumes "coders_ok encode decode" "list_all (\<lambda>(_, c). cp_path c \<noteq> [] \<and> encode c \<noteq> None) ss"
  shows "loadCheckpoint decode (save_all encode ss d) =
    (case List.find (\<lambda>(stop, _). stop = Saved) (rev ss) of Some (_, c) \<Rightarrow> Some c | None \<Rightarrow> loadCheckpoint decode d)"
  using assms(2)
proof (induction ss rule: rev_induct)
  case (snoc x ss)
  obtain stop c where x: "x = (stop, c)" by (cases x)
  obtain ok d' where s: "saveCheckpoint encode stop c (save_all encode ss d) = (ok, d')" by fastforce
  have "ok \<longleftrightarrow> stop = Saved" using s snoc.prems x by (auto simp: saveCheckpoint_def split: option.splits save_stop.splits)
  then show ?case using load_save [OF assms(1) s] snoc x s by (simp add: save_all_snoc)
qed simp

text \<open>The tailer's view of the disk is what a new process loads.\<close>

lemma persist_refines:
  assumes "coders_ok encode decode" and "tl_saved t = loadCheckpoint decode d" and "tl_path t \<noteq> []"
    and "cp = (tl_cp t)\<lparr>cp_path := tl_path t, cp_offset := tl_off t\<rparr>" and "saveCheckpoint encode stop cp d = (ok, d')"
  shows "tl_saved (persist ok t) = loadCheckpoint decode d'"
  using load_save [OF assms(1,5)] assms(2-4) by (simp add: persist_def Let_def)

end
