(* ===== verification/Exporter_Poll.thy ===== *)
theory Exporter_Poll
  imports Exporter_Routes
begin

text \<open>
  The exporter's poller of the openresty status endpoints (\<open>bodylog-exporter-go/openresty_poll.go\<close>).

  Parameters: the body each request of a poll answers with, if it is a 200 (\<open>get i url\<close> for the \<open>i\<close>-th
  target), the decoding of the bodies, the clock.  The Prometheus client is third-party: the model
  is the sequence of calls on it.  A JSON object is an association list in the order \<open>range\<close>
  visits it.
\<close>

subsection \<open>Data\<close>

datatype poll_op = Reset string | SetGauge string "string list" float64 | AddCounter string "string list" float64

record peerState =
  pr_Name :: string
  pr_Peer :: string
  pr_Banned :: bool
  pr_Active :: float64
  pr_Max :: float64

record routeState =
  rs_ActiveLevel :: float64
  rs_Limit :: float64
  rs_HealthyPeersInLevel :: float64
  rs_ByPriority :: "(string \<times> peerState list) list"

type_synonym model_map = "(string \<times> float64 option) list"

record tpsStatus =
  ts_Active :: bool
  ts_EwmaTps :: model_map
  ts_AdaptiveCC :: model_map
  ts_AdaptiveCCMin :: model_map
  ts_AdaptiveCCMax :: model_map
  ts_AdaptiveCCInit :: model_map
  ts_AdaptiveCCConc :: model_map
  ts_AdaptiveCCRej :: model_map

record ttftStatus =
  tt_Active :: bool
  tt_EwmaMs :: model_map

type_synonym rejectStatus = "(string \<times> (string \<times> float64) list) list"

record or_decoders =
  od_route :: "bytes \<Rightarrow> routeState option"
  od_tps :: "bytes \<Rightarrow> tpsStatus option"
  od_ttft :: "bytes \<Rightarrow> ttftStatus option"
  od_reject :: "bytes \<Rightarrow> rejectStatus option"

definition rejectReasons :: "string list" where
  "rejectReasons = [''concurrency'', ''ttft'', ''tps'']"

text \<open>The vectors cleared at the start of a poll.\<close>

definition resettable :: "string list" where
  "resettable = [''openresty_poll_up'',
     ''openresty_route_active_level'', ''openresty_route_active_limit'', ''openresty_route_healthy_peers'',
     ''openresty_peer_active_conns'', ''openresty_peer_banned'', ''openresty_peer_max_concurrency'',
     ''openresty_tps_limiter_active'', ''openresty_tps_ewma'', ''openresty_adaptive_cc'', ''openresty_adaptive_cc_min'',
     ''openresty_adaptive_cc_max'', ''openresty_adaptive_cc_init'', ''openresty_adaptive_cc_conc'', ''openresty_adaptive_cc_rej'',
     ''openresty_ttft_limiter_active'', ''openresty_ttft_ewma_ms'']"

subsection \<open>Operations\<close>

definition b2f :: "bool \<Rightarrow> float64" where
  "b2f b = (if b then 1 else 0)"

definition baseOf :: "string \<Rightarrow> pollTarget \<Rightarrow> string" where
  "baseOf baseURL t = (if pt_base t \<noteq> [] then pt_base t else baseURL)"

text \<open>The targets of a poller that only knows route names: \<open>newORPoller\<close>.\<close>

definition routeTargets :: "string list \<Rightarrow> (string \<Rightarrow> string) option \<Rightarrow> pollTarget list" where
  "routeTargets routes svcFn = map (\<lambda>r. \<lparr>pt_base = [], pt_route = r,
     pt_service = (case svcFn of None \<Rightarrow> [] | Some f \<Rightarrow> f r)\<rparr>) routes"

definition setModelMap :: "string \<Rightarrow> string \<Rightarrow> string \<Rightarrow> model_map \<Rightarrow> poll_op list" where
  "setModelMap name service route mm =
     List.map_filter (\<lambda>(model, v). map_option (SetGauge name [service, route, model]) v) mm"

definition getJSON :: "(string \<Rightarrow> bytes option) \<Rightarrow> (bytes \<Rightarrow> 'v option) \<Rightarrow> string \<Rightarrow> string \<Rightarrow> 'v option" where
  "getJSON get decode base path = (case get (base @ path) of None \<Rightarrow> None | Some body \<Rightarrow> decode body)"

definition route_ops :: "string \<Rightarrow> string \<Rightarrow> routeState \<Rightarrow> poll_op list" where
  "route_ops service route rs =
     [SetGauge ''openresty_route_active_level'' [service, route] (rs_ActiveLevel rs),
      SetGauge ''openresty_route_active_limit'' [service, route] (rs_Limit rs),
      SetGauge ''openresty_route_healthy_peers'' [service, route] (rs_HealthyPeersInLevel rs)] @
     concat (map (\<lambda>(prio, peers). concat (map (\<lambda>pr. let l = [service, route, pr_Peer pr, pr_Name pr, prio] in
       [SetGauge ''openresty_peer_active_conns'' l (pr_Active pr), SetGauge ''openresty_peer_banned'' l (b2f (pr_Banned pr)),
        SetGauge ''openresty_peer_max_concurrency'' l (pr_Max pr)]) peers)) (rs_ByPriority rs))"

definition tps_ops :: "string \<Rightarrow> string \<Rightarrow> tpsStatus \<Rightarrow> poll_op list" where
  "tps_ops service route ts =
     [SetGauge ''openresty_tps_limiter_active'' [service, route] (b2f (ts_Active ts))] @
     setModelMap ''openresty_tps_ewma'' service route (ts_EwmaTps ts) @
     setModelMap ''openresty_adaptive_cc'' service route (ts_AdaptiveCC ts) @
     setModelMap ''openresty_adaptive_cc_min'' service route (ts_AdaptiveCCMin ts) @
     setModelMap ''openresty_adaptive_cc_max'' service route (ts_AdaptiveCCMax ts) @
     setModelMap ''openresty_adaptive_cc_init'' service route (ts_AdaptiveCCInit ts) @
     setModelMap ''openresty_adaptive_cc_conc'' service route (ts_AdaptiveCCConc ts) @
     setModelMap ''openresty_adaptive_cc_rej'' service route (ts_AdaptiveCCRej ts)"

definition ttft_ops :: "string \<Rightarrow> string \<Rightarrow> ttftStatus \<Rightarrow> poll_op list" where
  "ttft_ops service route tt =
     [SetGauge ''openresty_ttft_limiter_active'' [service, route] (b2f (tt_Active tt))] @
     setModelMap ''openresty_ttft_ewma_ms'' service route (tt_EwmaMs tt)"

text \<open>The 429 counters of one route: the last absolute value per openresty, route and reason is kept
  in \<open>prev\<close>; a value below it means the openresty restarted.\<close>

definition reject_key :: "string \<Rightarrow> string \<Rightarrow> string \<Rightarrow> string" where
  "reject_key base route reason = base @ ''|'' @ route @ ''|'' @ reason"

definition lastValue :: "(string \<times> float64) list \<Rightarrow> string \<Rightarrow> float64" where
  "lastValue prev k = (case map_of prev k of None \<Rightarrow> 0 | Some v \<Rightarrow> v)"

fun reject_loop ::
  "string \<Rightarrow> string \<Rightarrow> string \<Rightarrow> (string \<times> float64) list \<Rightarrow> (string \<times> float64) list \<Rightarrow> poll_op list \<times> (string \<times> float64) list" where
  "reject_loop base service route [] prev = ([], prev)"
| "reject_loop base service route ((reason, cur) # rest) prev =
     (let key = reject_key base route reason; lst = lastValue prev key;
          amount = (if cur \<ge> lst then fsub cur lst else cur)
      in case reject_loop base service route rest (put key cur prev) of
           (ops, prev1) \<Rightarrow> (AddCounter ''openresty_rejected_total'' [service, route, reason] amount # ops, prev1))"

definition reject_ops ::
  "string \<Rightarrow> string \<Rightarrow> string \<Rightarrow> rejectStatus \<Rightarrow> (string \<times> float64) list \<Rightarrow> poll_op list \<times> (string \<times> float64) list" where
  "reject_ops base service route rj prev =
    (case reject_loop base service route (case map_of rj route of None \<Rightarrow> [] | Some m \<Rightarrow> m) prev of
       (ops, prev1) \<Rightarrow> (map (\<lambda>reason. AddCounter ''openresty_rejected_total'' [service, route, reason] 0) rejectReasons @ ops, prev1))"

text \<open>What one target's four requests do; the number is that of the requests that failed.\<close>

definition poll_target ::
  "or_decoders \<Rightarrow> (string \<Rightarrow> bytes option) \<Rightarrow> string \<Rightarrow> pollTarget \<Rightarrow> (string \<times> float64) list \<Rightarrow>
   poll_op list \<times> nat \<times> (string \<times> float64) list" where
  "poll_target de get baseURL t prev =
    (let base = baseOf baseURL t; service = pt_service t; route = pt_route t; p = ''/'' @ route;
         err = [AddCounter ''openresty_poll_errors_total'' [] 1];
         (ops1, n1) = (case getJSON get (od_route de) base (p @ ''/_route_state'') of
            None \<Rightarrow> (err, 1) | Some rs \<Rightarrow> (route_ops service route rs, 0));
         (ops2, n2) = (case getJSON get (od_tps de) base (p @ ''/_tps_status'') of
            None \<Rightarrow> (err, 1) | Some ts \<Rightarrow> (tps_ops service route ts, 0));
         (ops3, n3) = (case getJSON get (od_ttft de) base (p @ ''/_ttft_status'') of
            None \<Rightarrow> (err, 1) | Some tt \<Rightarrow> (ttft_ops service route tt, 0));
         (ops4, n4, prev1) = (case getJSON get (od_reject de) base (p @ ''/_429_status'') of
            None \<Rightarrow> (err, 1, prev)
          | Some rj \<Rightarrow> (case reject_ops base service route rj prev of (ops, prev1) \<Rightarrow> (ops, 0, prev1)))
     in (ops1 @ ops2 @ ops3 @ ops4, n1 + n2 + n3 + n4, prev1))"

definition label_unknown :: "pollTarget \<Rightarrow> pollTarget" where
  "label_unknown t = (if pt_service t = [] then t\<lparr>pt_service := ''unknown''\<rparr> else t)"

text \<open>\<open>targetOK\<close>: the (openresty, route) pairs of the targets, each with whether nothing of it failed.\<close>

type_synonym target_ok = "((string \<times> string) \<times> bool) list"

fun poll_targets ::
  "or_decoders \<Rightarrow> (nat \<Rightarrow> string \<Rightarrow> bytes option) \<Rightarrow> string \<Rightarrow> nat \<Rightarrow> pollTarget list \<Rightarrow> target_ok \<times> (string \<times> float64) list \<Rightarrow>
   poll_op list \<times> target_ok \<times> (string \<times> float64) list" where
  "poll_targets de get baseURL i [] s = ([], s)"
| "poll_targets de get baseURL i (t # ts) (oks, prev) =
     (case poll_target de (get i) baseURL t prev of
        (ops, n, prev1) \<Rightarrow>
          (case poll_targets de get baseURL (Suc i) ts (if n > 0 then put (baseOf baseURL t, pt_route t) False oks else oks, prev1) of
             (ops1, s1) \<Rightarrow> (ops @ ops1, s1)))"

definition up_ops :: "string \<Rightarrow> float64 \<Rightarrow> target_ok \<Rightarrow> pollTarget \<Rightarrow> poll_op list" where
  "up_ops baseURL now oks t =
    (if map_of oks (baseOf baseURL t, pt_route t) = Some True
     then [SetGauge ''openresty_poll_up'' [pt_service t, pt_route t] 1,
           SetGauge ''openresty_poll_last_success_seconds'' [pt_service t, pt_route t] now]
     else [SetGauge ''openresty_poll_up'' [pt_service t, pt_route t] 0])"

definition pollOnce ::
  "or_decoders \<Rightarrow> (nat \<Rightarrow> string \<Rightarrow> bytes option) \<Rightarrow> string \<Rightarrow> float64 \<Rightarrow> pollTarget list \<Rightarrow> (string \<times> float64) list \<Rightarrow>
   poll_op list \<times> (string \<times> float64) list" where
  "pollOnce de get baseURL now targets0 prev =
    (let targets = map label_unknown targets0;
         oks = fold (\<lambda>t m. put (baseOf baseURL t, pt_route t) True m) targets []
     in case poll_targets de get baseURL 0 targets (oks, prev) of
          (ops, oks1, prev1) \<Rightarrow>
            (map Reset resettable @ ops @ concat (map (up_ops baseURL now oks1) targets), prev1))"

end
