(* ===== verification/Exporter_Owners.thy ===== *)
theory Exporter_Owners
  imports Exporter_Routes
begin

text \<open>
  The desired replica count of a pod: the walk up the owner references ends, the objects cached in
  a refresh change nothing but the number of requests, and the count is that of the top of the chain.
\<close>

subsection \<open>Fetching\<close>

text \<open>What the API server has for a reference, without the cache.\<close>

definition fetchObj :: "rconf \<Rightarrow> (bytes \<Rightarrow> ownerObj option) \<Rightarrow> api \<Rightarrow> string \<Rightarrow> obj_ref \<Rightarrow> ownerObj option" where
  "fetchObj conf decode get nsp ref = (case get (owner_url conf nsp ref) of
     Inl e \<Rightarrow> None | Inr body \<Rightarrow> decode body)"

text \<open>Kubernetes admits no slash in a kind, a name or a namespace.\<close>

definition ref_ok :: "obj_ref \<Rightarrow> bool" where
  "ref_ok ref \<longleftrightarrow> (case ref of (apiVersion, kind, name) \<Rightarrow> CHR ''/'' \<notin> set kind \<and> CHR ''/'' \<notin> set name)"

definition owners_ok :: "(bytes \<Rightarrow> ownerObj option) \<Rightarrow> bool" where
  "owners_ok decode \<longleftrightarrow> (\<forall>body o1 ref. decode body = Some o1 \<longrightarrow> controller_of o1 = Some ref \<longrightarrow> ref_ok ref)"

lemma split_at_last: "xs @ c # zs = ys @ c # zs' \<Longrightarrow> c \<notin> set zs \<Longrightarrow> c \<notin> set zs' \<Longrightarrow> xs = ys \<and> zs = zs'"
proof (induction xs arbitrary: ys)
  case Nil
  then show ?case by (cases ys) auto
next
  case (Cons x xs)
  then show ?case by (cases ys) auto
qed

lemma owner_key_inj:
  assumes "ref_ok r1" "ref_ok r2" "CHR ''/'' \<notin> set nsp1" "CHR ''/'' \<notin> set nsp2" "owner_key nsp1 r1 = owner_key nsp2 r2"
  shows "r1 = r2 \<and> nsp1 = nsp2"
proof -
  obtain a1 k1 n1 a2 k2 n2 where r: "r1 = (a1, k1, n1)" "r2 = (a2, k2, n2)" by (cases r1, cases r2)
  have ok: "CHR ''/'' \<notin> set k1" "CHR ''/'' \<notin> set n1" "CHR ''/'' \<notin> set k2" "CHR ''/'' \<notin> set n2"
    using assms(1,2) by (simp_all add: r ref_ok_def)
  have "(a1 @ CHR ''/'' # k1 @ CHR ''/'' # nsp1) @ CHR ''/'' # n1 = (a2 @ CHR ''/'' # k2 @ CHR ''/'' # nsp2) @ CHR ''/'' # n2"
    using assms(5) by (simp add: r owner_key_def)
  from split_at_last [OF this ok(2,4)] have n: "n1 = n2"
    and "(a1 @ CHR ''/'' # k1) @ CHR ''/'' # nsp1 = (a2 @ CHR ''/'' # k2) @ CHR ''/'' # nsp2" by simp_all
  from split_at_last [OF this(2) assms(3,4)] have e: "nsp1 = nsp2" "a1 @ CHR ''/'' # k1 = a2 @ CHR ''/'' # k2" by simp_all
  from split_at_last [OF e(2) ok(1,3)] n e(1) show ?thesis by (simp add: r)
qed

text \<open>A cache filled in this refresh: under each key what the server has for the reference.\<close>

definition cache_ok :: "rconf \<Rightarrow> (bytes \<Rightarrow> ownerObj option) \<Rightarrow> api \<Rightarrow> owner_cache \<Rightarrow> bool" where
  "cache_ok conf decode get cache \<longleftrightarrow>
     (\<forall>nsp ref o1. CHR ''/'' \<notin> set nsp \<longrightarrow> ref_ok ref \<longrightarrow> map_of cache (owner_key nsp ref) = Some o1 \<longrightarrow> fetchObj conf decode get nsp ref = Some o1)"

lemma cache_ok_Nil: "cache_ok conf decode get []"
  by (simp add: cache_ok_def)

lemma getOwnerObj_fetch:
  assumes "cache_ok conf decode get cache" "ref_ok ref" "CHR ''/'' \<notin> set nsp"
    and "getOwnerObj conf decode get nsp ref cache = (res, cache')"
  shows "res = fetchObj conf decode get nsp ref \<and> cache_ok conf decode get cache'"
proof (cases "map_of cache (owner_key nsp ref)")
  case (Some o1)
  then have "fetchObj conf decode get nsp ref = Some o1" using assms(1-3) unfolding cache_ok_def by blast
  then show ?thesis using assms Some by (simp add: getOwnerObj_def)
next
  case None
  show ?thesis
  proof (cases "fetchObj conf decode get nsp ref")
    case None
    then show ?thesis using assms \<open>map_of cache (owner_key nsp ref) = None\<close>
      by (auto simp: getOwnerObj_def fetchObj_def split: sum.splits option.splits)
  next
    case (Some o1)
    have "cache_ok conf decode get (put (owner_key nsp ref) o1 cache)"
      unfolding cache_ok_def
    proof (intro allI impI)
      fix n r o2
      assume r: "CHR ''/'' \<notin> set n" "ref_ok r" "map_of (put (owner_key nsp ref) o1 cache) (owner_key n r) = Some o2"
      show "fetchObj conf decode get n r = Some o2"
      proof (cases "owner_key n r = owner_key nsp ref")
        case True
        then show ?thesis using owner_key_inj [OF r(2) assms(2) r(1) assms(3) True] r(3) Some by simp
      next
        case False
        then have "map_of cache (owner_key n r) = Some o2" using r(3) by simp
        then show ?thesis using r(1,2) assms(1) unfolding cache_ok_def by blast
      qed
    qed
    then show ?thesis using assms(4) Some \<open>map_of cache (owner_key nsp ref) = None\<close>
      by (auto simp: getOwnerObj_def fetchObj_def split: sum.splits option.splits)
  qed
qed

subsection \<open>The chain of controllers\<close>

inductive controlled_by :: "(obj_ref \<Rightarrow> ownerObj option) \<Rightarrow> obj_ref \<Rightarrow> obj_ref \<Rightarrow> bool" for fetch where
  "fetch ref = Some o1 \<Longrightarrow> controller_of o1 = Some ref' \<Longrightarrow> controlled_by fetch ref ref'"

inductive_cases controlled_byE: "controlled_by fetch ref ref'"

inductive_simps controlled_by_iff: "controlled_by fetch ref ref'"

text \<open>The top of the chain after \<open>k\<close> hops has the replica count \<open>d\<close>.\<close>

definition workload_at :: "(obj_ref \<Rightarrow> ownerObj option) \<Rightarrow> nat \<Rightarrow> obj_ref \<Rightarrow> int \<Rightarrow> bool" where
  "workload_at fetch k ref d \<longleftrightarrow>
     (\<exists>top o1. (controlled_by fetch ^^ k) ref top \<and> fetch top = Some o1 \<and> controller_of o1 = None \<and> oo_Replicas o1 = Some d)"

lemma workload_at_0: "workload_at fetch 0 ref d \<longleftrightarrow> (\<exists>o1. fetch ref = Some o1 \<and> controller_of o1 = None \<and> oo_Replicas o1 = Some d)"
  by (simp add: workload_at_def)

lemma workload_at_Suc: "workload_at fetch (Suc k) ref d \<longleftrightarrow> (\<exists>ref'. controlled_by fetch ref ref' \<and> workload_at fetch k ref' d)"
  unfolding workload_at_def by (meson relpowp_Suc_D2 relpowp_Suc_I2)

lemma owner_walk_correct:
  assumes "cache_ok conf decode get cache" "ref_ok ref" "CHR ''/'' \<notin> set nsp" "owners_ok decode"
    and "owner_walk conf decode get nsp depth ref cache = (res, cache')"
  shows "(res = Some d \<longleftrightarrow> (\<exists>k < depth. workload_at (fetchObj conf decode get nsp) k ref d)) \<and> cache_ok conf decode get cache'"
  using assms
proof (induction depth arbitrary: ref cache)
  case (Suc depth)
  let ?fetch = "fetchObj conf decode get nsp"
  obtain o1 cache1 where g: "getOwnerObj conf decode get nsp ref cache = (o1, cache1)" by fastforce
  note f = getOwnerObj_fetch [OF Suc.prems(1-3) g]
  have less: "(\<exists>k < Suc depth. P k) \<longleftrightarrow> P 0 \<or> (\<exists>k < depth. P (Suc k))" for P :: "nat \<Rightarrow> bool"
    using less_Suc_eq_0_disj by auto
  show ?case
  proof (cases o1)
    case None
    then show ?thesis using f g Suc.prems(5) unfolding less by (auto simp: workload_at_0 workload_at_Suc controlled_by_iff)
  next
    case (Some ob)
    have fr: "?fetch ref = Some ob" using f Some by simp
    show ?thesis
    proof (cases "controller_of ob")
      case None
      then show ?thesis using f g fr Some Suc.prems(5) unfolding less
        by (auto simp: workload_at_0 workload_at_Suc controlled_by_iff)
    next
      case Some': (Some ref1)
      obtain body where "decode body = Some ob" using fr by (auto simp: fetchObj_def split: sum.splits)
      then have "ref_ok ref1" using Suc.prems(4) Some' unfolding owners_ok_def by blast
      moreover have "owner_walk conf decode get nsp depth ref1 cache1 = (res, cache')"
        using Suc.prems(5) g Some Some' by simp
      ultimately have IH: "(res = Some d \<longleftrightarrow> (\<exists>k < depth. workload_at ?fetch k ref1 d)) \<and> cache_ok conf decode get cache'"
        using f Suc.prems(3,4) by (intro Suc.IH) auto
      then show ?thesis using fr Some' unfolding less by (auto simp: workload_at_0 workload_at_Suc controlled_by_iff)
    qed
  qed
qed (simp add: cache_ok_def)

lemma option_eqI: "(\<And>d. a = Some d \<longleftrightarrow> b = Some d) \<Longrightarrow> a = b"
  by (cases a; cases b) auto

text \<open>Property C27 (desired replicas).  Whatever the objects of the cluster, the walk from a pod ends; it
  gives a count exactly when the chain of controllers ends in at most four hops at an object with
  a replica count, which is then the count; a cycle gives none.  The cache of the refresh is
  transparent and stays so.\<close>

theorem desired_replicas:
  assumes "cache_ok conf decode get cache" "CHR ''/'' \<notin> set nsp" "CHR ''/'' \<notin> set pod" "owners_ok decode"
    and "desiredForPod conf decode get nsp pod cache = (res, cache')"
  shows "(res = Some d \<longleftrightarrow> (\<exists>k \<le> 4. workload_at (fetchObj conf decode get nsp) k (''v1'', ''Pod'', pod) d))
    \<and> cache_ok conf decode get cache' \<and> fst (desiredForPod conf decode get nsp pod []) = res"
proof -
  have ref: "ref_ok (''v1'', ''Pod'', pod)" using assms(3) by (simp add: ref_ok_def)
  have le: "k < ownerWalkMaxDepth \<longleftrightarrow> k \<le> 4" for k by (auto simp: ownerWalkMaxDepth_def)
  have walk: "(r = Some d' \<longleftrightarrow> (\<exists>k \<le> 4. workload_at (fetchObj conf decode get nsp) k (''v1'', ''Pod'', pod) d')) \<and> cache_ok conf decode get c'"
    if "cache_ok conf decode get c" "desiredForPod conf decode get nsp pod c = (r, c')" for c c' r d'
    using owner_walk_correct [OF that(1) ref assms(2,4) that(2) [unfolded desiredForPod_def], of d'] unfolding le .
  obtain r0 c0 where fresh: "desiredForPod conf decode get nsp pod [] = (r0, c0)" by fastforce
  have "r0 = Some d' \<longleftrightarrow> res = Some d'" for d'
    by (simp only: walk [OF cache_ok_Nil fresh, THEN conjunct1] walk [OF assms(1,5), THEN conjunct1])
  then have "r0 = res" by (rule option_eqI)
  then have "fst (desiredForPod conf decode get nsp pod []) = res" unfolding fresh by (simp only: fst_conv)
  with walk [OF assms(1,5), of d] show ?thesis by (simp only: simp_thms)
qed

subsection \<open>The cache during a refresh\<close>

lemma take_before: "indexByte s c = Some i \<Longrightarrow> c \<notin> set (take i s)"
  by (induction s arbitrary: i) (auto split: if_splits)

lemma splitNsName_no_slash: "splitNsName svc = (nsp, name) \<Longrightarrow> CHR ''/'' \<notin> set nsp"
  by (auto simp: splitNsName_def take_before split: option.splits)

text \<open>Pods too have names without a slash.\<close>

definition pods_ok :: "(bytes \<Rightarrow> endpoint list list option) \<Rightarrow> bool" where
  "pods_ok decode \<longleftrightarrow> (\<forall>body slices es ep k n. decode body = Some slices \<longrightarrow> es \<in> set slices \<longrightarrow> ep \<in> set es \<longrightarrow>
     ep_Target ep = Some (k, n) \<longrightarrow> CHR ''/'' \<notin> set n)"

lemma add_endpoint_pod:
  assumes "\<And>ep k n. ep \<in> set eps \<Longrightarrow> ep_Target ep = Some (k, n) \<Longrightarrow> CHR ''/'' \<notin> set n" "CHR ''/'' \<notin> set (snd (snd s))"
  shows "CHR ''/'' \<notin> set (snd (snd (fold add_endpoint eps s)))"
  using assms
proof (induction eps arbitrary: s)
  case (Cons ep eps)
  have step: "CHR ''/'' \<notin> set (snd (snd (add_endpoint ep s)))"
    using Cons.prems(1) [of ep] Cons.prems(2) by (auto simp: add_endpoint_def Let_def split: prod.splits option.splits)
  show ?case unfolding fold_Cons comp_apply by (rule Cons.IH [OF _ step]) (use Cons.prems(1) in auto)
qed simp

lemma sample_pod:
  assumes "pods_ok decode" "podIPsForService conf decode get nsp name = Some (ips, ready, pod)"
  shows "CHR ''/'' \<notin> set pod"
proof -
  obtain body slices where d: "decode body = Some slices" "fold (fold add_endpoint) slices ([], 0, []) = (ips, ready, pod)"
    using assms(2) by (auto simp: podIPsForService_def split: sum.splits option.splits)
  have "fold (fold add_endpoint) slices s = fold add_endpoint (concat slices) s" for s
    by (induction slices arbitrary: s) simp_all
  then have "pod = snd (snd (fold add_endpoint (concat slices) ([], 0, [])))" using d(2) by simp
  moreover have "CHR ''/'' \<notin> set n" if ep: "ep \<in> set (concat slices)" "ep_Target ep = Some (k, n)" for ep k n
  proof -
    obtain es where "es \<in> set slices" "ep \<in> set es" using ep(1) by auto
    then show ?thesis using assms(1) d(1) ep(2) unfolding pods_ok_def by blast
  qed
  then have "CHR ''/'' \<notin> set (snd (snd (fold add_endpoint (concat slices) ([], 0, []))))"
    by (rule add_endpoint_pod) simp_all
  ultimately show ?thesis by simp
qed

lemma build_item_cache:
  assumes "cache_ok conf (de_owner de) get (bl_owners b)" "owners_ok (de_owner de)" "pods_ok (de_slices de)"
  shows "cache_ok conf (de_owner de) get (bl_owners (build_item conf de get pds it b))"
proof -
  have poll: "bl_owners (build_poll conf it c) = bl_owners c" for c by (simp add: build_poll_def Let_def)
  have pods: "cache_ok conf (de_owner de) get (bl_owners (build_pods conf de get pds it nsp name (ips, ready, pod) c))"
    if "cache_ok conf (de_owner de) get (bl_owners c)" "CHR ''/'' \<notin> set nsp" "CHR ''/'' \<notin> set pod" for c nsp name ips ready pod
  proof -
    obtain d owners where w: "desiredForPod conf (de_owner de) get nsp pod (bl_owners c) = (d, owners)" by fastforce
    have "ref_ok (''v1'', ''Pod'', pod)" using that(3) by (simp add: ref_ok_def)
    from owner_walk_correct [OF that(1) this that(2) assms(2) w [unfolded desiredForPod_def]]
    have "cache_ok conf (de_owner de) get owners" by blast
    moreover have "bl_owners (build_pods conf de get pds it nsp name (ips, ready, pod) c) = (if pod \<noteq> [] then owners else bl_owners c)"
      by (simp add: build_pods_def w Let_def)
    ultimately show ?thesis using that(1) by simp
  qed
  obtain nsp name where ns: "splitNsName (trimSpace (mr_Discovery it)) = (nsp, name)" by fastforce
  show ?thesis
  proof (cases "item_route it = [] \<or> trimSpace (mr_Discovery it) = [] \<or> name = [] \<or> podIPsForService conf (de_slices de) get nsp name = None")
    case True
    then show ?thesis using assms(1) by (auto simp: build_item_def Let_def poll ns)
  next
    case False
    then obtain ips ready pod where p: "podIPsForService conf (de_slices de) get nsp name = Some (ips, ready, pod)" by auto
    then show ?thesis using False pods [OF _ splitNsName_no_slash [OF ns] sample_pod [OF assms(3) p]] assms(1)
      by (simp add: build_item_def Let_def poll ns)
  qed
qed

lemma build_cache:
  assumes "owners_ok (de_owner de)" "pods_ok (de_slices de)"
  shows "cache_ok conf (de_owner de) get (bl_owners (fold (build_item conf de get pds) items start_building))"
proof (induction items rule: rev_induct)
  case Nil
  show ?case by (simp add: start_building_def cache_ok_Nil)
next
  case (snoc it items)
  then show ?case by (simp add: build_item_cache [OF _ assms])
qed

text \<open>A pod of a ReplicaSet of a Deployment with three replicas, and one that owns itself.\<close>

definition demo_owned :: "string \<Rightarrow> string \<Rightarrow> string \<Rightarrow> ownerObj" where
  "demo_owned v k n = \<lparr>oo_Owners = [\<lparr>or_APIVersion = v, or_Kind = k, or_Name = n, or_Controller = Some True\<rparr>], oo_Replicas = Some 9\<rparr>"

definition demo_object :: "bytes \<Rightarrow> ownerObj option" where
  "demo_object body =
    (if body = ''/api/v1/namespaces/n/pods/p'' then Some (demo_owned ''apps/v1'' ''ReplicaSet'' ''r'')
     else if body = ''/apis/apps/v1/namespaces/n/replicasets/r'' then Some (demo_owned ''apps/v1'' ''Deployment'' ''d'')
     else if body = ''/apis/apps/v1/namespaces/n/deployments/d'' then Some \<lparr>oo_Owners = [], oo_Replicas = Some 3\<rparr>
     else if body = ''/api/v1/namespaces/n/pods/loop'' then Some (demo_owned ''v1'' ''Pod'' ''loop'')
     else None)"

definition owner_conf :: rconf where
  "owner_conf = \<lparr>rc_groups = [], rc_version = [], rc_plural = [], rc_nginxService = [], rc_perService = True,
     rc_pollPort = 8080, rc_pdGroup = [], rc_pdVersion = [], rc_apiBase = []\<rparr>"

lemma demo_object_ok: "owners_ok demo_object"
  by (auto simp: owners_ok_def demo_object_def demo_owned_def controller_of_def ref_ok_def split: if_splits)

lemma demo_walk: "fst (desiredForPod owner_conf demo_object Inr ''n'' ''p'' []) = Some 3"
    "fst (desiredForPod owner_conf demo_object Inr ''n'' ''loop'' []) = None"
  by code_simp+

theorem desired_replicas_witness:
  "(\<exists>k \<le> 4. workload_at (fetchObj owner_conf demo_object Inr ''n'') k (''v1'', ''Pod'', ''p'') 3)
   \<and> (\<nexists>k. k \<le> 4 \<and> workload_at (fetchObj owner_conf demo_object Inr ''n'') k (''v1'', ''Pod'', ''loop'') 3)"
proof -
  have sep: "CHR ''/'' \<notin> set ''n''" "CHR ''/'' \<notin> set ''p''" "CHR ''/'' \<notin> set ''loop''" by simp_all
  note p = desired_replicas [OF cache_ok_Nil sep(1,2) demo_object_ok surjective_pairing, of owner_conf Inr 3]
    and l = desired_replicas [OF cache_ok_Nil sep(1,3) demo_object_ok surjective_pairing, of owner_conf Inr 3]
  show ?thesis using p l unfolding demo_walk by simp
qed

end
