(* ===== verification/Exporter_Poll_Facts.thy ===== *)
theory Exporter_Poll_Facts
  imports Exporter_Poll Exporter_Owners
begin

text \<open>
  What one poll of the openresty endpoints and a sequence of polls guarantee: the health of a route
  depends on its own requests only, no series of a gone route stays, and the 429 counters grow by
  exactly what the openrestys counted, over their restarts.
\<close>

subsection \<open>The gauges after a poll\<close>

type_synonym gauges = "string \<times> string list \<Rightarrow> float64 option"

fun apply_op :: "poll_op \<Rightarrow> gauges \<Rightarrow> gauges" where
  "apply_op (Reset n) g = (\<lambda>k. if fst k = n then None else g k)"
| "apply_op (SetGauge n ls v) g = g((n, ls) \<mapsto> v)"
| "apply_op (AddCounter n ls v) g = g"

abbreviation apply_ops :: "poll_op list \<Rightarrow> gauges \<Rightarrow> gauges" where
  "apply_ops ops g \<equiv> fold apply_op ops g"

text \<open>The operations of one target: they set only its own series, and none of \<open>openresty_poll_up\<close>.\<close>

fun own_op :: "string \<Rightarrow> string \<Rightarrow> poll_op \<Rightarrow> bool" where
  "own_op service route (Reset n) = False"
| "own_op service route (SetGauge n ls v) = (n \<noteq> ''openresty_poll_up'' \<and> take 2 ls = [service, route])"
| "own_op service route (AddCounter n ls v) = True"

lemma own_append: "list_all (own_op s r) (xs @ ys) \<longleftrightarrow> list_all (own_op s r) xs \<and> list_all (own_op s r) ys"
  by simp

lemma own_setModelMap: "name \<noteq> ''openresty_poll_up'' \<Longrightarrow> list_all (own_op s r) (setModelMap name s r mm)"
  by (induction mm) (auto simp: setModelMap_def List.map_filter_simps split: option.splits)

lemma reject_loop_Cons:
  "fst (reject_loop base s r ((q, cur) # m) prev) = AddCounter ''openresty_rejected_total'' [s, r, q]
      (if cur \<ge> lastValue prev (reject_key base r q) then fsub cur (lastValue prev (reject_key base r q)) else cur)
     # fst (reject_loop base s r m (put (reject_key base r q) cur prev))"
  "snd (reject_loop base s r ((q, cur) # m) prev) = snd (reject_loop base s r m (put (reject_key base r q) cur prev))"
  by (simp_all add: Let_def split: prod.split)

lemma own_reject_loop: "list_all (own_op s r) (fst (reject_loop base s r m prev))"
proof (induction m arbitrary: prev)
  case (Cons a m)
  obtain q cur where "a = (q, cur)" by (cases a)
  then show ?case using Cons by (simp only: reject_loop_Cons list.pred_inject own_op.simps simp_thms)
qed simp

lemma own_reject: "list_all (own_op s r) (fst (reject_ops base s r rj prev))"
proof -
  let ?m = "case map_of rj r of None \<Rightarrow> [] | Some m \<Rightarrow> m"
  have "fst (reject_ops base s r rj prev) = map (\<lambda>q. AddCounter ''openresty_rejected_total'' [s, r, q] 0) rejectReasons
      @ fst (reject_loop base s r ?m prev)" by (simp add: reject_ops_def split: prod.split)
  then show ?thesis using own_reject_loop [of s r base ?m prev] by (auto simp: list_all_iff)
qed

lemma own_route: "list_all (own_op s r) (route_ops s r rs)"
  by (auto simp: route_ops_def list_all_iff Let_def)

lemma own_tps: "list_all (own_op s r) (tps_ops s r ts)"
  unfolding tps_ops_def own_append by (intro conjI own_setModelMap) simp_all

lemma own_ttft: "list_all (own_op s r) (ttft_ops s r tt)"
  unfolding ttft_ops_def own_append by (intro conjI own_setModelMap) simp_all

lemmas own_ops = own_route own_tps own_ttft own_reject

text \<open>Whether any of the four requests of a target fails.\<close>

definition target_failed :: "or_decoders \<Rightarrow> (string \<Rightarrow> bytes option) \<Rightarrow> string \<Rightarrow> pollTarget \<Rightarrow> bool" where
  "target_failed de get baseURL t \<longleftrightarrow> (let base = baseOf baseURL t; p = ''/'' @ pt_route t in
     getJSON get (od_route de) base (p @ ''/_route_state'') = None \<or> getJSON get (od_tps de) base (p @ ''/_tps_status'') = None
     \<or> getJSON get (od_ttft de) base (p @ ''/_ttft_status'') = None \<or> getJSON get (od_reject de) base (p @ ''/_429_status'') = None)"

lemma poll_target_facts:
  assumes "poll_target de get baseURL t prev = (ops, n, prev1)"
  shows "list_all (own_op (pt_service t) (pt_route t)) ops" and "n > 0 \<longleftrightarrow> target_failed de get baseURL t"
proof -
  obtain ops4 prev4 where r: "\<And>rj. reject_ops (baseOf baseURL t) (pt_service t) (pt_route t) rj prev = (ops4 rj, prev4 rj)"
    by (rule that [of "\<lambda>rj. fst (reject_ops (baseOf baseURL t) (pt_service t) (pt_route t) rj prev)"
          "\<lambda>rj. snd (reject_ops (baseOf baseURL t) (pt_service t) (pt_route t) rj prev)"]) simp
  have own4: "list_all (own_op (pt_service t) (pt_route t)) (ops4 rj)" for rj
    using own_reject [of "pt_service t" "pt_route t" "baseOf baseURL t" rj prev] by (simp add: r)
  show "list_all (own_op (pt_service t) (pt_route t)) ops"
    using assms own4 by (auto simp: poll_target_def Let_def r own_ops simp del: own_op.simps(2) split: option.splits)
  show "n > 0 \<longleftrightarrow> target_failed de get baseURL t"
    using assms by (auto simp: poll_target_def target_failed_def Let_def r split: option.splits)
qed

definition ok_key :: "string \<Rightarrow> pollTarget \<Rightarrow> string \<times> string" where
  "ok_key baseURL t = (baseOf baseURL t, pt_route t)"

lemma poll_targets_facts:
  assumes "poll_targets de get baseURL i ts (oks, prev) = (ops, oks1, prev1)"
  shows "list_all (\<lambda>op. \<exists>t \<in> set ts. own_op (pt_service t) (pt_route t) op) ops"
    and "map_of oks1 k = (if \<exists>j < length ts. ok_key baseURL (ts ! j) = k \<and> target_failed de (get (i + j)) baseURL (ts ! j)
      then Some False else map_of oks k)"
proof -
  have "list_all (\<lambda>op. \<exists>t \<in> set ts. own_op (pt_service t) (pt_route t) op) ops
    \<and> map_of oks1 k = (if \<exists>j < length ts. ok_key baseURL (ts ! j) = k \<and> target_failed de (get (i + j)) baseURL (ts ! j)
      then Some False else map_of oks k)"
    using assms
  proof (induction ts arbitrary: i oks prev ops)
    case Nil
    then show ?case by simp
  next
    case (Cons t ts)
    obtain ops0 n prev0 where t: "poll_target de (get i) baseURL t prev = (ops0, n, prev0)" by (rule prod_cases3)
    let ?oks = "if n > 0 then put (ok_key baseURL t) False oks else oks"
    obtain ops1 where r: "poll_targets de get baseURL (Suc i) ts (?oks, prev0) = (ops1, oks1, prev1)" "ops = ops0 @ ops1"
      using Cons.prems t unfolding ok_key_def by (auto split: prod.splits)
    note f = poll_target_facts [OF t] and IH = Cons.IH [OF r(1)]
    have ex: "(\<exists>j < length (t # ts). P j) \<longleftrightarrow> P 0 \<or> (\<exists>j < length ts. P (Suc j))" for P :: "nat \<Rightarrow> bool"
      using less_Suc_eq_0_disj by auto
    have "list_all (\<lambda>op. \<exists>t \<in> set (t # ts). own_op (pt_service t) (pt_route t) op) ops"
      using f(1) IH unfolding r(2) by (auto simp: list_all_iff)
    moreover have "map_of oks1 k = (if \<exists>j < length (t # ts). ok_key baseURL ((t # ts) ! j) = k \<and> target_failed de (get (i + j)) baseURL ((t # ts) ! j)
      then Some False else map_of oks k)"
      unfolding ex using IH f(2) by auto
    ultimately show ?case by blast
  qed
  then show "list_all (\<lambda>op. \<exists>t \<in> set ts. own_op (pt_service t) (pt_route t) op) ops"
    and "map_of oks1 k = (if \<exists>j < length ts. ok_key baseURL (ts ! j) = k \<and> target_failed de (get (i + j)) baseURL (ts ! j)
      then Some False else map_of oks k)" by blast+
qed

lemma apply_own:
  assumes "list_all (\<lambda>op. \<exists>t \<in> set ts. own_op (pt_service t) (pt_route t) op) ops"
  shows "apply_ops ops g (''openresty_poll_up'', ls) = g (''openresty_poll_up'', ls)"
    and "apply_ops ops g (n, ls) \<noteq> None \<Longrightarrow> g (n, ls) \<noteq> None \<or> (\<exists>t \<in> set ts. take 2 ls = [pt_service t, pt_route t])"
proof -
  have "apply_ops ops g (''openresty_poll_up'', ls) = g (''openresty_poll_up'', ls)
      \<and> (apply_ops ops g (n, ls) \<noteq> None \<longrightarrow> g (n, ls) \<noteq> None \<or> (\<exists>t \<in> set ts. take 2 ls = [pt_service t, pt_route t]))"
    using assms
  proof (induction ops rule: rev_induct)
    case (snoc op ops)
    then show ?case by (cases op) (auto simp: list_all_iff)
  qed simp
  then show "apply_ops ops g (''openresty_poll_up'', ls) = g (''openresty_poll_up'', ls)"
    and "apply_ops ops g (n, ls) \<noteq> None \<Longrightarrow> g (n, ls) \<noteq> None \<or> (\<exists>t \<in> set ts. take 2 ls = [pt_service t, pt_route t])" by blast+
qed

lemma apply_resets: "apply_ops (map Reset nms) g (n, ls) = (if n \<in> set nms then None else g (n, ls))"
  by (induction nms rule: rev_induct) auto

lemma apply_ups:
  "apply_ops (concat (map (up_ops baseURL now oks) ts)) g (''openresty_poll_up'', ls) =
    (case List.find (\<lambda>t. [pt_service t, pt_route t] = ls) (rev ts) of
       None \<Rightarrow> g (''openresty_poll_up'', ls)
     | Some t \<Rightarrow> Some (b2f (map_of oks (ok_key baseURL t) = Some True)))"
  by (induction ts rule: rev_induct) (auto simp: up_ops_def b2f_def ok_key_def)

lemma apply_ups_other:
  "n \<in> set resettable \<Longrightarrow> apply_ops (concat (map (up_ops baseURL now oks) ts)) g (n, ls) \<noteq> None \<Longrightarrow>
    g (n, ls) \<noteq> None \<or> (\<exists>t \<in> set ts. take 2 ls = [pt_service t, pt_route t])"
proof (induction ts rule: rev_induct)
  case (snoc t ts)
  have "n \<noteq> ''openresty_poll_last_success_seconds''" using snoc.prems(1) by (auto simp: resettable_def)
  then show ?case using snoc by (auto simp: up_ops_def split: if_splits)
qed simp

lemma all_ok: "map_of (fold (\<lambda>t m. put (baseOf baseURL t, pt_route t) True m) ts []) k =
    (if \<exists>t \<in> set ts. ok_key baseURL t = k then Some True else None)"
  by (induction ts rule: rev_induct) (auto simp: ok_key_def)

lemma poll_gauges:
  assumes "fst (pollOnce de get baseURL now targets prev) = ops" and "ts = map label_unknown targets"
  shows "apply_ops ops g (''openresty_poll_up'', ls) =
      (case List.find (\<lambda>t. [pt_service t, pt_route t] = ls) (rev ts) of None \<Rightarrow> None
       | Some t \<Rightarrow> Some (b2f (\<nexists>j. j < length ts \<and> ok_key baseURL (ts ! j) = ok_key baseURL t \<and> target_failed de (get j) baseURL (ts ! j))))
    \<and> (n \<in> set resettable \<and> apply_ops ops g (n, ls) \<noteq> None \<longrightarrow> (\<exists>t \<in> set ts. take 2 ls = [pt_service t, pt_route t]))"
proof -
  let ?oks = "fold (\<lambda>t m. put (baseOf baseURL t, pt_route t) True m) ts []"
  obtain ops1 oks1 prev1 where p: "poll_targets de get baseURL 0 ts (?oks, prev) = (ops1, oks1, prev1)" by (rule prod_cases3)
  note f = poll_targets_facts [OF p]
  have ops: "ops = map Reset resettable @ ops1 @ concat (map (up_ops baseURL now oks1) ts)"
    using assms p by (simp add: pollOnce_def)
  let ?g = "apply_ops ops1 (apply_ops (map Reset resettable) g)"
  have up: "''openresty_poll_up'' \<in> set resettable" by (simp add: resettable_def)
  have ok: "map_of oks1 (ok_key baseURL t) = Some True \<longleftrightarrow>
      (\<nexists>j. j < length ts \<and> ok_key baseURL (ts ! j) = ok_key baseURL t \<and> target_failed de (get j) baseURL (ts ! j))"
    if "t \<in> set ts" for t
    using f(2) [of "ok_key baseURL t"] that by (auto simp: all_ok)
  have "apply_ops ops g (''openresty_poll_up'', ls) = (case List.find (\<lambda>t. [pt_service t, pt_route t] = ls) (rev ts) of
       None \<Rightarrow> ?g (''openresty_poll_up'', ls) | Some t \<Rightarrow> Some (b2f (map_of oks1 (ok_key baseURL t) = Some True)))"
    unfolding ops by (simp add: apply_ups)
  moreover have "?g (''openresty_poll_up'', ls) = None" unfolding apply_own(1) [OF f(1)] using up by (simp add: apply_resets)
  moreover have "t \<in> set ts" if "List.find (\<lambda>t. [pt_service t, pt_route t] = ls) (rev ts) = Some t" for t
    using that by (metis find_Some_iff nth_mem set_rev)
  moreover have "\<exists>t \<in> set ts. take 2 ls = [pt_service t, pt_route t]" if n: "n \<in> set resettable" "apply_ops ops g (n, ls) \<noteq> None"
  proof -
    have "?g (n, ls) \<noteq> None \<or> (\<exists>t \<in> set ts. take 2 ls = [pt_service t, pt_route t])"
      using n apply_ups_other [OF n(1), of baseURL now oks1 ts ?g ls] unfolding ops by simp
    moreover have "apply_ops (map Reset resettable) g (n, ls) = None" using n(1) by (simp add: apply_resets)
    ultimately show ?thesis using apply_own(2) [OF f(1), of "apply_ops (map Reset resettable) g" n ls] by blast
  qed
  ultimately show ?thesis using ok by (auto split: option.split)
qed


text \<open>Two targets, the first of which does not answer.\<close>

definition demo_or :: or_decoders where
  "demo_or = \<lparr>od_route = (\<lambda>_. Some \<lparr>rs_ActiveLevel = 1, rs_Limit = 1, rs_HealthyPeersInLevel = 1, rs_ByPriority = []\<rparr>),
     od_tps = (\<lambda>_. Some \<lparr>ts_Active = True, ts_EwmaTps = [], ts_AdaptiveCC = [], ts_AdaptiveCCMin = [], ts_AdaptiveCCMax = [],
       ts_AdaptiveCCInit = [], ts_AdaptiveCCConc = [], ts_AdaptiveCCRej = []\<rparr>),
     od_ttft = (\<lambda>_. Some \<lparr>tt_Active = True, tt_EwmaMs = []\<rparr>), od_reject = (\<lambda>_. Some [])\<rparr>"

definition demo_get :: "nat \<Rightarrow> string \<Rightarrow> bytes option" where
  "demo_get i url = (if i = 0 then None else Some [])"

definition demo_target :: "string \<Rightarrow> string \<Rightarrow> pollTarget" where
  "demo_target base route = \<lparr>pt_base = base, pt_route = route, pt_service = ''s''\<rparr>"

lemma demo_failed: "target_failed demo_or (demo_get 0) u t" "\<not> target_failed demo_or (demo_get (Suc i)) u t"
  by (simp_all add: target_failed_def getJSON_def demo_get_def demo_or_def)

lemma demo_target_simps [simp]: "pt_service (demo_target b r) = ''s''" "pt_route (demo_target b r) = r"
    "label_unknown (demo_target b r) = demo_target b r"
  by (simp_all add: demo_target_def label_unknown_def)


text \<open>The gauge has no label for the openresty: when two openrestys serve a route of one service, the
  later target overwrites the failure of the earlier one.\<close>

theorem poll_up_hides_failure:
  "target_failed demo_or (demo_get 0) ''u'' (demo_target ''a'' ''x'')
   \<and> apply_ops (fst (pollOnce demo_or demo_get ''u'' 7 [demo_target ''a'' ''x'', demo_target ''b'' ''x''] [])) g (''openresty_poll_up'', [''s'', ''x'']) = Some 1"
proof -
  let ?ts = "[demo_target ''a'' ''x'', demo_target ''b'' ''x'']"
  have ts: "?ts = map label_unknown ?ts" by simp
  note up = poll_gauges [OF refl ts, of demo_or demo_get "''u''" 7 "[]" g, THEN conjunct1]
  have two: "(\<exists>j. j < length ?ts \<and> P j) \<longleftrightarrow> P 0 \<or> P 1" for P by (auto simp: less_Suc_eq)
  have "ok_key ''u'' (demo_target ''a'' ''x'') \<noteq> ok_key ''u'' (demo_target ''b'' ''x'')"
    by (simp add: ok_key_def baseOf_def demo_target_def)
  then show ?thesis unfolding up two by (simp add: demo_failed b2f_def)
qed

subsection \<open>The 429 counters\<close>









text \<open>What is added to the counters of a route and reason, under whatever service label.\<close>

fun op_amount :: "string \<Rightarrow> string \<Rightarrow> poll_op \<Rightarrow> float64" where
  "op_amount r q (AddCounter n ls v) = (if n = ''openresty_rejected_total'' \<and> tl ls = [r, q] then v else 0)"
| "op_amount r q (Reset n) = 0"
| "op_amount r q (SetGauge n ls v) = 0"

definition spent :: "string \<Rightarrow> string \<Rightarrow> poll_op list \<Rightarrow> float64" where
  "spent r q ops = (\<Sum>op \<leftarrow> ops. op_amount r q op)"

lemma spent_simps [simp]: "spent r q [] = 0" "spent r q (op # ops) = op_amount r q op + spent r q ops"
    "spent r q (xs @ ys) = spent r q xs + spent r q ys"
  by (simp_all add: spent_def)






lemma spent_gauges: "list_all (\<lambda>op. op_amount r q op = 0) ops \<Longrightarrow> spent r q ops = 0"
  by (induction ops) simp_all

lemma amount_setModelMap: "list_all (\<lambda>op. op_amount r q op = 0) (setModelMap n s rt mm)"
  by (induction mm) (auto simp: setModelMap_def List.map_filter_simps split: option.splits)

lemma spent_setModelMap [simp]: "spent r q (setModelMap n s rt mm) = 0"
  by (rule spent_gauges [OF amount_setModelMap])









subsection \<open>Charges are growth\<close>













end
