(* ===== verification/Exporter_Main.thy ===== *)
theory Exporter_Main
  imports Exporter_Poll Exporter_Tail Step_Systems
begin

text \<open>
  The exporter's configuration and what \<open>main\<close> starts (\<open>bodylog-exporter-go/main.go\<close>,
  \<open>loadORConfig\<close> in \<open>openresty_poll.go\<close>, \<open>newPodRouteResolver\<close> in \<open>route_endpoints.go\<close>).

  Parameters: the environment, where an unset variable reads as the empty text, as \<open>os.Getenv\<close>
  has it; the time zones the system knows, as fixed offsets; the answers of the servers.
  The HTTP server, the registry, signals and TLS are not modelled.
\<close>

subsection \<open>The environment\<close>

definition xenvOr :: "(string \<Rightarrow> string) \<Rightarrow> string \<Rightarrow> string \<Rightarrow> string" where
  "xenvOr env k dflt = (if env k \<noteq> [] then env k else dflt)"

definition xenvOrInt :: "(string \<Rightarrow> string) \<Rightarrow> string \<Rightarrow> int \<Rightarrow> int" where
  "xenvOrInt env k dflt = (if env k \<noteq> [] then (case atoi (env k) of (n, None) \<Rightarrow> n | _ \<Rightarrow> dflt) else dflt)"

text \<open>\<open>time.Duration(n) * unit\<close>: nanoseconds in an \<open>int64\<close>, wrapping.\<close>

definition duration :: "int \<Rightarrow> int64 \<Rightarrow> int64" where
  "duration n unit = word_of_int n * unit"

record config =
  cf_detailsDir :: string
  cf_listen :: string
  cf_checkpointPath :: string
  cf_bodylogURL :: string
  cf_token :: string
  cf_recoveryLag :: int64
  cf_followInterval :: int64
  cf_dateLoc :: int

definition loadConfig :: "(string \<Rightarrow> int option) \<Rightarrow> (string \<Rightarrow> string) \<Rightarrow> config" where
  "loadConfig zones env =
    \<lparr>cf_detailsDir = xenvOr env ''BODYLOG_DETAILS_DIR'' ''/data/bodylog/metrics/details'',
     cf_listen = xenvOr env ''EXPORTER_LISTEN'' '':9110'',
     cf_checkpointPath = xenvOr env ''CHECKPOINT_PATH'' ''/var/lib/bodylog-exporter/checkpoint.json'',
     cf_bodylogURL = xenvOr env ''BODYLOG_URL'' [],
     cf_token = xenvOr env ''BODYLOG_HTTP_TOKEN'' [],
     cf_recoveryLag = duration (xenvOrInt env ''RECOVERY_LAG_SECONDS'' 10) 1000000000,
     cf_followInterval = duration (xenvOrInt env ''FOLLOW_INTERVAL_MS'' 300) 1000000,
     cf_dateLoc = (case zones (xenvOr env ''DATE_TZ'' ''Asia/Shanghai'') of Some z \<Rightarrow> z | None \<Rightarrow> 8 * 3600)\<rparr>"

record orConfig =
  oc_baseURL :: string
  oc_staticRoutes :: "string list"
  oc_interval :: int64
  oc_timeout :: int64

definition loadORConfig :: "(string \<Rightarrow> string) \<Rightarrow> orConfig" where
  "loadORConfig env =
    \<lparr>oc_baseURL = trimRightSet [CHR ''/''] (trimSpace (xenvOr env ''OPENRESTY_POLL_URL'' [])),
     oc_staticRoutes = filter (\<lambda>r. r \<noteq> []) (map trimSpace (splitByte CHR '','' (xenvOr env ''OPENRESTY_POLL_ROUTES'' []))),
     oc_interval = duration (xenvOrInt env ''OPENRESTY_POLL_INTERVAL_MS'' 15000) 1000000,
     oc_timeout = duration (xenvOrInt env ''OPENRESTY_POLL_TIMEOUT_MS'' 3000) 1000000\<rparr>"

text \<open>The resolver's configuration and its first state.\<close>

definition apiBase :: "(string \<Rightarrow> string) \<Rightarrow> string" where
  "apiBase env = (let host = env ''KUBERNETES_SERVICE_HOST''; port = env ''KUBERNETES_SERVICE_PORT'' in
     if host \<noteq> [] then ''https://'' @ host @ '':'' @ (if port = [] then ''443'' else port)
     else ''https://kubernetes.default.svc'')"

definition newPodRouteResolver :: "(string \<Rightarrow> string) \<Rightarrow> rconf \<times> resolver" where
  "newPodRouteResolver env =
    (\<lparr>rc_groups = splitGroups (xenvOr env ''MODELROUTE_GROUP'' ''routing.modelsphere.dev''),
      rc_version = xenvOr env ''MODELROUTE_VERSION'' ''v1alpha1'',
      rc_plural = xenvOr env ''MODELROUTE_PLURAL'' ''modelroutes'',
      rc_nginxService = trimSpace (xenvOr env ''OPENRESTY_SERVICE'' []),
      rc_perService = (xenvOr env ''OPENRESTY_POLL_PER_SERVICE'' ''true'' \<noteq> ''false''),
      rc_pollPort = xenvOrInt env ''OPENRESTY_POLL_PORT'' 8080,
      rc_pdGroup = xenvOr env ''PD_ROLE_GROUP'' ''leaderworkerset.x-k8s.io'',
      rc_pdVersion = xenvOr env ''PD_ROLE_VERSION'' ''v1'',
      rc_apiBase = apiBase env\<rparr>,
     \<lparr>rv_byIP = [], rv_routes = [], rv_svc = [], rv_targets = [], rv_pd = \<lparr>pd_skipUntil = 0, pd_unknown = []\<rparr>,
      rv_replicas = [], rv_ready = [], rv_desired = [], rv_up = 0, rv_errs = 0, rv_pods = 0, rv_routesG = 0\<rparr>)"

text \<open>The resolver's interval and the timeout of its requests.  \<open>time.NewTicker\<close> panics on an interval
  that is not positive.\<close>

definition discoveryTimes :: "(string \<Rightarrow> string) \<Rightarrow> int64 \<times> int64" where
  "discoveryTimes env = (duration (xenvOrInt env ''ROUTE_DISCOVERY_INTERVAL_SECONDS'' 30) 1000000000,
     duration (xenvOrInt env ''ROUTE_DISCOVERY_TIMEOUT_MS'' 4000) 1000000)"

definition tickerOK :: "int64 \<Rightarrow> bool" where
  "tickerOK d \<longleftrightarrow> 0 < sint d"

lemma duration_values: "0 < sint (15000000000 :: int64)" "0 < sint (30000000000 :: int64)" "sint (10000000000000000000 :: int64) < 0"
  by code_simp+

lemma ticker_defaults:
  "env ''OPENRESTY_POLL_INTERVAL_MS'' = [] \<Longrightarrow> tickerOK (oc_interval (loadORConfig env))"
  "env ''ROUTE_DISCOVERY_INTERVAL_SECONDS'' = [] \<Longrightarrow> tickerOK (fst (discoveryTimes env))"
  by (simp_all add: tickerOK_def loadORConfig_def discoveryTimes_def xenvOrInt_def duration_def duration_values)

text \<open>Nothing keeps an interval of zero, or one so long that it wraps, from the ticker.\<close>

lemma ticker_panics:
  "atoi (env ''OPENRESTY_POLL_INTERVAL_MS'') = (0, None) \<Longrightarrow> env ''OPENRESTY_POLL_INTERVAL_MS'' \<noteq> [] \<Longrightarrow> \<not> tickerOK (oc_interval (loadORConfig env))"
  "atoi (env ''ROUTE_DISCOVERY_INTERVAL_SECONDS'') = (10 ^ 10, None) \<Longrightarrow> env ''ROUTE_DISCOVERY_INTERVAL_SECONDS'' \<noteq> [] \<Longrightarrow>
     \<not> tickerOK (fst (discoveryTimes env))"
  using duration_values(3) by (simp_all add: tickerOK_def loadORConfig_def discoveryTimes_def xenvOrInt_def duration_def not_less)

subsection \<open>Requests\<close>

text \<open>What a server answers to a request with these headers: nothing, or a status and a body, which may
  fail to be read.\<close>

type_synonym net = "string option \<Rightarrow> string \<Rightarrow> (int \<times> bytes option) option"

text \<open>\<open>get\<close>: with the token of the service account, which is read each time; at most 8 MiB of the body.\<close>

definition apiGet :: "bytes option \<Rightarrow> net \<Rightarrow> api" where
  "apiGet token net u = (case net (map_option (\<lambda>tok. ''Bearer '' @ trimSpace tok) token) u of
      Some (code, Some body) \<Rightarrow> if code = 200 then Inr (take (8 * 2 ^ 20) body) else Inl (HttpStatus code)
    | _ \<Rightarrow> Inl OtherError)"

text \<open>The poller's requests: no token, at most 1 MiB.\<close>

definition orGet :: "net \<Rightarrow> string \<Rightarrow> bytes option" where
  "orGet net u = (case net None u of
      Some (code, Some body) \<Rightarrow> if code = 200 then Some (take (2 ^ 20) body) else None
    | _ \<Rightarrow> None)"

text \<open>A group the cluster does not serve is left out of the listing when the server says 404, whatever
  the body; without an answer the listing fails.\<close>

lemma apiGet_404: "net h u = Some (404, Some body) \<Longrightarrow> h = map_option (\<lambda>tok. ''Bearer '' @ trimSpace tok) token \<Longrightarrow>
    apiGet token net u = Inl (HttpStatus 404)"
  by (simp add: apiGet_def)

subsection \<open>What main starts\<close>

text \<open>The poller: none, one over the static routes, or one over the targets of the resolver.\<close>

datatype poller = NoPoller | StaticPoller "string list" | DiscoveredPoller

definition choose_poller :: "orConfig \<Rightarrow> bool \<Rightarrow> poller" where
  "choose_poller orc in_cluster =
    (if oc_baseURL orc \<noteq> [] then
       (if oc_staticRoutes orc \<noteq> [] then StaticPoller (oc_staticRoutes orc)
        else if in_cluster then DiscoveredPoller
        else NoPoller)
     else NoPoller)"

text \<open>The exporter: the resolver runs exactly in a cluster; \<open>ex_prev\<close> is the poller's map of last
  counts.\<close>

record exporter =
  ex_conf :: config
  ex_orc :: orConfig
  ex_resolver :: "(rconf \<times> resolver) option"
  ex_poller :: poller
  ex_prev :: "(string \<times> float64) list"
  ex_tailer :: tailer

definition exporter_main :: "(string \<Rightarrow> int option) \<Rightarrow> (string \<Rightarrow> string) \<Rightarrow> checkpoint option \<Rightarrow> exporter" where
  "exporter_main zones env saved =
    (let in_cluster = env ''KUBERNETES_SERVICE_HOST'' \<noteq> []; orc = loadORConfig env in
     \<lparr>ex_conf = loadConfig zones env, ex_orc = orc,
      ex_resolver = (if in_cluster then Some (newPodRouteResolver env) else None),
      ex_poller = choose_poller orc in_cluster, ex_prev = [], ex_tailer = newTailer saved\<rparr>)"

text \<open>The poller's \<open>targetsFn\<close>.\<close>

definition poller_targets :: "exporter \<Rightarrow> pollTarget list" where
  "poller_targets x = (case ex_poller x of
      NoPoller \<Rightarrow> []
    | StaticPoller rs \<Rightarrow> routeTargets rs None
    | DiscoveredPoller \<Rightarrow> (case ex_resolver x of None \<Rightarrow> [] | Some (cf, r) \<Rightarrow> getTargets r))"

text \<open>The steps of the three goroutines.  A line the tailer observes is enriched by the resolver's
  \<open>Lookup\<close>.\<close>

definition exporter_refresh :: "decoders \<Rightarrow> api \<Rightarrow> int \<Rightarrow> int \<Rightarrow> exporter \<Rightarrow> exporter" where
  "exporter_refresh de get now later x =
     x\<lparr>ex_resolver := map_option (\<lambda>(cf, r). (cf, refresh cf de get now later r)) (ex_resolver x)\<rparr>"

definition exporter_poll ::
  "or_decoders \<Rightarrow> (nat \<Rightarrow> string \<Rightarrow> bytes option) \<Rightarrow> float64 \<Rightarrow> exporter \<Rightarrow> poll_op list \<times> exporter" where
  "exporter_poll de get now x = (if ex_poller x = NoPoller then ([], x)
     else case pollOnce de get (oc_baseURL (ex_orc x)) now (poller_targets x) (ex_prev x) of
       (ops, prev1) \<Rightarrow> (ops, x\<lparr>ex_prev := prev1\<rparr>))"

definition exporter_observe :: "exporter \<Rightarrow> xdetail \<Rightarrow> metric_op list" where
  "exporter_observe x d = observe (map_option (\<lambda>(cf, r). Lookup r) (ex_resolver x)) d"

definition exporter_start ::
  "(string \<Rightarrow> string \<Rightarrow> string \<Rightarrow> page) \<Rightarrow> gotime \<Rightarrow> (string \<times> bytes) list \<Rightarrow> exporter \<Rightarrow> tailer option" where
  "exporter_start server now files x = (let cf = ex_conf x in
     tail_start server (cf_bodylogURL cf \<noteq> []) (sint (cf_recoveryLag cf)) (cf_dateLoc cf) now
       (detailsPathFor (cf_detailsDir cf) (cf_dateLoc cf) now) files (ex_tailer x))"

subsection \<open>The poller is never idle\<close>

lemma split_piece: "p \<in> set (splitByte c s) \<Longrightarrow> c \<notin> set p"
  by (induction s arbitrary: p) (auto split: if_splits list.splits)

lemma dropSpaces_set: "set (dropSpaces f s) \<subseteq> set s"
proof (induction f s rule: dropSpaces.induct)
  case (1 f s)
  then show ?case using set_drop_subset [of "f s" s] by (subst dropSpaces.simps) auto
qed

lemma trimSpace_set: "set (trimSpace s) \<subseteq> set s"
  using dropSpaces_set [of spaceLast "rev (dropSpaces spaceHead s)"] dropSpaces_set [of spaceHead s]
  by (auto simp: trimSpace_def)

lemma trimRight_last: "trimRightSet cs s \<noteq> [] \<Longrightarrow> List.last (trimRightSet cs s) \<notin> set cs"
  using hd_dropWhile [of "\<lambda>c. c \<in> set cs" "rev s"] by (auto simp: trimRightSet_def last_rev)

text \<open>A poller that is started has an address without a final slash; static routes are there, and
  are texts without a comma that are not empty.\<close>

lemma poller_started:
  assumes "ex_poller (exporter_main zones env saved) = StaticPoller rs"
  shows "rs \<noteq> [] \<and> (\<forall>r\<in>set rs. r \<noteq> [] \<and> CHR '','' \<notin> set r) \<and> oc_baseURL (loadORConfig env) \<noteq> []
    \<and> List.last (oc_baseURL (loadORConfig env)) \<noteq> CHR ''/''"
proof -
  have s: "oc_baseURL (loadORConfig env) \<noteq> []" "rs \<noteq> []" "rs = oc_staticRoutes (loadORConfig env)"
    using assms by (auto simp: exporter_main_def choose_poller_def Let_def split: if_splits)
  moreover have "r \<noteq> [] \<and> CHR '','' \<notin> set r" if "r \<in> set rs" for r
    using that unfolding s(3) by (auto simp: loadORConfig_def dest: split_piece subsetD [OF trimSpace_set])
  moreover have "List.last (oc_baseURL (loadORConfig env)) \<noteq> CHR ''/''"
    using s(1) trimRight_last [of "[CHR ''/'']"] by (simp add: loadORConfig_def)
  ultimately show ?thesis by blast
qed

text \<open>Outside a cluster every label is unknown and only static routes are polled.\<close>

lemma outside_cluster:
  assumes "env ''KUBERNETES_SERVICE_HOST'' = []"
  shows "exporter_observe (exporter_main zones env saved) d = observe None d"
    and "ex_poller (exporter_main zones env saved) \<noteq> DiscoveredPoller"
  using assms by (simp_all add: exporter_main_def exporter_observe_def choose_poller_def Let_def)

subsection \<open>Runs of the exporter\<close>

text \<open>The goroutines in any interleaving; each step sees the answers of its own moment.\<close>

inductive exporter_step :: "exporter \<Rightarrow> exporter \<Rightarrow> bool" where
  refreshed: "exporter_step x (exporter_refresh de (apiGet token net) now later x)"
| polled: "exporter_step x (snd (exporter_poll de (\<lambda>i. orGet (nets i)) t x))"
| tailed: "exporter_step x (x\<lparr>ex_tailer := tail_round decode today files fault saves (ex_tailer x)\<rparr>)"

inductive_cases exporter_stepE: "exporter_step x y"

definition exporter_run :: "exporter \<Rightarrow> exporter \<Rightarrow> bool" where
  "exporter_run = exporter_step\<^sup>*\<^sup>*"

text \<open>What the resolver knows is what one successful listing gave it, or nothing yet; a failed
  listing changes neither labels nor poll targets.\<close>

definition from_listing :: "rconf \<Rightarrow> resolver \<Rightarrow> bool" where
  "from_listing cf r \<longleftrightarrow> (rv_byIP r = [] \<and> rv_targets r = []) \<or>
     (\<exists>de get now later pd res pd1. build cf de get now later pd = (Inr res, pd1) \<and> rv_byIP r = rr_byIP res \<and> rv_targets r = rr_targets res)"

lemma refresh_from_listing: "from_listing cf r \<Longrightarrow> from_listing cf (refresh cf de get now later r)"
proof (cases "build cf de get now later (rv_pd r)")
  case (Pair out pd1)
  assume ok: "from_listing cf r"
  show ?thesis
  proof (cases out)
    case (Inl e)
    then show ?thesis using ok Pair by (simp add: refresh_def from_listing_def)
  next
    case (Inr res)
    then have "rv_byIP (refresh cf de get now later r) = rr_byIP res" "rv_targets (refresh cf de get now later r) = rr_targets res"
      using Pair by (simp_all add: refresh_def)
    then show ?thesis using Pair Inr unfolding from_listing_def by blast
  qed
qed

lemma exporter_poll_keeps [simp]:
  "ex_resolver (snd (exporter_poll de get t x)) = ex_resolver x" "ex_poller (snd (exporter_poll de get t x)) = ex_poller x"
  by (simp_all add: exporter_poll_def split: prod.split)

text \<open>What \<open>main\<close> fixed stays: the poller, and the resolver's configuration.\<close>

definition set_up :: "(string \<Rightarrow> string) \<Rightarrow> exporter \<Rightarrow> bool" where
  "set_up env x \<longleftrightarrow> ex_poller x = choose_poller (loadORConfig env) (env ''KUBERNETES_SERVICE_HOST'' \<noteq> [])
     \<and> (case ex_resolver x of None \<Rightarrow> env ''KUBERNETES_SERVICE_HOST'' = []
        | Some (cf, r) \<Rightarrow> from_listing cf r \<and> cf = fst (newPodRouteResolver env) \<and> env ''KUBERNETES_SERVICE_HOST'' \<noteq> [])"

lemma set_up_start: "set_up env (exporter_main zones env saved)"
  by (simp add: set_up_def exporter_main_def newPodRouteResolver_def from_listing_def Let_def)

lemma set_up_step: "exporter_step x y \<Longrightarrow> set_up env x \<Longrightarrow> set_up env y"
  by (erule exporter_stepE) (auto simp: set_up_def exporter_refresh_def refresh_from_listing split: option.splits)

interpretation exporters: step_system "\<lambda>x. \<exists>zones saved. x = exporter_main zones env saved" exporter_step "set_up env"
  by unfold_locales (auto intro: set_up_start set_up_step)

lemma exporter_run_set_up: "exporter_run (exporter_main zones env saved) x \<Longrightarrow> set_up env x"
  unfolding exporter_run_def using exporters.inv_reachable by blast

lemma exporter_run_resolver:
  assumes "exporter_run (exporter_main zones env saved) x" and "ex_resolver x = Some (cf, r)"
  shows "from_listing cf r \<and> cf = fst (newPodRouteResolver env) \<and> env ''KUBERNETES_SERVICE_HOST'' \<noteq> []"
  using exporter_run_set_up [OF assms(1)] assms(2) by (auto simp: set_up_def)

lemma exporter_run_poller:
  "exporter_run (exporter_main zones env saved) x \<Longrightarrow> ex_poller x = choose_poller (loadORConfig env) (env ''KUBERNETES_SERVICE_HOST'' \<noteq> [])"
  using exporter_run_set_up by (simp add: set_up_def)

end
