(* ===== verification/Exporter_Registry.thy ===== *)
theory Exporter_Registry
  imports Exporter_Metrics_Facts Exporter_Poll_Facts Exporter_Main
begin

text \<open>
  The metrics the exporter registers (\<open>newMetrics\<close> in \<open>metrics.go\<close>, \<open>newORMetrics\<close> in
  \<open>openresty_poll.go\<close>, the gauges of \<open>newPodRouteResolver\<close> in \<open>route_endpoints.go\<close>) and the rules of
  the Prometheus client they have to keep: no name is registered twice, a call gives as many label
  values as the vector has labels, a counter is never given a negative amount.  Each of these is a
  panic in the client.  Help texts and the resolution of the native histograms are not modelled.
\<close>

subsection \<open>Vectors\<close>

datatype kind = CounterVec | HistogramVec | GaugeVec

record metric =
  mt_kind :: kind
  mt_name :: string
  mt_labels :: "string list"

definition counter_vec :: "string \<Rightarrow> string list \<Rightarrow> metric" where
  "counter_vec name labels = \<lparr>mt_kind = CounterVec, mt_name = name, mt_labels = labels\<rparr>"

definition histogram_vec :: "string \<Rightarrow> string list \<Rightarrow> metric" where
  "histogram_vec name labels = \<lparr>mt_kind = HistogramVec, mt_name = name, mt_labels = labels\<rparr>"

definition gauge_of :: "string \<Rightarrow> string list \<Rightarrow> metric" where
  "gauge_of name labels = \<lparr>mt_kind = GaugeVec, mt_name = name, mt_labels = labels\<rparr>"

definition newMetrics :: "metric list" where
  "newMetrics = (let srbm = [''service'', ''route'', ''backend'', ''model'']; srbmp = srbm @ [''prompt_bucket''] in
     [counter_vec ''bodylog_requests_total'' [''service'', ''route'', ''backend'', ''model'', ''status_class'', ''stream''],
      counter_vec ''bodylog_prompt_tokens_total'' srbm,
      counter_vec ''bodylog_completion_tokens_total'' srbm,
      counter_vec ''bodylog_cached_tokens_total'' srbm,
      counter_vec ''bodylog_reasoning_tokens_total'' srbm,
      counter_vec ''bodylog_total_tokens_total'' srbm,
      counter_vec ''bodylog_req_bytes_total'' srbm,
      counter_vec ''bodylog_resp_bytes_total'' srbm,
      counter_vec ''bodylog_finish_reason_total'' [''service'', ''route'', ''backend'', ''model'', ''finish_reason''],
      histogram_vec ''bodylog_rt_seconds'' [''service'', ''route'', ''backend'', ''model'', ''stream''],
      histogram_vec ''bodylog_ttft_seconds'' srbmp,
      histogram_vec ''bodylog_output_tok_per_second'' srbmp,
      histogram_vec ''bodylog_overall_output_tok_per_second'' srbm,
      histogram_vec ''bodylog_decode_output_tok_per_second'' srbm,
      counter_vec ''bodylog_exporter_lines_total'' [],
      gauge_of ''bodylog_exporter_offset_bytes'' [],
      gauge_of ''bodylog_exporter_last_ts_seconds'' [],
      counter_vec ''bodylog_exporter_recovery_total'' []])"

definition resolverMetrics :: "metric list" where
  "resolverMetrics = [gauge_of ''bodylog_route_resolver_up'' [], gauge_of ''bodylog_route_resolver_pods'' [], gauge_of ''bodylog_route_resolver_routes'' [],
     counter_vec ''bodylog_route_resolver_errors_total'' [],
     gauge_of ''bodylog_service_replicas'' [''service'', ''route'', ''role''],
     gauge_of ''bodylog_service_replicas_ready'' [''service'', ''route'', ''role''],
     gauge_of ''bodylog_service_replicas_desired'' [''service'', ''route'', ''role'']]"

definition newORMetrics :: "metric list" where
  "newORMetrics = (let sroute = [''service'', ''route'']; peerLbls = [''service'', ''route'', ''peer'', ''name'', ''priority''];
       srm = [''service'', ''route'', ''model''] in
     [gauge_of ''openresty_poll_up'' sroute,
      gauge_of ''openresty_route_active_level'' sroute, gauge_of ''openresty_route_active_limit'' sroute, gauge_of ''openresty_route_healthy_peers'' sroute,
      gauge_of ''openresty_peer_active_conns'' peerLbls, gauge_of ''openresty_peer_banned'' peerLbls, gauge_of ''openresty_peer_max_concurrency'' peerLbls,
      gauge_of ''openresty_tps_limiter_active'' sroute, gauge_of ''openresty_tps_ewma'' srm,
      gauge_of ''openresty_adaptive_cc'' srm, gauge_of ''openresty_adaptive_cc_min'' srm, gauge_of ''openresty_adaptive_cc_max'' srm,
      gauge_of ''openresty_adaptive_cc_init'' srm, gauge_of ''openresty_adaptive_cc_conc'' srm, gauge_of ''openresty_adaptive_cc_rej'' srm,
      gauge_of ''openresty_ttft_limiter_active'' sroute, gauge_of ''openresty_ttft_ewma_ms'' srm,
      counter_vec ''openresty_rejected_total'' [''service'', ''route'', ''reason''],
      counter_vec ''openresty_poll_errors_total'' [],
      gauge_of ''openresty_poll_last_success_seconds'' sroute])"

text \<open>\<open>MustRegister\<close>: \<open>None\<close> is the panic on a name that is there.\<close>

fun mustRegister :: "metric list \<Rightarrow> metric list \<Rightarrow> metric list option" where
  "mustRegister reg [] = Some reg"
| "mustRegister reg (d # ds) = (if mt_name d \<in> set (map mt_name reg) then None else mustRegister (reg @ [d]) ds)"

text \<open>What \<open>main\<close> registers: the resolver's in a cluster, the poller's when there is one.\<close>

definition exporter_registry :: "exporter \<Rightarrow> metric list option" where
  "exporter_registry x =
     mustRegister [] (newMetrics @ (if ex_resolver x = None then [] else resolverMetrics) @ (if ex_poller x = NoPoller then [] else newORMetrics))"

subsection \<open>Calls\<close>

definition vector_ok :: "metric list \<Rightarrow> kind \<Rightarrow> string \<Rightarrow> nat \<Rightarrow> bool" where
  "vector_ok reg k name n \<longleftrightarrow> list_ex (\<lambda>d. mt_kind d = k \<and> mt_name d = name \<and> length (mt_labels d) = n) reg"

fun accepts :: "metric list \<Rightarrow> metric_op \<Rightarrow> bool" where
  "accepts reg (Count name ls v) \<longleftrightarrow> vector_ok reg CounterVec name (length ls) \<and> 0 \<le> v"
| "accepts reg (Observe name ls v) \<longleftrightarrow> vector_ok reg HistogramVec name (length ls)"
| "accepts reg (Gauge name ls v) \<longleftrightarrow> vector_ok reg GaugeVec name (length ls)"

fun poll_accepts :: "metric list \<Rightarrow> poll_op \<Rightarrow> bool" where
  "poll_accepts reg (Reset name) \<longleftrightarrow> list_ex (\<lambda>d. mt_kind d = GaugeVec \<and> mt_name d = name) reg"
| "poll_accepts reg (SetGauge name ls v) \<longleftrightarrow> vector_ok reg GaugeVec name (length ls)"
| "poll_accepts reg (AddCounter name ls v) \<longleftrightarrow> vector_ok reg CounterVec name (length ls) \<and> 0 \<le> v"

lemma vector_ok_append [simp]: "vector_ok (xs @ ys) k name n \<longleftrightarrow> vector_ok xs k name n \<or> vector_ok ys k name n"
  by (simp add: vector_ok_def)

lemma accepts_append: "accepts xs op \<Longrightarrow> accepts (xs @ ys) op" "accepts ys op \<Longrightarrow> accepts (xs @ ys) op"
  by (cases op; simp)+

lemma poll_accepts_append: "poll_accepts xs op \<Longrightarrow> poll_accepts (xs @ ys) op" "poll_accepts ys op \<Longrightarrow> poll_accepts (xs @ ys) op"
  by (cases op; simp)+

lemma mustRegister_distinct: "distinct (map mt_name (reg @ ds)) \<Longrightarrow> mustRegister reg ds = Some (reg @ ds)"
  by (induction ds arbitrary: reg) auto

lemmas vectors = counter_vec_def histogram_vec_def gauge_of_def

lemma registered_names: "distinct (map mt_name (newMetrics @ resolverMetrics @ newORMetrics))"
  by (simp add: newMetrics_def resolverMetrics_def newORMetrics_def vectors Let_def)

lemma registry_is: "exporter_registry x =
    Some (newMetrics @ (if ex_resolver x = None then [] else resolverMetrics) @ (if ex_poller x = NoPoller then [] else newORMetrics))"
  unfolding exporter_registry_def
  by (rule mustRegister_distinct [of "[]", simplified]) (use registered_names in auto)

subsection \<open>The calls of observe\<close>

lemma own_vectors:
  "vector_ok newMetrics CounterVec ''bodylog_requests_total'' 6" "vector_ok newMetrics CounterVec ''bodylog_finish_reason_total'' 5"
  "vector_ok newMetrics HistogramVec ''bodylog_rt_seconds'' 5" "vector_ok newMetrics HistogramVec ''bodylog_ttft_seconds'' 5"
  "vector_ok newMetrics HistogramVec ''bodylog_output_tok_per_second'' 5"
  "vector_ok newMetrics HistogramVec ''bodylog_overall_output_tok_per_second'' 4"
  "vector_ok newMetrics HistogramVec ''bodylog_decode_output_tok_per_second'' 4"
  "vector_ok newMetrics CounterVec ''bodylog_exporter_lines_total'' 0" "vector_ok newMetrics GaugeVec ''bodylog_exporter_last_ts_seconds'' 0"
  by (simp_all add: vector_ok_def newMetrics_def vectors Let_def)

lemma amount_vectors:
  "n \<in> set [''bodylog_prompt_tokens_total'', ''bodylog_completion_tokens_total'', ''bodylog_cached_tokens_total'', ''bodylog_reasoning_tokens_total'',
     ''bodylog_total_tokens_total'', ''bodylog_req_bytes_total'', ''bodylog_resp_bytes_total''] \<Longrightarrow> vector_ok newMetrics CounterVec n 4"
  by (auto simp: vector_ok_def newMetrics_def vectors Let_def)

lemma accepted_count_pos: "vector_ok reg CounterVec name (length ls) \<Longrightarrow> list_all (accepts reg) (count_pos name ls n)"
  by (simp add: count_pos_def i2f_nonneg)

lemma accepted_finish: "length ls = 4 \<Longrightarrow> list_all (accepts newMetrics) (finish_ops ls d)"
  by (simp add: finish_ops_def own_vectors)

lemma accepted_rate: "length ls = 4 \<Longrightarrow> list_all (accepts newMetrics) (rate_ops ls d)"
  by (simp add: rate_ops_def own_vectors Let_def)

lemma accepted_observe: "list_all (accepts newMetrics) (observe look d)"
  unfolding observe_def Let_def
  by (cases "resolve look (x_Backend d)")
    (simp add: own_vectors accepted_finish accepted_rate accepted_count_pos amount_vectors numeral_2_eq_2 [symmetric])

subsection \<open>The calls of a poll\<close>

definition counts_ok :: "rejectStatus \<Rightarrow> bool" where
  "counts_ok rj \<longleftrightarrow> list_all (\<lambda>(r, m). list_all (\<lambda>(q, c). 0 \<le> c) m) rj"

definition counts_nonneg :: "or_decoders \<Rightarrow> bool" where
  "counts_nonneg de \<longleftrightarrow> (\<forall>body rj. od_reject de body = Some rj \<longrightarrow> counts_ok rj)"

lemma or_vectors:
  "list_all (\<lambda>n. vector_ok newORMetrics GaugeVec n 2) [''openresty_poll_up'', ''openresty_route_active_level'', ''openresty_route_active_limit'',
     ''openresty_route_healthy_peers'', ''openresty_tps_limiter_active'', ''openresty_ttft_limiter_active'', ''openresty_poll_last_success_seconds'']"
  "list_all (\<lambda>n. vector_ok newORMetrics GaugeVec n 3) [''openresty_tps_ewma'', ''openresty_adaptive_cc'', ''openresty_adaptive_cc_min'',
     ''openresty_adaptive_cc_max'', ''openresty_adaptive_cc_init'', ''openresty_adaptive_cc_conc'', ''openresty_adaptive_cc_rej'', ''openresty_ttft_ewma_ms'']"
  "list_all (\<lambda>n. vector_ok newORMetrics GaugeVec n 5) [''openresty_peer_active_conns'', ''openresty_peer_banned'', ''openresty_peer_max_concurrency'']"
  "vector_ok newORMetrics CounterVec ''openresty_rejected_total'' 3" "vector_ok newORMetrics CounterVec ''openresty_poll_errors_total'' 0"
  "list_all (\<lambda>n. poll_accepts newORMetrics (Reset n)) resettable"
  by (simp_all add: vector_ok_def newORMetrics_def vectors resettable_def Let_def)

lemma accepted_model_map: "vector_ok newORMetrics GaugeVec n 3 \<Longrightarrow> list_all (poll_accepts newORMetrics) (setModelMap n s r mm)"
  by (induction mm) (auto simp: setModelMap_def List.map_filter_simps numeral_3_eq_3 split: option.splits)

lemma accepted_route: "list_all (poll_accepts newORMetrics) (route_ops s r rs)"
  using or_vectors(1,3) by (auto simp: route_ops_def list_all_iff Let_def eval_nat_numeral)

lemma accepted_tps: "list_all (poll_accepts newORMetrics) (tps_ops s r ts)"
  unfolding tps_ops_def list_all_append by (intro conjI accepted_model_map) (use or_vectors(1,2) in \<open>simp_all add: eval_nat_numeral\<close>)

lemma accepted_ttft: "list_all (poll_accepts newORMetrics) (ttft_ops s r tt)"
  unfolding ttft_ops_def list_all_append by (intro conjI accepted_model_map) (use or_vectors(1,2) in \<open>simp_all add: eval_nat_numeral\<close>)

lemma accepted_reject_loop:
  "list_all (\<lambda>(q, c). 0 \<le> c) m \<Longrightarrow> list_all (poll_accepts newORMetrics) (fst (reject_loop base s r m prev))"
proof (induction m arbitrary: prev)
  case (Cons a m)
  obtain q cur where a: "a = (q, cur)" by (cases a)
  have "0 \<le> (if cur \<ge> lst then fsub cur lst else cur)" for lst using Cons.prems a by (simp add: fsub_def fl_nonneg)
  then show ?case using Cons a or_vectors(4) by (simp only: reject_loop_Cons list.pred_inject poll_accepts.simps) (simp add: numeral_3_eq_3)
qed simp

lemma accepted_reject: "counts_ok rj \<Longrightarrow> list_all (poll_accepts newORMetrics) (fst (reject_ops base s r rj prev))"
proof -
  assume "counts_ok rj"
  then have m: "list_all (\<lambda>(q, c). 0 \<le> c) (case map_of rj r of None \<Rightarrow> [] | Some m \<Rightarrow> m)" (is "list_all _ ?m")
    using map_of_SomeD [of rj r] by (cases "map_of rj r") (fastforce simp: counts_ok_def list_all_iff)+
  have "fst (reject_ops base s r rj prev) = map (\<lambda>q. AddCounter ''openresty_rejected_total'' [s, r, q] 0) rejectReasons
      @ fst (reject_loop base s r ?m prev)" by (simp add: reject_ops_def split: prod.split)
  then show ?thesis using accepted_reject_loop [OF m, of base s r prev] or_vectors(4) by (auto simp: list_all_iff numeral_3_eq_3)
qed

lemmas accepted_ops = accepted_route accepted_tps accepted_ttft accepted_reject

lemma accepted_error: "poll_accepts newORMetrics (AddCounter ''openresty_poll_errors_total'' [] 1)"
  using or_vectors(5) by simp

lemma accepted_target:
  assumes counts: "counts_nonneg de"
  shows "list_all (poll_accepts newORMetrics) (fst (poll_target de get baseURL t prev))"
proof -
  have "counts_ok rj" if "getJSON get (od_reject de) b p = Some rj" for b p rj
    using that counts by (auto simp: getJSON_def counts_nonneg_def split: option.splits)
  then have r: "list_all (poll_accepts newORMetrics) ops" if "getJSON get (od_reject de) b p = Some rj" "reject_ops b' s r rj prev = (ops, prev1)" for b p rj ops prev1 b' s r
    using accepted_reject [of rj b' s r prev] that by simp
  show ?thesis unfolding poll_target_def Let_def
    using accepted_error by (auto simp: accepted_route accepted_tps accepted_ttft simp del: poll_accepts.simps dest: r split: option.split prod.split)
qed

lemma accepted_targets:
  assumes counts: "counts_nonneg de"
  shows "list_all (poll_accepts newORMetrics) (fst (poll_targets de get baseURL i ts (oks, prev)))"
proof (induction ts arbitrary: i oks prev)
  case (Cons t ts)
  obtain ops n prev1 where t: "poll_target de (get i) baseURL t prev = (ops, n, prev1)" by (rule prod_cases3)
  let ?s = "(if n > 0 then put (baseOf baseURL t, pt_route t) False oks else oks, prev1)"
  obtain ops1 s1 where r: "poll_targets de get baseURL (Suc i) ts ?s = (ops1, s1)" by (rule prod.exhaust)
  have "list_all (poll_accepts newORMetrics) ops1" using Cons [of "Suc i" "fst ?s" "snd ?s"] r by simp
  then show ?case using t r accepted_target [OF counts, where get = "get i" and baseURL = baseURL and t = t and prev = prev] by simp
qed simp

lemma accepted_up: "list_all (poll_accepts newORMetrics) (up_ops baseURL now oks t)"
  using or_vectors(1) by (simp add: up_ops_def eval_nat_numeral)

lemma accepted_poll:
  assumes counts: "counts_nonneg de"
  shows "list_all (poll_accepts newORMetrics) (fst (pollOnce de get baseURL now targets prev))"
proof -
  let ?ts = "map label_unknown targets"
  let ?s = "(fold (\<lambda>t m. put (baseOf baseURL t, pt_route t) True m) ?ts [], prev)"
  obtain ops oks prev1 where p: "poll_targets de get baseURL 0 ?ts ?s = (ops, oks, prev1)" by (rule prod_cases3)
  have "list_all (poll_accepts newORMetrics) ops"
    using accepted_targets [OF counts, where get = get and baseURL = baseURL and i = 0 and ts = ?ts and oks = "fst ?s" and prev = "snd ?s"] p by simp
  moreover have "list_all (poll_accepts newORMetrics) (map Reset resettable)" using or_vectors(6) by (simp add: list_all_iff)
  moreover have "list_all (poll_accepts newORMetrics) (concat (map (up_ops baseURL now oks) ?ts))"
    using accepted_up by (fastforce simp: list_all_iff)
  ultimately show ?thesis using p by (simp add: pollOnce_def)
qed

text \<open>Property C24 (no call the client rejects).  Whatever the exporter's configuration: registering its
  metrics does not panic; every call a detail line causes is on a registered vector of the right
  kind with as many label values as the vector has labels, and no counter is given a negative
  amount, whatever the line says; the same for every call of a poll, provided the openrestys never
  report a negative count.\<close>

theorem calls_accepted:
  assumes "counts_nonneg de"
  shows "\<exists>reg. exporter_registry x = Some reg \<and> list_all (accepts reg) (exporter_observe x d)
    \<and> list_all (poll_accepts reg) (fst (exporter_poll de get now x))"
proof -
  let ?rest = "(if ex_resolver x = None then [] else resolverMetrics) @ (if ex_poller x = NoPoller then [] else newORMetrics)"
  have "list_all (accepts (newMetrics @ ?rest)) (exporter_observe x d)"
    unfolding exporter_observe_def using accepted_observe [of "map_option (\<lambda>(cf, r). Lookup r) (ex_resolver x)" d]
    by (auto simp: list_all_iff intro: accepts_append(1))
  moreover have "list_all (poll_accepts (newMetrics @ ?rest)) (fst (exporter_poll de get now x))"
  proof (cases "ex_poller x = NoPoller")
    case False
    have "fst (exporter_poll de get now x) = fst (pollOnce de get (oc_baseURL (ex_orc x)) now (poller_targets x) (ex_prev x))"
      using False by (simp add: exporter_poll_def split: prod.split)
    then show ?thesis using accepted_poll [OF assms, where get = get and baseURL = "oc_baseURL (ex_orc x)" and now = now and targets = "poller_targets x" and prev = "ex_prev x"] False
      by (auto simp: list_all_iff intro!: poll_accepts_append(2))
  qed (simp add: exporter_poll_def)
  ultimately show ?thesis using registry_is [of x] by blast
qed

text \<open>A static poller of one route, where one openresty has rejected three requests.\<close>

definition demo_env :: "string \<Rightarrow> string" where
  "demo_env = (\<lambda>_. [])(''OPENRESTY_POLL_URL'' := ''u/'', ''OPENRESTY_POLL_ROUTES'' := '' r,'')"

definition demo_rejecting :: or_decoders where
  "demo_rejecting = demo_or\<lparr>od_reject := (\<lambda>_. Some [(''r'', [(''tps'', 3)])])\<rparr>"

theorem calls_accepted_witness:
  "\<exists>reg. exporter_registry (exporter_main (\<lambda>_. None) demo_env None) = Some reg
    \<and> list_all (accepts reg) (exporter_observe (exporter_main (\<lambda>_. None) demo_env None) demo_detail)
    \<and> list_all (poll_accepts reg) (fst (exporter_poll demo_rejecting (\<lambda>_ _. Some []) 7 (exporter_main (\<lambda>_. None) demo_env None)))"
  by (rule calls_accepted) (simp add: demo_rejecting_def demo_or_def counts_nonneg_def counts_ok_def)

end
