(* ===== verification/End_To_End.thy ===== *)
theory End_To_End
  imports Values Writers Exporter_Tail_Facts
begin

text \<open>
  From the listener's details writer to the exporter's metrics: the lines \<open>detailsWriter.write\<close>
  accepted for a day (\<open>bodylog-listener-go/main.go\<close>) are what the tailer gives to \<open>observe\<close>
  (\<open>bodylog-exporter-go/tail.go\<close>).
\<close>

subsection \<open>The record both programs know\<close>



subsection \<open>What the writer leaves in the file\<close>

definition details_content :: "store \<Rightarrow> string \<Rightarrow> bytes" where
  "details_content st day = (case map_of (ddir st) (day @ ''.jsonl'') of Some (File (Plain b)) \<Rightarrow> b | _ \<Rightarrow> [])"






text \<open>The records given to the writer, with the clock each read and what the system did with it.\<close>

type_synonym detail_write = "write_ops \<times> string \<times> detailRecord"

fun details_run :: "(detailRecord \<Rightarrow> bytes option) \<Rightarrow> detail_write list \<Rightarrow> detailsWriter \<times> store \<Rightarrow> written list \<times> detailsWriter \<times> store" where
  "details_run enc [] s = ([], s)"
| "details_run enc ((ops, day, d) # ws) (w, st) =
     (case details_write ops day (enc d) w st of
        (r, w', st') \<Rightarrow> map_prod ((#) r) id (details_run enc ws (w', st')))"

text \<open>The records of a day the writer reported as written.\<close>

definition accepted :: "string \<Rightarrow> detail_write list \<Rightarrow> written list \<Rightarrow> detailRecord list" where
  "accepted day ws rs = map (\<lambda>((_, _, d), _). d) (filter (\<lambda>((_, t, _), r). t = day \<and> wr_ok r) (zip ws rs))"

lemma accepted_simps [simp]:
  "accepted day [] rs = []"
  "accepted day ((ops, t, d) # ws) (r # rs) = (if t = day \<and> wr_ok r then [d] else []) @ accepted day ws rs"
  by (simp_all add: accepted_def)



subsection \<open>What the exporter reads of it\<close>




subsection \<open>A run\<close>

text \<open>Two records on one day, one of the day before and one whose write fails.\<close>

definition demo_record :: "string \<Rightarrow> detailRecord" where
  "demo_record rid = \<lparr>d_ts = [], d_ts_end = [], d_request_id = rid, d_source_addr = [], d_uri = [], d_method = [], d_stream = None, d_status = 200,
     d_peer = [], d_forwarded_to = [], d_backend = ''10.0.0.5:8050'', d_mode = [], d_session_src = [], d_model = ''m'', d_finish_reason = [],
     d_frt = 0, d_lct = 0, d_rt = 0, d_chunk_count = 0, d_req_bytes = 0, d_resp_bytes = 0, d_prompt_tokens = 0, d_completion_tokens = 0,
     d_cached_tokens = 0, d_total_tokens = 0, d_reasoning_tokens = 0\<rparr>"

definition demo_enc :: "detailRecord \<Rightarrow> bytes option" where
  "demo_enc d = (if d = demo_record (d_request_id d) \<and> CHR 0x0A \<notin> set (d_request_id d) then Some (d_request_id d) else None)"






text \<open>A write that fails part-way leaves a torn line, which swallows the record written next, although
  that one is reported as written.\<close>

definition demo_torn :: "detail_write list" where
  "demo_torn = [(fine\<lparr>failsAfter := Some 1\<rparr>, ''2'', demo_record ''ab''), (fine, ''2'', demo_record ''c'')]"

lemma torn_line:
  "\<exists>rs w st'. details_run demo_enc demo_torn (new_detailsWriter, \<lparr>root = [], ddir = []\<rparr>) = (rs, w, st')
    \<and> accepted ''2'' demo_torn rs = [demo_record ''c''] \<and> lines_of (details_content st' ''2'') = [''ac'' @ [CHR 0x0A]]"
  by (simp add: demo_torn_def fine_def new_detailsWriter_def details_write_def openDetails_def appendDetails_def put_bytes_def
      demo_enc_def Let_def details_content_def allLines.simps) (simp add: demo_record_def lines_of_stop)

end
