(* ===== verification/Spec2Isabelle.thy ===== *)
theory Spec2Isabelle
  imports Listener_Facts Http_Server Summary_Facts Retention_Facts Housekeep_Facts Metrics_Facts Exporter_Metrics_Facts Exporter_Tail_Facts Exporter_Routes_Facts Exporter_Recovery Exporter_Checkpoint Exporter_Registry End_To_End
begin

text \<open>
  The Go programs of llm-openresty: what the gateway's request log goes through.

  \<^bold>\<open>The system.\<close>  The OpenResty gateway streams one frame per finished request to the listener
  (\<open>src/bodylog-listener-go\<close>).  The listener writes each request as a JSON line into hourly files, counts it
  in a bucket per minute, backend and stream flag, and writes a short detail record into a daily
  file.  Closed days are archived, closed detail files become parquet, old data is deleted by
  age and disk usage, and \<open>/summary\<close> and \<open>/metrics\<close> answer from memory and from the detail files.
  The exporter (\<open>src/bodylog-exporter-go\<close>) tails the detail files and turns lines into Prometheus
  metrics, labelled with the route and service it learns from the Kubernetes API; after a long
  outage it reads the gap from the listener's \<open>/metrics\<close>; and it polls the openrestys' own status.

  \<^bold>\<open>Vocabulary.\<close>  \<open>Prelude\<close>: machine types (\<open>int64\<close> and \<open>uint64\<close> are 64-bit words, compared through
  \<open>sint\<close> or as unsigned, arithmetic wraps; \<open>float64\<close> is a rational that every operation rounds to
  the nearest double, in \<open>Go_Float\<close>, which has no infinities or NaN), strings as bytes, maps as association lists,
  and the interface \<open>keyed_fold\<close> of a loop that accumulates per key.  \<open>Go_Strings\<close>, \<open>Go_Encoding\<close>,
  \<open>Go_Float\<close>, \<open>Go_Time\<close>, \<open>Go_Layouts\<close>: what the programs use of the Go library, with local zones as fixed
  offsets.  \<open>Float_Facts\<close>: roundings of concrete doubles.
  \<open>Layout_Facts\<close>: a time written in RFC 3339 is read back exactly.  \<open>Step_Systems\<close>: the interfaces
  \<open>step_system\<close> (what every step keeps) and \<open>draining_system\<close> (what every step brings nearer to an end).

  \<^bold>\<open>Listener.\<close>
  \<^item> \<open>Frame\<close> (\<open>readFrame\<close>, \<open>handleConn\<close>): the wire protocol; a connection is the bytes still to come and how
    they end; \<open>readLoop\<close> instantiates the interface \<open>framed_stream\<close>.
  \<^item> \<open>Values\<close>, \<open>Extract\<close>, \<open>Extract_Facts\<close>, \<open>Process\<close> (\<open>assembleEntry\<close>, \<open>extractResp\<close>, \<open>reassembleToolCalls\<close>, the
    readers of an entry): from a frame to a line, a request to count and a detail record.
  \<^item> \<open>Bucket\<close>, \<open>Aggregator\<close>, \<open>Aggregator_Inv\<close>, \<open>Aggregator_Log\<close>, \<open>Aggregator_Reload\<close> (\<open>ingest\<close>,
    \<open>flushClosedMinutes\<close>, \<open>reload\<close>): buckets are shared by pointer between the archive, its index, the dirty
    set and the snapshots of what was written, so they live in an explicit heap; the abstract
    value is a map from minute and key to counters.
  \<^item> \<open>Store\<close>, \<open>Writers\<close>, \<open>Housekeep\<close>, \<open>Housekeep_Facts\<close>, \<open>Retention\<close>, \<open>Retention_Facts\<close>: the data directory and
    all that writes, archives and deletes in it, with every failure of the system as an outcome.
  \<^item> \<open>Http_Text\<close>, \<open>Summary\<close>, \<open>Summary_Facts\<close>, \<open>Metrics_Api\<close>, \<open>Metrics_Facts\<close>, \<open>Http_Server\<close>: the HTTP API.
  \<^item> \<open>Listener\<close>, \<open>Listener_Facts\<close> (\<open>main\<close>, \<open>processFrame\<close>): the goroutines as a step relation over one
    state; a step is what a goroutine does under one lock or with one channel operation, so that
    requests come between the two halves of a flush and the process can end there.

  \<^bold>\<open>Exporter.\<close>
  \<^item> \<open>Exporter_Metrics\<close>, \<open>Exporter_Metrics_Facts\<close>, \<open>Exporter_Registry\<close> (\<open>metrics.go\<close>): \<open>observe\<close> as the sequence of
    calls on the Prometheus client, and the vectors those calls have to fit.
  \<^item> \<open>Exporter_Tail\<close>, \<open>Exporter_Tail_Facts\<close>, \<open>Exporter_Checkpoint\<close>, \<open>Exporter_Recovery\<close> (\<open>tail.go\<close>, \<open>checkpoint.go\<close>,
    \<open>recovery.go\<close>): reading lines once over faults, rotation and restarts, and the recovery
    against the model of the listener's \<open>/metrics\<close>, up to the first round of the live tail.
  \<^item> \<open>Exporter_Roles\<close>, \<open>Exporter_Routes\<close>, \<open>Exporter_Owners\<close>, \<open>Exporter_Routes_Facts\<close> (\<open>pd_roles.go\<close>,
    \<open>route_endpoints.go\<close>): the resolver.
  \<^item> \<open>Exporter_Poll\<close>, \<open>Exporter_Poll_Facts\<close> (\<open>openresty_poll.go\<close>): the poller.
  \<^item> \<open>Exporter_Main\<close> (\<open>main.go\<close>): configuration, the requests to servers, and the three loops side by side.

  \<^bold>\<open>Both.\<close>  \<open>Exporter_Recovery\<close> runs the exporter's client against the listener's server; \<open>End_To_End\<close> follows a
  detail record from the listener's writer through the file to the exporter's counters.

  \<^bold>\<open>What the lemmas show.\<close>  Frames: round trip, and what an arbitrary connection delivers.  Entries: bodies
  can be read back, tool calls are regrouped, the minute is that of the end, and the aggregate
  and the detail agree.  Aggregator: a representation invariant and a refinement of the abstract
  map; a ledger (lines on file plus memory is what was ingested) kept by every step, from which
  the restart follows; and what late requests lose.  Directory: archiving loses no file whatever
  fails; hour files hold exactly what was acknowledged; retention and housekeeping stay apart;
  deletion is oldest first and minimal.  API: paging is exact, literals cannot break out of the
  SQL, nothing is told without the token.  Process: no interleaving loses or repeats a frame, a
  shutdown ends and loses nothing it has read, and only null metadata can take it down.
  Exporter: each line once and in order, no restart skips, the recovery ends and is complete,
  labels and targets are those of the last listing, the walk over owners ends, 429 counters grow
  by what the openrestys counted, no call is one the client would panic on.

  \<^bold>\<open>Bounds and termination.\<close>  Loops are structural or have a measure (bytes pending, digits, list
  lengths).  \<open>recover_pages\<close> may run for ever against an arbitrary server, so it is a partial function
  with \<open>None\<close> for that; against the listener it is proved to return.  \<open>fetch_all\<close>, a client of
  \<open>/metrics\<close> in the statements, has fuel; one more than the number of rows is proved enough.  The
  owner walk has the program's bound of five objects.  \<open>left\<close> bounds the steps of a shutdown.

  \<^bold>\<open>Parameters.\<close>  \<open>encoding/json\<close> (decoders and encoders), DuckDB (the answer to a query), tar and gzip
  (outcomes), the clock, the operating system's answers, the Kubernetes API and the openrestys (a
  function of the URL during one refresh or one poll), the Prometheus client (the calls made on it).

  \<^bold>\<open>Not modelled.\<close>  The gateway itself (Lua and nginx configuration), manifests, dashboards and tests.  Of the Go
  programs: logging, sockets, TLS and the HTTP transport, response headers and the JSON text of
  answers, help texts, and the tickers, whose firing is a step that may come at any time.
  A housekeeping pass is one step of the process; \<open>Housekeep_Facts\<close> treats its inner failures.  An
  append to an aggregate file that opened writes all its lines.
\<close>

end
